theory Spec2Isabelle
  imports Complex_Main "HOL-Library.Multiset" "HOL-Library.Product_Lexorder"
begin

section \<open>Data model\<close>

text \<open>
  The goal and event services of the planner keep their rows in two tables of a hosted
  relational database. A table is modelled as the list of its rows; timestamps (ISO 8601
  strings in the source) are instants in milliseconds since the epoch; an absent
  (\<open>undefined\<close> or \<open>null\<close>) field is \<open>None\<close>. The time stamps that one call of a service
  method writes, on the client and in the storage, are modelled by one instant.
\<close>

datatype GoalStatus = Active | Completed | Paused | Cancelled

record Goal =
  gid :: string
  title :: string
  description :: "string option"
  parentId :: "string option"
  level :: int
  progress :: real
  status :: GoalStatus
  startDate :: "int option"
  dueDate :: "int option"
  completedAt :: "int option"
  categoryId :: "string option"
  userId :: string
  createdAt :: int
  updatedAt :: int

text \<open>
  A failed call: \<open>ClientError\<close> is a \<open>throw new Error(message)\<close> of the service code,
  \<open>StorageError\<close> an error object returned by the storage client (a violated constraint, an
  exception raised by a trigger, a wrong row count) that the service rethrows.
\<close>

datatype error = ClientError string | StorageError string

text \<open>JavaScript truthiness of an optional string: absent and the empty string are falsy.\<close>

definition truthy :: "string option \<Rightarrow> bool" where
  "truthy v = (case v of None \<Rightarrow> False | Some s \<Rightarrow> s \<noteq> [])"

text \<open>\<open>v || null\<close>, and the value an \<open>if (v)\<close> branch sees.\<close>

definition orNull :: "string option \<Rightarrow> string option" where
  "orNull v = (if truthy v then v else None)"

text \<open>The query modifier \<open>.single()\<close>: exactly one row, otherwise an error.\<close>

definition single :: "'a list \<Rightarrow> error + 'a" where
  "single rows = (case rows of [r] \<Rightarrow> Inr r | _ \<Rightarrow> Inl (StorageError ''PGRST116''))"

section \<open>Numbers\<close>

text \<open>
  A \<open>number\<close> of the client is an IEEE 754 binary64 value. A finite double is modelled by
  the real number it denotes, and every operation of the client that rounds is written
  with \<open>toDouble\<close>, the double nearest to a real number, ties to the even significand:
  \<open>a + b\<close> of the source is \<open>toDouble (a + b)\<close>, \<open>parseFloat\<close> of a decimal numeral \<open>x\<close> is
  \<open>toDouble x\<close>. \<open>binade x\<close> is the exponent \<open>e\<close> with \<open>2^e \<le> |x| < 2^(e+1)\<close> of a number in the
  normal range; the spacing of the doubles there is \<open>2^(e-52)\<close>, below the normal range it
  is \<open>2^(-1074)\<close>. The infinities and \<open>NaN\<close> are outside the model: a number beyond the
  largest double is rounded with the spacing of the last binade.
\<close>

definition roundHalfEven :: "real \<Rightarrow> int" where
  "roundHalfEven x =
     (let f = \<lfloor>x\<rfloor>; r = x - of_int f in
      if r < 1 / 2 then f else if 1 / 2 < r then f + 1 else if even f then f else f + 1)"

definition minExponent :: int where
  "minExponent = - 1022"

definition maxExponent :: int where
  "maxExponent = 1023"

definition binade :: "real \<Rightarrow> int option" where
  "binade x = find (\<lambda>e. 2 powi e \<le> \<bar>x\<bar> \<and> \<bar>x\<bar> < 2 powi (e + 1)) [minExponent..maxExponent]"

definition toDouble :: "real \<Rightarrow> real" where
  "toDouble x =
     (let q = (case binade x of
                 Some e \<Rightarrow> 2 powi (e - 52)
               | None \<Rightarrow> if \<bar>x\<bar> < 2 powi (- 1022) then 2 powi (- 1074) else 2 powi 971)
      in of_int (roundHalfEven (x / q)) * q)"

text \<open>\<open>Math.round\<close> of a double: the nearest integer, a half rounded towards plus infinity.\<close>

definition mathRound :: "real \<Rightarrow> int" where
  "mathRound x = \<lfloor>x + 1 / 2\<rfloor>"

text \<open>
  The column \<open>progress DECIMAL(5,2)\<close> keeps two decimals and rounds a half away from zero.
  \<open>numeric_5_2 x\<close> is what the column keeps of an exact decimal \<open>x \<ge> 0\<close>, such as the
  average that a storage function computes.
\<close>

definition numeric_5_2 :: "real \<Rightarrow> real" where
  "numeric_5_2 x = of_int \<lfloor>x * 100 + 1 / 2\<rfloor> / 100"

text \<open>
  \<open>numeric_5_2_of_double d\<close> is what the column keeps of a double \<open>d\<close> between 0 and 100
  that the client sends. The request carries the shortest decimal numeral that reads back
  as \<open>d\<close>, and the column rounds that numeral. With \<open>j\<close> the number of whole hundredths in
  \<open>d\<close> and \<open>t\<close> the midpoint between \<open>j / 100\<close> and \<open>(j + 1) / 100\<close>: when \<open>d\<close> is the double
  nearest to \<open>t\<close> the numeral sent is \<open>t\<close> itself (no shorter numeral reads back as \<open>d\<close>)
  and is rounded up, as is every numeral of a double above \<open>t\<close>; otherwise the numeral is
  below \<open>t\<close> and is rounded down. So the double 99.995 is stored as 100.
\<close>

definition numeric_5_2_of_double :: "real \<Rightarrow> real" where
  "numeric_5_2_of_double d =
     (let j = \<lfloor>d * 100\<rfloor>; t = (2 * of_int j + 1) / 200 in
      if toDouble t = d \<or> t < d then of_int (j + 1) / 100 else of_int j / 100)"

section \<open>The goals table (src/supabase/migrations/003_create_profiles_table.sql)\<close>

text \<open>
  Ids are primary keys. The declarative constraints of the table and its \<open>BEFORE\<close> row
  triggers decide whether a statement is accepted; they are part of every insert and
  update below. The foreign keys to the categories and users tables are outside the
  model. The columns \<open>progress\<close> and \<open>status\<close> are never written as \<open>NULL\<close> by the services
  and are modelled without it; a \<open>progress\<close> of a row is the decimal that the column holds.

  Of the \<open>AFTER\<close> row triggers, \<open>update_parent_goal_progress\<close> writes the goals table
  itself; it is part of \<open>updateGoal\<close> below, the one statement of the services that changes
  a progress or a status. The update statements of \<open>moveGoal\<close> and \<open>updateDescendantLevels\<close>
  change neither, so the trigger does nothing for them. An insert is modelled up to that
  trigger, which recomputes the progress columns of the parent of the new row.
  \<open>update_user_stats\<close> writes the profiles table only and is modelled in its own section.
\<close>

text \<open>
  \<open>validate_goal_hierarchy\<close>, for the row \<open>NEW\<close>. When the parent row is missing,
  \<open>parent_level\<close> is \<open>NULL\<close>, the comparison is \<open>NULL\<close> and nothing is raised.
\<close>

definition validate_goal_hierarchy :: "Goal list \<Rightarrow> Goal \<Rightarrow> error option" where
  "validate_goal_hierarchy goals NEW =
     (case parentId NEW of
        None \<Rightarrow>
          if level NEW \<noteq> 1 then Some (StorageError ''Root goals must be level 1'') else None
      | Some p \<Rightarrow>
          (case filter (\<lambda>g. gid g = p) goals of
             [] \<Rightarrow> None
           | parent # _ \<Rightarrow>
               if level NEW \<noteq> level parent + 1
               then Some (StorageError ''Child goal level must be exactly one greater than parent level'')
               else None))"

text \<open>The column type of the title and the \<open>CHECK\<close> constraints of the table.\<close>

definition goals_check :: "Goal \<Rightarrow> error option" where
  "goals_check r =
     (if length (title r) > 500 then Some (StorageError ''value too long'')
      else if \<not> (level r \<ge> 1 \<and> level r \<le> 4) then Some (StorageError ''goals_level_check'')
      else if \<not> (progress r \<ge> 0 \<and> progress r \<le> 100) then Some (StorageError ''goals_progress_check'')
      else if (case (startDate r, dueDate r) of (Some s, Some d) \<Rightarrow> \<not> d \<ge> s | _ \<Rightarrow> False)
        then Some (StorageError ''valid_date_range'')
      else if parentId r = Some (gid r) then Some (StorageError ''no_self_reference'')
      else None)"

text \<open>\<open>parent_id UUID REFERENCES goals(id)\<close>.\<close>

definition goals_parent_fkey :: "Goal list \<Rightarrow> Goal \<Rightarrow> error option" where
  "goals_parent_fkey goals r =
     (case parentId r of
        None \<Rightarrow> None
      | Some p \<Rightarrow>
          if list_ex (\<lambda>g. gid g = p) goals then None
          else Some (StorageError ''goals_parent_id_fkey''))"

definition acceptRow :: "Goal list \<Rightarrow> Goal \<Rightarrow> error option" where
  "acceptRow goals NEW =
     (case validate_goal_hierarchy goals NEW of
        Some e \<Rightarrow> Some e
      | None \<Rightarrow> (case goals_check NEW of
                  Some e \<Rightarrow> Some e
                | None \<Rightarrow> goals_parent_fkey goals NEW))"

text \<open>\<open>INSERT\<close> of one row, returning it.\<close>

definition insertGoal :: "Goal list \<Rightarrow> Goal \<Rightarrow> error + (Goal list \<times> Goal)" where
  "insertGoal goals NEW =
     (case acceptRow goals NEW of
        Some e \<Rightarrow> Inl e
      | None \<Rightarrow>
          if list_ex (\<lambda>g. gid g = gid NEW) goals then Inl (StorageError ''goals_pkey'')
          else Inr (goals @ [NEW], NEW))"

text \<open>
  \<open>UPDATE ... WHERE id = i\<close> with the column patch \<open>patch\<close>, returning the new rows. The
  statement is rejected as a whole when a new row is not accepted.
\<close>

definition updateRows ::
  "Goal list \<Rightarrow> string \<Rightarrow> (Goal \<Rightarrow> Goal) \<Rightarrow> error + (Goal list \<times> Goal list)" where
  "updateRows goals i patch =
     (let new = map patch (filter (\<lambda>g. gid g = i) goals) in
      case List.map_filter (acceptRow goals) new of
        e # _ \<Rightarrow> Inl e
      | [] \<Rightarrow> Inr (map (\<lambda>g. if gid g = i then patch g else g) goals, new))"

text \<open>
  \<open>calculate_parent_goal_progress\<close>: \<open>AVG(progress)\<close> over the rows with the given parent
  and status \<open>'active'\<close>, \<open>COALESCE\<close>d to 0 when there is no such row. The average is an
  unconstrained \<open>DECIMAL\<close>, taken here as the exact quotient.
\<close>

definition calculate_parent_goal_progress :: "Goal list \<Rightarrow> string \<Rightarrow> real" where
  "calculate_parent_goal_progress goals parent_goal_id =
     (let rows = filter (\<lambda>g. parentId g = Some parent_goal_id \<and> status g = Active) goals in
      if rows = [] then 0 else sum_list (map progress rows) / of_nat (length rows))"

text \<open>
  The \<open>SET\<close> list of the \<open>UPDATE\<close> in \<open>update_parent_goal_progress\<close>, for the parent row \<open>g\<close>:
  the two \<open>CASE\<close> expressions compare the average as computed, the column \<open>progress\<close>
  keeps it rounded to two decimals.
\<close>

definition setParentProgress :: "real \<Rightarrow> int \<Rightarrow> Goal \<Rightarrow> Goal" where
  "setParentProgress parent_progress now g =
     g\<lparr>progress := numeric_5_2 parent_progress,
       status := (if parent_progress = 100 then Completed
                  else if status g = Completed \<and> parent_progress < 100 then Active
                  else status g),
       completedAt := (if parent_progress = 100 \<and> completedAt g = None then Some now
                       else if parent_progress < 100 then None
                       else completedAt g)\<rparr>"

text \<open>
  \<open>update_parent_goal_progress\<close>, the \<open>AFTER INSERT OR UPDATE\<close> row trigger, for the old
  and the new row of a statement (\<open>OLD\<close> is absent on insert) on the table \<open>goals\<close> that the
  statement has left. Its \<open>UPDATE\<close> of the parent row passes the constraints and the
  \<open>BEFORE UPDATE\<close> triggers (which stamp \<open>updated_at\<close> with \<open>NOW()\<close>, the argument \<open>now\<close>) and
  fires the trigger again, for the parent row. The first argument is the number of nested
  trigger calls that the stack of the server has room for; a call beyond it fails.
\<close>

fun update_parent_goal_progress ::
  "nat \<Rightarrow> int \<Rightarrow> Goal list \<Rightarrow> Goal option \<Rightarrow> Goal \<Rightarrow> error + Goal list" where
  "update_parent_goal_progress 0 now goals OLD NEW =
     Inl (StorageError ''stack depth limit exceeded'')"
| "update_parent_goal_progress (Suc depth) now goals OLD NEW =
     (case parentId NEW of
        None \<Rightarrow> Inr goals
      | Some parent_id \<Rightarrow>
          if (case OLD of
                None \<Rightarrow> True
              | Some old \<Rightarrow> progress NEW \<noteq> progress old \<or> status NEW \<noteq> status old)
          then
            (let parent_progress = calculate_parent_goal_progress goals parent_id in
             case updateRows goals parent_id
                    (\<lambda>g. (setParentProgress parent_progress now g)\<lparr>updatedAt := now\<rparr>) of
               Inl e \<Rightarrow> Inl e
             | Inr (goals', rows) \<Rightarrow>
                 (case zip (filter (\<lambda>g. gid g = parent_id) goals) rows of
                    [] \<Rightarrow> Inr goals'
                  | (old, new) # _ \<Rightarrow>
                      update_parent_goal_progress depth now goals' (Some old) new))
          else Inr goals)"

section \<open>GoalService (src/unnamed/part_006)\<close>

text \<open>\<open>getGoal\<close>: select the rows with the given id, \<open>.single()\<close>.\<close>

definition getGoal :: "Goal list \<Rightarrow> string \<Rightarrow> error + Goal" where
  "getGoal goals i = single (filter (\<lambda>g. gid g = i) goals)"

text \<open>
  \<open>getGoalChildren parentId = getGoals {parentId}\<close>: the rows whose \<open>parent_id\<close> equals
  the argument, ordered by level and then by creation time.
\<close>

definition getGoalChildren :: "Goal list \<Rightarrow> string \<Rightarrow> Goal list" where
  "getGoalChildren goals p =
     sort_key (\<lambda>g. (level g, createdAt g)) (filter (\<lambda>g. parentId g = Some p) goals)"

text \<open>
  \<open>calculateParentProgress\<close>. The progress of a child is read with \<open>parseFloat\<close>; the sum,
  the quotient, the product with 100 and the quotient by 100 are operations on doubles.
\<close>

definition calculateParentProgress :: "Goal list \<Rightarrow> string \<Rightarrow> real" where
  "calculateParentProgress goals p =
     (let children = getGoalChildren goals p in
      if length children = 0 then 0
      else
        let relevantChildren =
              filter (\<lambda>child. status child = Active \<or> status child = Completed) children in
        if length relevantChildren = 0 then 0
        else
          let totalProgress =
                foldl (\<lambda>sum child. toDouble (sum + toDouble (progress child))) 0 relevantChildren;
              averageProgress = toDouble (totalProgress / of_nat (length relevantChildren))
          in toDouble (of_int (mathRound (toDouble (averageProgress * 100))) / 100))"

text \<open>
  \<open>UpdateGoalInput\<close>: every field but the id is optional; the dates and the category can
  also be given as \<open>null\<close> (the inner \<open>None\<close>), which clears the column.
\<close>

record UpdateGoalInput =
  u_id :: string
  u_title :: "string option"
  u_description :: "string option"
  u_progress :: "real option"
  u_status :: "GoalStatus option"
  u_startDate :: "int option option"
  u_dueDate :: "int option option"
  u_categoryId :: "string option option"

text \<open>
  The column patch \<open>goalData\<close> that \<open>updateGoal\<close> builds, as a function on the row. The
  second argument is \<open>new Date()\<close>. A column that is not in the patch keeps its value. The
  progress of the input is a double; it is clamped, compared with 100, and sent to the
  column, which keeps two decimals of it.
\<close>

definition goalData :: "UpdateGoalInput \<Rightarrow> int \<Rightarrow> Goal \<Rightarrow> Goal" where
  "goalData inp now row =
     (let r1 = (case u_title inp of None \<Rightarrow> row | Some t \<Rightarrow> row\<lparr>title := t\<rparr>);
          r2 = (case u_description inp of None \<Rightarrow> r1 | Some d \<Rightarrow> r1\<lparr>description := Some d\<rparr>);
          gprogress = (case u_progress inp of
                         None \<Rightarrow> None
                       | Some p \<Rightarrow> Some (min 100 (max 0 (toDouble p))));
          r3 = (case gprogress of
                  None \<Rightarrow> r2
                | Some p \<Rightarrow> r2\<lparr>progress := numeric_5_2_of_double p\<rparr>);
          r4 = (case u_status inp of None \<Rightarrow> r3 | Some st \<Rightarrow> r3\<lparr>status := st\<rparr>);
          r5 = (case u_startDate inp of None \<Rightarrow> r4 | Some d \<Rightarrow> r4\<lparr>startDate := d\<rparr>);
          r6 = (case u_dueDate inp of None \<Rightarrow> r5 | Some d \<Rightarrow> r5\<lparr>dueDate := d\<rparr>);
          r7 = (case u_categoryId inp of None \<Rightarrow> r6 | Some c \<Rightarrow> r6\<lparr>categoryId := c\<rparr>)
      in if gprogress = Some 100 \<and> u_status inp \<noteq> Some Completed
         then r7\<lparr>status := Completed, completedAt := Some now\<rparr>
         else r7)"

text \<open>\<open>goalData\<close> is still the empty object \<open>{}\<close>: no field of the input is defined.\<close>

definition goalDataEmpty :: "UpdateGoalInput \<Rightarrow> bool" where
  "goalDataEmpty inp =
     (u_title inp = None \<and> u_description inp = None \<and> u_progress inp = None \<and>
      u_status inp = None \<and> u_startDate inp = None \<and> u_dueDate inp = None \<and>
      u_categoryId inp = None)"

text \<open>
  \<open>updateGoal\<close>: the patch is sent with \<open>.update(goalData).eq('id', id).select().single()\<close>.
  For an empty patch the storage interface runs no statement and returns no row, which
  \<open>.single()\<close> reports as an error. Otherwise the row is updated, the \<open>BEFORE UPDATE\<close>
  trigger stamps \<open>updated_at\<close>, the \<open>AFTER UPDATE\<close> trigger \<open>update_parent_goal_progress\<close>
  fires (first argument: the room for nested trigger calls), and the row as the statement
  wrote it is returned; an error of the storage undoes the statement and is rethrown.
\<close>

definition updateGoal ::
  "nat \<Rightarrow> int \<Rightarrow> Goal list \<Rightarrow> UpdateGoalInput \<Rightarrow> error + (Goal list \<times> Goal)" where
  "updateGoal depth now goals inp =
     (if goalDataEmpty inp then Inl (StorageError ''PGRST116'')
      else
        case updateRows goals (u_id inp) (\<lambda>row. (goalData inp now row)\<lparr>updatedAt := now\<rparr>) of
          Inl e \<Rightarrow> Inl e
        | Inr (goals', rows) \<Rightarrow>
            (case (case zip (filter (\<lambda>g. gid g = u_id inp) goals) rows of
                     [] \<Rightarrow> Inr goals'
                   | (old, new) # _ \<Rightarrow>
                       update_parent_goal_progress depth now goals' (Some old) new) of
               Inl e \<Rightarrow> Inl e
             | Inr goals'' \<Rightarrow>
                 (case single rows of Inl e \<Rightarrow> Inl e | Inr row \<Rightarrow> Inr (goals'', row))))"

text \<open>The input object \<open>{ id }\<close> with every other field \<open>undefined\<close>.\<close>

definition noChange :: "string \<Rightarrow> UpdateGoalInput" where
  "noChange i = \<lparr>u_id = i, u_title = None, u_description = None, u_progress = None,
     u_status = None, u_startDate = None, u_dueDate = None, u_categoryId = None\<rparr>"

text \<open>\<open>updateProgress\<close>; the argument \<open>p\<close> stands for the double nearest to it.\<close>

definition updateProgress ::
  "nat \<Rightarrow> int \<Rightarrow> Goal list \<Rightarrow> string \<Rightarrow> real \<Rightarrow> error + (Goal list \<times> Goal)" where
  "updateProgress depth now goals goalId p =
     updateGoal depth now goals
       ((noChange goalId)\<lparr>u_progress := Some p,
                          u_status := Some (if toDouble p = 100 then Completed else Active)\<rparr>)"

text \<open>
  \<open>updateParentProgressChain\<close>. The recursion of the source climbs the parent references
  and is not structural; the first argument bounds the number of calls, and \<open>None\<close> says
  that the bound was reached before the call returned. The test of the source,
  \<open>Math.abs(parent.progress - newParentProgress) > 0.01\<close>, is one on doubles: the stored
  progress is read with \<open>parseFloat\<close>, the difference is rounded, and \<open>0.01\<close> is the double
  nearest to 1/100.
\<close>

fun updateParentProgressChain ::
  "nat \<Rightarrow> nat \<Rightarrow> int \<Rightarrow> Goal list \<Rightarrow> string \<Rightarrow> (error + Goal list) option" where
  "updateParentProgressChain 0 depth now goals goalId = None"
| "updateParentProgressChain (Suc fuel) depth now goals goalId =
     (case getGoal goals goalId of
        Inl e \<Rightarrow> Some (Inl e)
      | Inr goal \<Rightarrow>
          (case orNull (parentId goal) of
             None \<Rightarrow> Some (Inr goals)
           | Some p \<Rightarrow>
               (let newParentProgress = calculateParentProgress goals p in
                case getGoal goals p of
                  Inl e \<Rightarrow> Some (Inl e)
                | Inr parent \<Rightarrow>
                    if \<bar>toDouble (toDouble (progress parent) - newParentProgress)\<bar>
                         > toDouble (1 / 100) then
                      (let newStatus =
                             (if newParentProgress = 100 then Completed
                              else if status parent = Completed \<and> newParentProgress < 100 then Active
                              else status parent)
                       in case updateGoal depth now goals
                                 ((noChange p)\<lparr>u_progress := Some newParentProgress,
                                                u_status := Some newStatus\<rparr>) of
                            Inl e \<Rightarrow> Some (Inl e)
                          | Inr (goals', _) \<Rightarrow> updateParentProgressChain fuel depth now goals' p)
                    else Some (Inr goals))))"

text \<open>
  \<open>updateProgressWithParentCalculation\<close>: the goal's own update, then the chain; the
  updated goal is returned.
\<close>

definition updateProgressWithParentCalculation ::
  "nat \<Rightarrow> nat \<Rightarrow> int \<Rightarrow> Goal list \<Rightarrow> string \<Rightarrow> real \<Rightarrow> (error + (Goal list \<times> Goal)) option" where
  "updateProgressWithParentCalculation fuel depth now goals goalId p =
     (case updateProgress depth now goals goalId p of
        Inl e \<Rightarrow> Some (Inl e)
      | Inr (goals', updatedGoal) \<Rightarrow>
          (case updateParentProgressChain fuel depth now goals' goalId of
             None \<Rightarrow> None
           | Some (Inl e) \<Rightarrow> Some (Inl e)
           | Some (Inr goals'') \<Rightarrow> Some (Inr (goals'', updatedGoal))))"

record CreateGoalInput =
  c_title :: string
  c_description :: "string option"
  c_parentId :: "string option"
  c_level :: int
  c_startDate :: "int option"
  c_dueDate :: "int option"
  c_categoryId :: "string option"

text \<open>The level validation at the head of \<open>createGoal\<close>.\<close>

definition validateLevel :: "Goal list \<Rightarrow> CreateGoalInput \<Rightarrow> error option" where
  "validateLevel goals inp =
     (case orNull (c_parentId inp) of
        Some p \<Rightarrow>
          (case getGoal goals p of
             Inl e \<Rightarrow> Some e
           | Inr parent \<Rightarrow>
               if level parent \<ge> 4 then Some (ClientError ''Cannot add children to level 4 goals'')
               else if c_level inp \<noteq> level parent + 1
                 then Some (ClientError ''Child level must be exactly one greater than parent level'')
               else None)
      | None \<Rightarrow>
          if c_level inp \<noteq> 1 then Some (ClientError ''Root goals must be level 1'') else None)"

text \<open>
  The row that \<open>createGoal\<close> inserts: the columns of its \<open>goalData\<close>, the column defaults of
  the table for the others; \<open>newId\<close> is the id the storage generates.
\<close>

definition newGoalRow :: "string \<Rightarrow> int \<Rightarrow> string \<Rightarrow> CreateGoalInput \<Rightarrow> Goal" where
  "newGoalRow uid now newId inp =
     \<lparr>gid = newId, title = c_title inp, description = c_description inp,
      parentId = c_parentId inp, level = c_level inp, progress = 0, status = Active,
      startDate = c_startDate inp, dueDate = c_dueDate inp, completedAt = None,
      categoryId = c_categoryId inp, userId = uid, createdAt = now, updatedAt = now\<rparr>"

text \<open>\<open>createGoal\<close>; the first argument is the user of the session, if any.\<close>

definition createGoal ::
  "string option \<Rightarrow> int \<Rightarrow> string \<Rightarrow> Goal list \<Rightarrow> CreateGoalInput \<Rightarrow> error + (Goal list \<times> Goal)" where
  "createGoal user now newId goals inp =
     (case user of
        None \<Rightarrow> Inl (ClientError ''User not authenticated'')
      | Some uid \<Rightarrow>
          (case validateLevel goals inp of
             Some e \<Rightarrow> Inl e
           | None \<Rightarrow> insertGoal goals (newGoalRow uid now newId inp)))"

text \<open>
  The update of one level in \<open>updateDescendantLevels\<close>: its result is not looked at, so
  a rejected statement leaves the table as it was.
\<close>

definition setLevel :: "int \<Rightarrow> Goal list \<Rightarrow> string \<Rightarrow> int \<Rightarrow> Goal list" where
  "setLevel now goals i l =
     (case updateRows goals i (\<lambda>row. row\<lparr>level := l, updatedAt := now\<rparr>) of
        Inl e \<Rightarrow> goals
      | Inr (goals', _) \<Rightarrow> goals')"

function updateDescendantLevels :: "int \<Rightarrow> Goal list \<Rightarrow> string \<Rightarrow> int \<Rightarrow> Goal list" where
  "updateDescendantLevels now goals goalId parentLevel =
     foldl (\<lambda>gs child.
              if parentLevel + 1 \<le> 4
              then updateDescendantLevels now (setLevel now gs (gid child) (parentLevel + 1))
                     (gid child) (parentLevel + 1)
              else gs)
       goals (getGoalChildren goals goalId)"
  by pat_completeness auto
termination
  by (relation "measure (\<lambda>(now, goals, goalId, parentLevel). nat (4 - parentLevel))") auto

definition moveGoal ::
  "int \<Rightarrow> Goal list \<Rightarrow> string \<Rightarrow> string option \<Rightarrow> error + (Goal list \<times> Goal)" where
  "moveGoal now goals goalId newParentId =
     (case getGoal goals goalId of
        Inl e \<Rightarrow> Inl e
      | Inr goal \<Rightarrow>
          (case (case orNull newParentId of
                   None \<Rightarrow> Inr 1
                 | Some p \<Rightarrow>
                     (case getGoal goals p of
                        Inl e \<Rightarrow> Inl e
                      | Inr newParent \<Rightarrow>
                          if level newParent \<ge> 4
                          then Inl (ClientError ''Cannot move goal to level 4 parent'')
                          else Inr (level newParent + 1))) of
             Inl e \<Rightarrow> Inl e
           | Inr newLevel \<Rightarrow>
               if newLevel > 4 then Inl (ClientError ''Cannot create goals deeper than level 4'')
               else
                 (case updateRows goals goalId
                         (\<lambda>row. row\<lparr>parentId := orNull newParentId, level := newLevel,
                                    updatedAt := now\<rparr>) of
                    Inl e \<Rightarrow> Inl e
                  | Inr (goals', rows) \<Rightarrow>
                      (case single rows of
                         Inl e \<Rightarrow> Inl e
                       | Inr data \<Rightarrow>
                           Inr (updateDescendantLevels now goals' goalId newLevel, data)))))"

section \<open>Events (src/supabase/migrations/001_create_events_tables.sql, src/unnamed/part_008)\<close>

record Event =
  eid :: string
  e_title :: string
  e_description :: "string option"
  e_startDate :: int
  e_endDate :: int
  allDay :: bool
  e_categoryId :: "string option"
  tags :: "string list"
  color :: "string option"
  e_userId :: string
  e_createdAt :: int
  e_updatedAt :: int

text \<open>The regular expression \<open>^#[0-9A-Fa-f]{6}$\<close> of the colour column.\<close>

definition isHexColor :: "string \<Rightarrow> bool" where
  "isHexColor c =
     (case c of
        [] \<Rightarrow> False
      | h # rest \<Rightarrow> h = CHR ''#'' \<and> length rest = 6 \<and>
                    list_all (\<lambda>ch. ch \<in> set ''0123456789ABCDEFabcdef'') rest)"

definition events_check :: "Event \<Rightarrow> error option" where
  "events_check r =
     (if length (e_title r) > 500 then Some (StorageError ''value too long'')
      else if (case color r of None \<Rightarrow> False | Some c \<Rightarrow> \<not> isHexColor c)
        then Some (StorageError ''events_color_check'')
      else if \<not> e_endDate r \<ge> e_startDate r then Some (StorageError ''valid_date_range'')
      else None)"

definition insertEvent :: "Event list \<Rightarrow> Event \<Rightarrow> error + (Event list \<times> Event)" where
  "insertEvent events NEW =
     (case events_check NEW of
        Some e \<Rightarrow> Inl e
      | None \<Rightarrow>
          if list_ex (\<lambda>r. eid r = eid NEW) events then Inl (StorageError ''events_pkey'')
          else Inr (events @ [NEW], NEW))"

definition updateEventRows ::
  "Event list \<Rightarrow> string \<Rightarrow> (Event \<Rightarrow> Event) \<Rightarrow> error + (Event list \<times> Event list)" where
  "updateEventRows events i patch =
     (let new = map patch (filter (\<lambda>r. eid r = i) events) in
      case List.map_filter events_check new of
        e # _ \<Rightarrow> Inl e
      | [] \<Rightarrow> Inr (map (\<lambda>r. if eid r = i then patch r else r) events, new))"

definition getEvent :: "Event list \<Rightarrow> string \<Rightarrow> error + Event" where
  "getEvent events i = single (filter (\<lambda>r. eid r = i) events)"

record CreateEventInput =
  ce_title :: string
  ce_description :: "string option"
  ce_startDate :: int
  ce_endDate :: int
  ce_allDay :: "bool option"
  ce_categoryId :: "string option"
  ce_tags :: "string list option"
  ce_color :: "string option"

text \<open>
  \<open>createEvent\<close>: \<open>input.allDay || false\<close> and \<open>input.tags || []\<close> supply the defaults; the id
  is generated by the storage.
\<close>

definition createEvent ::
  "string option \<Rightarrow> int \<Rightarrow> string \<Rightarrow> Event list \<Rightarrow> CreateEventInput \<Rightarrow> error + (Event list \<times> Event)" where
  "createEvent user now newId events inp =
     (case user of
        None \<Rightarrow> Inl (ClientError ''User not authenticated'')
      | Some uid \<Rightarrow>
          insertEvent events
            \<lparr>eid = newId, e_title = ce_title inp, e_description = ce_description inp,
             e_startDate = ce_startDate inp, e_endDate = ce_endDate inp,
             allDay = (case ce_allDay inp of None \<Rightarrow> False | Some b \<Rightarrow> b),
             e_categoryId = ce_categoryId inp,
             tags = (case ce_tags inp of None \<Rightarrow> [] | Some ts \<Rightarrow> ts),
             color = ce_color inp, e_userId = uid, e_createdAt = now, e_updatedAt = now\<rparr>)"

record UpdateEventInput =
  ue_id :: string
  ue_title :: "string option"
  ue_description :: "string option"
  ue_startDate :: "int option"
  ue_endDate :: "int option"
  ue_allDay :: "bool option"
  ue_categoryId :: "string option"
  ue_tags :: "string list option"
  ue_color :: "string option"

text \<open>The column patch \<open>eventData\<close> of \<open>updateEvent\<close>.\<close>

definition eventData :: "UpdateEventInput \<Rightarrow> Event \<Rightarrow> Event" where
  "eventData inp row =
     (let r1 = (case ue_title inp of None \<Rightarrow> row | Some t \<Rightarrow> row\<lparr>e_title := t\<rparr>);
          r2 = (case ue_description inp of None \<Rightarrow> r1 | Some d \<Rightarrow> r1\<lparr>e_description := Some d\<rparr>);
          r3 = (case ue_startDate inp of None \<Rightarrow> r2 | Some d \<Rightarrow> r2\<lparr>e_startDate := d\<rparr>);
          r4 = (case ue_endDate inp of None \<Rightarrow> r3 | Some d \<Rightarrow> r3\<lparr>e_endDate := d\<rparr>);
          r5 = (case ue_allDay inp of None \<Rightarrow> r4 | Some b \<Rightarrow> r4\<lparr>allDay := b\<rparr>);
          r6 = (case ue_categoryId inp of None \<Rightarrow> r5 | Some c \<Rightarrow> r5\<lparr>e_categoryId := Some c\<rparr>);
          r7 = (case ue_tags inp of None \<Rightarrow> r6 | Some ts \<Rightarrow> r6\<lparr>tags := ts\<rparr>)
      in (case ue_color inp of None \<Rightarrow> r7 | Some c \<Rightarrow> r7\<lparr>color := Some c\<rparr>))"

text \<open>\<open>eventData\<close> is still the empty object \<open>{}\<close>: no field of the input is defined.\<close>

definition eventDataEmpty :: "UpdateEventInput \<Rightarrow> bool" where
  "eventDataEmpty inp =
     (ue_title inp = None \<and> ue_description inp = None \<and> ue_startDate inp = None \<and>
      ue_endDate inp = None \<and> ue_allDay inp = None \<and> ue_categoryId inp = None \<and>
      ue_tags inp = None \<and> ue_color inp = None)"

text \<open>
  \<open>updateEvent\<close>: \<open>.update(eventData).eq('id', id).select().single()\<close>. For an empty patch
  the storage interface runs no statement and returns no row, which \<open>.single()\<close> reports
  as an error; otherwise the row is updated and the \<open>BEFORE UPDATE\<close> trigger stamps
  \<open>updated_at\<close>.
\<close>

definition updateEvent :: "int \<Rightarrow> Event list \<Rightarrow> UpdateEventInput \<Rightarrow> error + (Event list \<times> Event)" where
  "updateEvent now events inp =
     (if eventDataEmpty inp then Inl (StorageError ''PGRST116'')
      else
        case updateEventRows events (ue_id inp) (\<lambda>row. (eventData inp row)\<lparr>e_updatedAt := now\<rparr>) of
          Inl e \<Rightarrow> Inl e
        | Inr (events', rows) \<Rightarrow>
            (case single rows of Inl e \<Rightarrow> Inl e | Inr row \<Rightarrow> Inr (events', row)))"

text \<open>The input object \<open>{ id }\<close> of an update that changes nothing.\<close>

definition noEventChange :: "string \<Rightarrow> UpdateEventInput" where
  "noEventChange i = \<lparr>ue_id = i, ue_title = None, ue_description = None, ue_startDate = None,
     ue_endDate = None, ue_allDay = None, ue_categoryId = None, ue_tags = None, ue_color = None\<rparr>"

section \<open>Profile statistics (src/supabase/migrations/003_create_profiles_table.sql)\<close>

text \<open>
  The \<open>stats\<close> document of a profile: six integer entries; \<open>None\<close> is a JSON \<open>null\<close> or a
  missing key, which \<open>stats->>'key'\<close> both read as \<open>NULL\<close>.
\<close>

record Stats =
  totalGoals :: "int option"
  completedGoals :: "int option"
  totalEvents :: "int option"
  completedEvents :: "int option"
  currentStreak :: "int option"
  longestStreak :: "int option"

record Profile =
  p_userId :: string
  p_stats :: Stats
  p_updatedAt :: int

datatype TG_OP = INSERT | UPDATE | DELETE

text \<open>
  \<open>update_user_stats\<close>, the \<open>AFTER INSERT OR UPDATE OR DELETE\<close> row trigger of the goals and
  of the events table. Of the rows \<open>OLD\<close> and \<open>NEW\<close> only \<open>user_id\<close> is read. The update of
  the profile row fires the \<open>BEFORE UPDATE\<close> trigger that stamps \<open>updated_at\<close>.
\<close>

definition update_user_stats ::
  "int \<Rightarrow> TG_OP \<Rightarrow> string \<Rightarrow> string \<Rightarrow> Goal list \<Rightarrow> Event list \<Rightarrow> Profile list \<Rightarrow> Profile list" where
  "update_user_stats now op old_user_id new_user_id goals events profiles =
     (let v_user_id = (if op = DELETE then old_user_id else new_user_id);
          v_total_goals = int (length (filter (\<lambda>g. userId g = v_user_id) goals));
          v_completed_goals =
            int (length (filter (\<lambda>g. userId g = v_user_id \<and> status g = Completed) goals));
          v_total_events = int (length (filter (\<lambda>e. e_userId e = v_user_id) events))
      in map (\<lambda>p. if p_userId p = v_user_id
                   then p\<lparr>p_stats :=
                            \<lparr>totalGoals = Some v_total_goals,
                             completedGoals = Some v_completed_goals,
                             totalEvents = Some v_total_events,
                             completedEvents = completedEvents (p_stats p),
                             currentStreak = currentStreak (p_stats p),
                             longestStreak = longestStreak (p_stats p)\<rparr>,
                          p_updatedAt := now\<rparr>
                   else p) profiles)"

section \<open>DashboardService (src/unnamed/part_007, src/src/types/dashboard.ts)\<close>

text \<open>
  The functions of the date library that the dashboard uses, for a local time zone
  without offset: two instants are on the same day when they fall into the same period of
  86400000 ms, and \<open>differenceInDays\<close> counts the full periods between its arguments.
  The first argument \<open>now\<close> of the functions below is the clock (\<open>new Date()\<close>).
\<close>

definition isPast :: "int \<Rightarrow> int \<Rightarrow> bool" where
  "isPast now d = (d < now)"

definition isToday :: "int \<Rightarrow> int \<Rightarrow> bool" where
  "isToday now d = (d div 86400000 = now div 86400000)"

definition differenceInDays :: "int \<Rightarrow> int \<Rightarrow> int" where
  "differenceInDays later earlier =
     (if later \<ge> earlier then (later - earlier) div 86400000
      else - ((earlier - later) div 86400000))"

definition twoDigits :: "int \<Rightarrow> string" where
  "twoDigits n = [''0123456789'' ! nat ((n div 10) mod 10), ''0123456789'' ! nat (n mod 10)]"

text \<open>\<open>format(date, 'HH:mm')\<close>.\<close>

definition formatHHmm :: "int \<Rightarrow> string" where
  "formatHHmm d = twoDigits ((d mod 86400000) div 3600000) @ '':'' @ twoDigits ((d mod 3600000) div 60000)"

text \<open>\<open>localeCompare\<close> on such strings: the order of the character codes.\<close>

fun localeCompare :: "string \<Rightarrow> string \<Rightarrow> int" where
  "localeCompare [] [] = 0"
| "localeCompare [] (y # ys) = - 1"
| "localeCompare (x # xs) [] = 1"
| "localeCompare (x # xs) (y # ys) =
     (if (of_char x :: nat) < of_char y then - 1
      else if (of_char y :: nat) < of_char x then 1
      else localeCompare xs ys)"

text \<open>
  \<open>Array.prototype.sort\<close> with a comparator is a stable sort; for a comparator that is a
  total preorder every stable sort returns the same list, here by insertion.
\<close>

fun insertSorted :: "('a \<Rightarrow> 'a \<Rightarrow> int) \<Rightarrow> 'a \<Rightarrow> 'a list \<Rightarrow> 'a list" where
  "insertSorted cmp x [] = [x]"
| "insertSorted cmp x (y # ys) =
     (if cmp x y \<le> 0 then x # y # ys else y # insertSorted cmp x ys)"

definition sortWith :: "('a \<Rightarrow> 'a \<Rightarrow> int) \<Rightarrow> 'a list \<Rightarrow> 'a list" where
  "sortWith cmp xs = foldr (insertSorted cmp) xs []"

datatype Urgency = Low | Medium | High | Critical

definition calculateUrgency :: "int \<Rightarrow> Urgency" where
  "calculateUrgency days =
     (if days \<ge> 7 then Critical
      else if days \<ge> 3 then High
      else if days \<ge> 1 then Medium
      else Low)"

datatype ItemType = GoalItem | EventItem

text \<open>
  The items of the two lists. The joined category of a goal or an event, which the lists
  copy for display, is not part of the model.
\<close>

record TodayTask =
  t_id :: string
  t_title :: string
  t_type :: ItemType
  priority :: int
  completed :: bool
  t_progress :: "real option"
  dueTime :: "string option"
  t_description :: "string option"
  t_originalItem :: "Goal + Event"

record OverdueItem =
  o_id :: string
  o_title :: string
  o_type :: ItemType
  o_dueDate :: "int option"
  daysOverdue :: int
  urgency :: Urgency
  o_progress :: "real option"
  o_originalItem :: "Goal + Event"

definition isDueToday :: "int \<Rightarrow> Goal \<Rightarrow> bool" where
  "isDueToday now goal = (case dueDate goal of None \<Rightarrow> False | Some d \<Rightarrow> isToday now d)"

definition isOverdue :: "int \<Rightarrow> Goal + Event \<Rightarrow> bool" where
  "isOverdue now item =
     (case item of
        Inl goal \<Rightarrow>
          (case dueDate goal of
             None \<Rightarrow> False
           | Some due \<Rightarrow> isPast now due \<and> status goal \<noteq> Completed)
      | Inr event \<Rightarrow> isPast now (e_endDate event))"

definition calculateGoalPriority :: "int \<Rightarrow> Goal \<Rightarrow> int" where
  "calculateGoalPriority now goal =
     (let p0 = 5;
          p1 = p0 + level goal;
          p2 = (if (case dueDate goal of None \<Rightarrow> False | Some d \<Rightarrow> isToday now d) then p1 + 2 else p1);
          p3 = (if progress goal > 80 then p2 + 2 else if progress goal > 60 then p2 + 1 else p2)
      in min 10 (max 1 p3))"

definition calculateEventPriority :: "int \<Rightarrow> Event \<Rightarrow> int" where
  "calculateEventPriority now event =
     (let p0 = 5;
          hoursUntilStart = real_of_int (e_startDate event - now) / (1000 * 60 * 60);
          p1 = (if hoursUntilStart \<le> 1 then p0 + 3
                else if hoursUntilStart \<le> 3 then p0 + 2
                else if hoursUntilStart \<le> 6 then p0 + 1
                else p0);
          p2 = (if allDay event then p1 - 1 else p1)
      in min 10 (max 1 p2))"

definition goalTask :: "int \<Rightarrow> Goal \<Rightarrow> TodayTask" where
  "goalTask now goal =
     \<lparr>t_id = gid goal, t_title = title goal, t_type = GoalItem,
      priority = calculateGoalPriority now goal, completed = (status goal = Completed),
      t_progress = Some (progress goal), dueTime = None, t_description = description goal,
      t_originalItem = Inl goal\<rparr>"

definition eventTask :: "int \<Rightarrow> Event \<Rightarrow> TodayTask" where
  "eventTask now event =
     \<lparr>t_id = eid event, t_title = e_title event, t_type = EventItem,
      priority = calculateEventPriority now event, completed = isPast now (e_endDate event),
      t_progress = None,
      dueTime = (if allDay event then None else Some (formatHHmm (e_startDate event))),
      t_description = e_description event, t_originalItem = Inr event\<rparr>"

definition compareTasks :: "TodayTask \<Rightarrow> TodayTask \<Rightarrow> int" where
  "compareTasks a b =
     (if priority a \<noteq> priority b then priority b - priority a
      else (case (orNull (dueTime a), orNull (dueTime b)) of
              (Some x, Some y) \<Rightarrow> localeCompare x y
            | (Some x, None) \<Rightarrow> - 1
            | (None, Some y) \<Rightarrow> 1
            | (None, None) \<Rightarrow> 0))"

definition getTodayTasks :: "int \<Rightarrow> Goal list \<Rightarrow> Event list \<Rightarrow> TodayTask list" where
  "getTodayTasks now goals events =
     (let todayGoals = filter (\<lambda>g. level g = 4 \<and> status g = Active \<and>
                                   (isDueToday now g \<or> dueDate g = None)) goals;
          todayEvents = filter (\<lambda>e. isToday now (e_startDate e)) events;
          tasks = map (goalTask now) todayGoals @ map (eventTask now) todayEvents
      in sortWith compareTasks tasks)"

definition overdueGoalItem :: "int \<Rightarrow> Goal \<Rightarrow> OverdueItem" where
  "overdueGoalItem now goal =
     (let days = (case dueDate goal of None \<Rightarrow> 0 | Some d \<Rightarrow> differenceInDays now d) in
      \<lparr>o_id = gid goal, o_title = title goal, o_type = GoalItem, o_dueDate = dueDate goal,
       daysOverdue = days, urgency = calculateUrgency days, o_progress = Some (progress goal),
       o_originalItem = Inl goal\<rparr>)"

definition overdueEventItem :: "int \<Rightarrow> Event \<Rightarrow> OverdueItem" where
  "overdueEventItem now event =
     (let days = differenceInDays now (e_endDate event) in
      \<lparr>o_id = eid event, o_title = e_title event, o_type = EventItem,
       o_dueDate = Some (e_endDate event), daysOverdue = days, urgency = calculateUrgency days,
       o_progress = None, o_originalItem = Inr event\<rparr>)"

definition urgencyOrder :: "Urgency \<Rightarrow> int" where
  "urgencyOrder u = (case u of Critical \<Rightarrow> 4 | High \<Rightarrow> 3 | Medium \<Rightarrow> 2 | Low \<Rightarrow> 1)"

definition compareOverdue :: "OverdueItem \<Rightarrow> OverdueItem \<Rightarrow> int" where
  "compareOverdue a b =
     (let urgencyDiff = urgencyOrder (urgency b) - urgencyOrder (urgency a) in
      if urgencyDiff \<noteq> 0 then urgencyDiff else daysOverdue b - daysOverdue a)"

definition getOverdueItems :: "int \<Rightarrow> Goal list \<Rightarrow> Event list \<Rightarrow> OverdueItem list" where
  "getOverdueItems now goals events =
     (let overdueGoals = filter (\<lambda>g. isOverdue now (Inl g)) goals;
          overdueEvents = filter (\<lambda>e. isOverdue now (Inr e)) events;
          items = map (overdueGoalItem now) overdueGoals @ map (overdueEventItem now) overdueEvents
      in sortWith compareOverdue items)"

section \<open>The specification's vocabulary\<close>

text \<open>
  The children of a goal that count for its progress, and the arithmetic mean, as the
  specification words them.
\<close>

definition eligibleChildren :: "Goal list \<Rightarrow> string \<Rightarrow> Goal list" where
  "eligibleChildren goals p =
     filter (\<lambda>g. parentId g = Some p \<and> (status g = Active \<or> status g = Completed)) goals"

definition arithmeticMean :: "real list \<Rightarrow> real" where
  "arithmeticMean xs = sum_list xs / of_nat (length xs)"

text \<open>
  The level rule of the hierarchy over a whole table: no level above 4, a goal without a
  parent on level 1, a goal with a parent one level below it.
\<close>

definition levelInvariant :: "Goal list \<Rightarrow> bool" where
  "levelInvariant goals =
     list_all (\<lambda>g. level g \<le> 4 \<and>
                    (case parentId g of
                       None \<Rightarrow> level g = 1
                     | Some p \<Rightarrow>
                         (case getGoal goals p of
                            Inl e \<Rightarrow> False
                          | Inr parent \<Rightarrow> level g = level parent + 1))) goals"

text \<open>\<open>isAncestor goals a c\<close>: the goal \<open>a\<close> is above the goal \<open>c\<close> in the hierarchy.\<close>

inductive isAncestor :: "Goal list \<Rightarrow> string \<Rightarrow> string \<Rightarrow> bool" for goals :: "Goal list" where
  parent: "g \<in> set goals \<Longrightarrow> parentId g = Some a \<Longrightarrow> isAncestor goals a (gid g)"
| above: "isAncestor goals a b \<Longrightarrow> g \<in> set goals \<Longrightarrow> parentId g = Some b \<Longrightarrow>
          isAncestor goals a (gid g)"

text \<open>
  Upward propagation as the specification describes it. \<open>propagation depth now goals g goals' ups stop\<close>:
  starting at the goal \<open>g\<close> in the table \<open>goals\<close>, the ancestors \<open>ups\<close> are visited in order,
  nearest first, and each of them is updated because its stored progress differs from the
  recomputed one by more than 0.01; the walk ends in the table \<open>goals'\<close>, either at a root
  (\<open>stop = None\<close>) or at the first ancestor \<open>a\<close> within the epsilon (\<open>stop = Some a\<close>). The
  difference and the epsilon are those of the client, in doubles.
\<close>

inductive propagation ::
  "nat \<Rightarrow> int \<Rightarrow> Goal list \<Rightarrow> string \<Rightarrow> Goal list \<Rightarrow> string list \<Rightarrow> string option \<Rightarrow> bool"
  for depth :: nat and now :: int where
  at_root:
    "getGoal goals g = Inr goal \<Longrightarrow> orNull (parentId goal) = None \<Longrightarrow>
     propagation depth now goals g goals [] None"
| within_epsilon:
    "getGoal goals g = Inr goal \<Longrightarrow> orNull (parentId goal) = Some p \<Longrightarrow>
     getGoal goals p = Inr parent \<Longrightarrow>
     \<bar>toDouble (toDouble (progress parent) - calculateParentProgress goals p)\<bar>
       \<le> toDouble (1 / 100) \<Longrightarrow>
     propagation depth now goals g goals [] (Some p)"
| climb:
    "getGoal goals g = Inr goal \<Longrightarrow> orNull (parentId goal) = Some p \<Longrightarrow>
     getGoal goals p = Inr parent \<Longrightarrow>
     \<bar>toDouble (toDouble (progress parent) - calculateParentProgress goals p)\<bar>
       > toDouble (1 / 100) \<Longrightarrow>
     u_id inp = p \<Longrightarrow> u_progress inp = Some (calculateParentProgress goals p) \<Longrightarrow>
     updateGoal depth now goals inp = Inr (goals1, row) \<Longrightarrow>
     propagation depth now goals1 p goals' ups stop \<Longrightarrow>
     propagation depth now goals g goals' (p # ups) stop"

text \<open>
  \<open>restates inp e\<close>: the update input \<open>inp\<close> changes no field of the event \<open>e\<close>; every
  field is either left out or given with the value the event already has.
\<close>

definition restates :: "UpdateEventInput \<Rightarrow> Event \<Rightarrow> bool" where
  "restates inp e =
     ((case ue_title inp of None \<Rightarrow> True | Some t \<Rightarrow> t = e_title e) \<and>
      (case ue_description inp of None \<Rightarrow> True | Some d \<Rightarrow> Some d = e_description e) \<and>
      (case ue_startDate inp of None \<Rightarrow> True | Some d \<Rightarrow> d = e_startDate e) \<and>
      (case ue_endDate inp of None \<Rightarrow> True | Some d \<Rightarrow> d = e_endDate e) \<and>
      (case ue_allDay inp of None \<Rightarrow> True | Some b \<Rightarrow> b = allDay e) \<and>
      (case ue_categoryId inp of None \<Rightarrow> True | Some c \<Rightarrow> Some c = e_categoryId e) \<and>
      (case ue_tags inp of None \<Rightarrow> True | Some ts \<Rightarrow> ts = tags e) \<and>
      (case ue_color inp of None \<Rightarrow> True | Some c \<Rightarrow> Some c = color e))"

text \<open>
  A finite table is acyclic when some rank on the ids decreases along every parent
  reference: \<open>acyclicBy rank goals\<close>.
\<close>

definition acyclicBy :: "(string \<Rightarrow> nat) \<Rightarrow> Goal list \<Rightarrow> bool" where
  "acyclicBy rank goals =
     list_all (\<lambda>r. case parentId r of None \<Rightarrow> True | Some p \<Rightarrow> rank p < rank (gid r)) goals"

text \<open>
  A goal hierarchy as the storage keeps it: no id occurs twice, and every row passes the
  constraints and the \<open>BEFORE\<close> triggers of the table. Such a table is acyclic, since the
  level decreases along every parent reference.
\<close>

definition wellFormed :: "Goal list \<Rightarrow> bool" where
  "wellFormed goals =
     (distinct (map gid goals) \<and> list_all (\<lambda>r. acceptRow goals r = None) goals)"

text \<open>
  \<open>rewritten r r'\<close>: the row \<open>r'\<close> is the row \<open>r\<close> with other progress columns (progress,
  status, completion time, time of the update) and a progress between 0 and 100; its place
  in the hierarchy, its title and its dates are those of \<open>r\<close>.
\<close>

definition rewritten :: "Goal \<Rightarrow> Goal \<Rightarrow> bool" where
  "rewritten r r' =
     (gid r' = gid r \<and> parentId r' = parentId r \<and> level r' = level r \<and> title r' = title r \<and>
      startDate r' = startDate r \<and> dueDate r' = dueDate r \<and>
      0 \<le> progress r' \<and> progress r' \<le> 100)"

section \<open>Example tables\<close>

definition sampleGoal :: "string \<Rightarrow> string option \<Rightarrow> int \<Rightarrow> real \<Rightarrow> GoalStatus \<Rightarrow> Goal" where
  "sampleGoal i p l pr st =
     \<lparr>gid = i, title = i, description = None, parentId = p, level = l, progress = pr,
      status = st, startDate = None, dueDate = None, completedAt = None, categoryId = None,
      userId = ''u1'', createdAt = 0, updatedAt = 0\<rparr>"

text \<open>A goal with three counted children at 0, 0 and 100, and a paused one.\<close>

definition thirds :: "Goal list" where
  "thirds = [sampleGoal ''A'' None 1 0 Active,
             sampleGoal ''B1'' (Some ''A'') 2 0 Active,
             sampleGoal ''B2'' (Some ''A'') 2 0 Active,
             sampleGoal ''B3'' (Some ''A'') 2 100 Completed,
             sampleGoal ''B4'' (Some ''A'') 2 70 Paused]"

text \<open>The example of the specification: A with the children B at 100 and C at 50.\<close>

definition familyABC :: "Goal list" where
  "familyABC = [sampleGoal ''A'' None 1 0 Active,
                sampleGoal ''B'' (Some ''A'') 2 100 Completed,
                sampleGoal ''C'' (Some ''A'') 2 50 Active]"

text \<open>Two root goals that are not active.\<close>

definition pausedPair :: "Goal list" where
  "pausedPair = [sampleGoal ''A'' None 1 30 Paused, sampleGoal ''B'' None 1 80 Cancelled]"

text \<open>Two inputs of \<open>createGoal\<close>: a root goal whose due date precedes its start date, and a child of A.\<close>

definition datesReversed :: CreateGoalInput where
  "datesReversed = \<lparr>c_title = ''Read'', c_description = None, c_parentId = None, c_level = 1,
     c_startDate = Some 2000, c_dueDate = Some 1000, c_categoryId = None\<rparr>"

definition childOfA :: CreateGoalInput where
  "childOfA = \<lparr>c_title = ''Read'', c_description = None, c_parentId = Some ''A'', c_level = 2,
     c_startDate = Some 1000, c_dueDate = Some 2000, c_categoryId = None\<rparr>"

text \<open>Two profiles of the same user that differ in the stored snapshot only.\<close>

definition emptyStats :: Stats where
  "emptyStats = \<lparr>totalGoals = Some 0, completedGoals = Some 0, totalEvents = Some 0,
     completedEvents = Some 0, currentStreak = Some 0, longestStreak = Some 0\<rparr>"

definition profileA :: Profile where
  "profileA = \<lparr>p_userId = ''u1'', p_stats = emptyStats, p_updatedAt = 0\<rparr>"

definition profileB :: Profile where
  "profileB = \<lparr>p_userId = ''u1'',
     p_stats = emptyStats\<lparr>completedEvents := Some 7, currentStreak := Some 3, longestStreak := Some 9\<rparr>,
     p_updatedAt = 0\<rparr>"

text \<open>
  The event of the specification's example, 2024-01-01 from 09:00 to 10:00 UTC, and the
  row that \<open>createEvent\<close> stores for it.
\<close>

definition newYearMeeting :: CreateEventInput where
  "newYearMeeting = \<lparr>ce_title = ''Meeting'', ce_description = None,
     ce_startDate = 1704099600000, ce_endDate = 1704103200000, ce_allDay = Some False,
     ce_categoryId = None, ce_tags = None, ce_color = None\<rparr>"

definition newYearMeetingRow :: Event where
  "newYearMeetingRow = \<lparr>eid = ''E1'', e_title = ''Meeting'', e_description = None,
     e_startDate = 1704099600000, e_endDate = 1704103200000, allDay = False,
     e_categoryId = None, tags = [], color = None, e_userId = ''u1'',
     e_createdAt = 500, e_updatedAt = 500\<rparr>"

text \<open>
  The example of the specification with A at 75, and the same family with every goal
  completed and the completion time of A stamped.
\<close>

definition familyABC75 :: "Goal list" where
  "familyABC75 = [sampleGoal ''A'' None 1 75 Active,
                  sampleGoal ''B'' (Some ''A'') 2 100 Completed,
                  sampleGoal ''C'' (Some ''A'') 2 50 Active]"

definition familyDone :: "Goal list" where
  "familyDone = [(sampleGoal ''A'' None 1 100 Completed)\<lparr>completedAt := Some 700\<rparr>,
                 sampleGoal ''B'' (Some ''A'') 2 100 Completed,
                 sampleGoal ''C'' (Some ''A'') 2 100 Completed]"

text \<open>A chain of four levels below G, next to the root R.\<close>

definition deepTree :: "Goal list" where
  "deepTree = [sampleGoal ''R'' None 1 0 Active,
               sampleGoal ''G'' None 1 0 Active,
               sampleGoal ''H'' (Some ''G'') 2 0 Active,
               sampleGoal ''I'' (Some ''H'') 3 0 Active,
               sampleGoal ''J'' (Some ''I'') 4 0 Active]"

text \<open>
  Goals of level 4 for the dashboard, seen on 2024-01-01 at 09:06:40 UTC (1704100000000):
  one without a due date, two due later that day (one of them completed), one three days
  late and, on level 1, one eight days late.
\<close>

definition undated :: Goal where
  "undated = sampleGoal ''U'' (Some ''Q'') 4 0 Active"

definition dueTodayDone :: Goal where
  "dueTodayDone = (sampleGoal ''F'' (Some ''Q'') 4 100 Completed)\<lparr>dueDate := Some 1704110000000\<rparr>"

definition dueToday :: Goal where
  "dueToday = (sampleGoal ''D'' (Some ''Q'') 4 90 Active)\<lparr>dueDate := Some 1704110000000\<rparr>"

definition lateGoal :: Goal where
  "lateGoal = (sampleGoal ''L'' (Some ''Q'') 4 10 Active)\<lparr>dueDate := Some 1703840000000\<rparr>"

definition veryLateGoal :: Goal where
  "veryLateGoal = (sampleGoal ''V'' None 1 10 Paused)\<lparr>dueDate := Some 1703400000000\<rparr>"

text \<open>
  Three levels: A at 50 with the children AB and AC at 0, and ABC, the only child of AB,
  completed.
\<close>

definition chainTable :: "Goal list" where
  "chainTable = [sampleGoal ''A'' None 1 50 Active,
                 sampleGoal ''AB'' (Some ''A'') 2 0 Active,
                 sampleGoal ''AC'' (Some ''A'') 2 0 Active,
                 sampleGoal ''ABC'' (Some ''AB'') 3 100 Completed]"

text \<open>
  Three levels with stored values that are out of date: the root R at 70 with the children
  P at 10 and S at 60, and G at 40, the only child of P.
\<close>

definition staleTable :: "Goal list" where
  "staleTable = [sampleGoal ''R'' None 1 70 Active,
                 sampleGoal ''P'' (Some ''R'') 2 10 Active,
                 sampleGoal ''S'' (Some ''R'') 2 60 Active,
                 sampleGoal ''G'' (Some ''P'') 3 40 Active]"

text \<open>An update of the meeting that gives its start, its end and its all-day flag again.\<close>

definition sameMeeting :: UpdateEventInput where
  "sameMeeting = \<lparr>ue_id = ''E1'', ue_title = None, ue_description = None,
     ue_startDate = Some 1704099600000, ue_endDate = Some 1704103200000,
     ue_allDay = Some False, ue_categoryId = None, ue_tags = None, ue_color = None\<rparr>"

text \<open>A goal with two counted children at 1 and at 1.01.\<close>

definition tiePair :: "Goal list" where
  "tiePair = [sampleGoal ''A'' None 1 0 Active,
              sampleGoal ''T1'' (Some ''A'') 2 1 Active,
              sampleGoal ''T2'' (Some ''A'') 2 (101 / 100) Active]"

section \<open>Rounding to a double\<close>

lemma roundHalfEven_close: "\<bar>of_int (roundHalfEven y) - y\<bar> \<le> 1 / 2"
  unfolding roundHalfEven_def Let_def by (auto simp: abs_le_iff)

lemma roundHalfEven_of_int [simp]: "roundHalfEven (of_int n) = n"
  by (simp add: roundHalfEven_def)

lemma roundHalfEven_ge: "of_int n \<le> y \<Longrightarrow> n \<le> roundHalfEven y"
proof -
  assume "of_int n \<le> y"
  then have "n \<le> \<lfloor>y\<rfloor>" by (simp add: le_floor_iff)
  moreover have "\<lfloor>y\<rfloor> \<le> roundHalfEven y" by (simp add: roundHalfEven_def Let_def)
  ultimately show ?thesis by simp
qed

lemma binade_unique:
  assumes "2 powi e \<le> (a :: real)" "a < 2 powi (e + 1)" "2 powi e' \<le> a" "a < 2 powi (e' + 1)"
  shows "e' = (e :: int)"
proof (rule ccontr)
  assume "e' \<noteq> e"
  then consider "e' + 1 \<le> e" | "e + 1 \<le> e'" by linarith
  then show False
  proof cases
    case 1
    then have "(2::real) powi (e' + 1) \<le> 2 powi e" by (intro power_int_increasing) auto
    with assms show False by linarith
  next
    case 2
    then have "(2::real) powi (e + 1) \<le> 2 powi e'" by (intro power_int_increasing) auto
    with assms show False by linarith
  qed
qed

lemma binade_eq:
  assumes "- 1022 \<le> e" "e \<le> 1023" "2 powi e \<le> \<bar>x\<bar>" "\<bar>x\<bar> < 2 powi (e + 1)"
  shows "binade x = Some e"
proof -
  let ?P = "\<lambda>e. 2 powi e \<le> \<bar>x\<bar> \<and> \<bar>x\<bar> < 2 powi (e + 1)"
  let ?i = "nat (e - minExponent)"
  have lo: "minExponent \<le> e" and hi: "e \<le> maxExponent"
    using assms(1,2) by (simp_all add: minExponent_def maxExponent_def)
  have len: "?i < length [minExponent..maxExponent]" using lo hi by simp
  have nth: "[minExponent..maxExponent] ! ?i = e" using lo hi by (subst nth_upto) auto
  have before: "\<not> ?P ([minExponent..maxExponent] ! j)" if "j < ?i" for j
  proof
    assume P: "?P ([minExponent..maxExponent] ! j)"
    have "[minExponent..maxExponent] ! j = minExponent + int j"
      using that lo hi by (subst nth_upto) auto
    with P have "?P (minExponent + int j)" by simp
    then have "minExponent + int j = e" using assms(3,4) binade_unique by blast
    with that show False by simp
  qed
  show ?thesis
    unfolding binade_def find_Some_iff
    using len nth before assms(3,4) by (intro exI[of _ ?i]) auto
qed

lemma binade_Some:
  assumes "binade x = Some e"
  shows "- 1022 \<le> e" "e \<le> 1023" "2 powi e \<le> \<bar>x\<bar>" "\<bar>x\<bar> < 2 powi (e + 1)"
proof -
  from assms obtain i where i: "i < length [minExponent..maxExponent]"
    and P: "2 powi ([minExponent..maxExponent] ! i) \<le> \<bar>x\<bar> \<and>
            \<bar>x\<bar> < 2 powi ([minExponent..maxExponent] ! i + 1)"
    and e: "e = [minExponent..maxExponent] ! i"
    unfolding binade_def find_Some_iff by blast
  have "e \<in> set [minExponent..maxExponent]" using i e by (metis nth_mem)
  then have "minExponent \<le> e \<and> e \<le> maxExponent" by simp
  then show "- 1022 \<le> e" "e \<le> 1023" by (simp_all add: minExponent_def maxExponent_def)
  from P e show "2 powi e \<le> \<bar>x\<bar>" "\<bar>x\<bar> < 2 powi (e + 1)" by simp_all
qed

lemma binade_exists:
  assumes "2 powi (- 1022) \<le> \<bar>x\<bar>" "\<bar>x\<bar> < 2 powi 1024"
  shows "\<exists>e. binade x = Some e"
proof -
  have "(0::real) < 2 powi (- 1022)" by (rule zero_less_power_int) simp
  then have pos: "0 < \<bar>x\<bar>" using assms(1) by linarith
  define e where "e = \<lfloor>log 2 \<bar>x\<bar>\<rfloor>"
  have "2 powr real_of_int e \<le> \<bar>x\<bar> \<and> \<bar>x\<bar> < 2 powr real_of_int (e + 1)"
    using floor_log_eq_powr_iff[of "\<bar>x\<bar>" 2 e] pos e_def by (simp del: of_int_add)
  then have b: "2 powi e \<le> \<bar>x\<bar>" "\<bar>x\<bar> < 2 powi (e + 1)"
    by (simp_all add: powr_real_of_int' del: of_int_add)
  have "(2::real) powi (- 1022) < 2 powi (e + 1)" using assms(1) b(2) by linarith
  then have lo: "- 1022 \<le> e"
    using power_int_increasing[of "e + 1" "- 1022" "2::real"] by (cases "- 1022 \<le> e") auto
  have "(2::real) powi e < 2 powi 1024" using assms(2) b(1) by linarith
  then have hi: "e \<le> 1023"
    using power_int_increasing[of 1024 e "2::real"] by (cases "e \<le> 1023") auto
  from binade_eq[OF lo hi b] show ?thesis by blast
qed

lemma toDouble_binade:
  "binade x = Some e \<Longrightarrow> toDouble x = of_int (roundHalfEven (x / 2 powi (e - 52))) * 2 powi (e - 52)"
  by (simp add: toDouble_def Let_def)

lemma toDouble_eval:
  assumes "- 1022 \<le> e" "e \<le> 1023" "2 powi e \<le> \<bar>x\<bar>" "\<bar>x\<bar> < 2 powi (e + 1)"
  shows "toDouble x = of_int (roundHalfEven (x / 2 powi (e - 52))) * 2 powi (e - 52)"
  using binade_eq[OF assms] by (rule toDouble_binade)

lemma binade_0: "binade 0 = None"
proof (cases "binade 0")
  case (Some e)
  have "(0::real) < 2 powi e" by (rule zero_less_power_int) simp
  with binade_Some(3)[OF Some] show ?thesis by simp
qed simp

lemma toDouble_0 [simp]: "toDouble 0 = 0"
  by (simp add: toDouble_def binade_0 roundHalfEven_def)

lemma toDouble_error:
  assumes "binade x = Some e"
  shows "\<bar>toDouble x - x\<bar> \<le> 2 powi (e - 53)" and "\<bar>toDouble x - x\<bar> \<le> \<bar>x\<bar> / 2 ^ 53"
proof -
  define q :: real where "q = 2 powi (e - 52)"
  have q: "0 < q" by (simp add: q_def)
  have "toDouble x - x = (of_int (roundHalfEven (x / q)) - x / q) * q"
    using q by (simp add: toDouble_binade[OF assms] q_def[symmetric] field_simps)
  then have "\<bar>toDouble x - x\<bar> = \<bar>of_int (roundHalfEven (x / q)) - x / q\<bar> * q"
    using q by (simp add: abs_mult)
  also have "\<dots> \<le> 1 / 2 * q"
    using roundHalfEven_close[of "x / q"] q by (intro mult_right_mono) auto
  also have "1 / 2 * q = 2 powi (e - 53)"
    unfolding q_def by (simp add: power_int_diff)
  finally show 1: "\<bar>toDouble x - x\<bar> \<le> 2 powi (e - 53)" .
  have "(2::real) powi (e - 53) = 2 powi e / 2 ^ 53"
    by (simp add: power_int_diff)
  also have "\<dots> \<le> \<bar>x\<bar> / 2 ^ 53"
    using binade_Some(3)[OF assms] by (intro divide_right_mono) auto
  finally show "\<bar>toDouble x - x\<bar> \<le> \<bar>x\<bar> / 2 ^ 53" using 1 by linarith
qed

lemma toDouble_representable:
  assumes "binade x = Some e" "x / 2 powi (e - 52) = of_int m"
  shows "toDouble x = x"
proof -
  have "toDouble x = of_int m * 2 powi (e - 52)"
    by (simp add: toDouble_binade[OF assms(1)] assms(2))
  also have "\<dots> = x" using assms(2) by (simp add: field_simps)
  finally show ?thesis .
qed

lemma toDouble_of_int:
  assumes "\<bar>n\<bar> \<le> 2 ^ 53"
  shows "toDouble (of_int n) = of_int n"
proof (cases "n = 0")
  case True
  then show ?thesis by simp
next
  case False
  then have "1 \<le> \<bar>n\<bar>" by linarith
  then have "real_of_int 1 \<le> real_of_int \<bar>n\<bar>" by (simp only: of_int_le_iff)
  then have one: "1 \<le> \<bar>real_of_int n\<bar>" by simp
  have "(2::real) powi (- 1022) \<le> 2 powi 0" by (intro power_int_increasing) auto
  then have lo: "2 powi (- 1022) \<le> \<bar>real_of_int n\<bar>" using one by simp
  have "real_of_int \<bar>n\<bar> \<le> real_of_int (2 ^ 53)" using assms by (simp only: of_int_le_iff)
  then have le53: "\<bar>real_of_int n\<bar> \<le> 2 powi 53" by simp
  have "(2::real) powi 53 < 2 powi 1024" by (intro power_int_strict_increasing) auto
  then have hi: "\<bar>real_of_int n\<bar> < 2 powi 1024" using le53 by linarith
  from binade_exists[OF lo hi] obtain e where e: "binade (of_int n) = Some e" by blast
  note b = binade_Some[OF e]
  have e53: "e \<le> 53"
  proof (rule ccontr)
    assume "\<not> e \<le> 53"
    then have "(2::real) powi 54 \<le> 2 powi e" by (intro power_int_increasing) auto
    moreover have "(2::real) powi 53 < 2 powi 54" by (intro power_int_strict_increasing) auto
    ultimately show False using b(3) le53 by linarith
  qed
  show ?thesis
  proof (cases "e \<le> 52")
    case True
    define k where "k = nat (52 - e)"
    have "e - 52 = - int k" using True by (simp add: k_def)
    then have q: "(2::real) powi (e - 52) = inverse (2 ^ k)"
      by (simp add: power_int_minus)
    have "real_of_int n / 2 powi (e - 52) = of_int (n * 2 ^ k)"
      unfolding q by (simp add: field_simps)
    then show ?thesis by (rule toDouble_representable[OF e])
  next
    case False
    then have e': "e = 53" using e53 by simp
    have "\<bar>real_of_int n\<bar> = 2 ^ 53" using b(3) le53 unfolding e' by simp
    then have "real_of_int \<bar>n\<bar> = real_of_int (2 ^ 53)" by simp
    then have "\<bar>n\<bar> = 2 ^ 53" by (simp only: of_int_eq_iff)
    then have "n = 2 ^ 53 \<or> n = - (2 ^ 53)" by linarith
    then have "real_of_int n / 2 powi (e - 52) = of_int (n div 2)"
      unfolding e' by auto
    then show ?thesis by (rule toDouble_representable[OF e])
  qed
qed

lemma toDouble_int [simp]: "x \<in> \<int> \<Longrightarrow> \<bar>x\<bar> \<le> 2 ^ 53 \<Longrightarrow> toDouble x = x"
proof -
  assume "x \<in> \<int>" and le: "\<bar>x\<bar> \<le> 2 ^ 53"
  then obtain n :: int where n: "x = of_int n" by (auto elim: Ints_cases)
  have "real_of_int \<bar>n\<bar> \<le> real_of_int (2 ^ 53)" using le unfolding n by simp
  then have "\<bar>n\<bar> \<le> 2 ^ 53" by (simp only: of_int_le_iff)
  then show ?thesis unfolding n by (rule toDouble_of_int)
qed

lemma toDouble_error_le:
  assumes "\<bar>x\<bar> \<le> 2 powi m" "- 1022 \<le> m" "m \<le> 1023"
  shows "\<bar>toDouble x - x\<bar> \<le> 2 powi (m - 53)"
proof (cases "binade x")
  case (Some e)
  note b = binade_Some[OF Some]
  have "e \<le> m"
  proof (rule ccontr)
    assume "\<not> e \<le> m"
    then have "(2::real) powi (m + 1) \<le> 2 powi e" by (intro power_int_increasing) auto
    moreover have "(2::real) powi m < 2 powi (m + 1)" by (intro power_int_strict_increasing) auto
    ultimately show False using b(3) assms(1) by linarith
  qed
  then have "(2::real) powi (e - 53) \<le> 2 powi (m - 53)" by (intro power_int_increasing) auto
  with toDouble_error(1)[OF Some] show ?thesis by linarith
next
  case None
  have "(2::real) powi m < 2 powi 1024" using assms(3) by (intro power_int_strict_increasing) auto
  then have "\<bar>x\<bar> < 2 powi 1024" using assms(1) by linarith
  with binade_exists[of x] None have small: "\<bar>x\<bar> < 2 powi (- 1022)" by fastforce
  define q :: real where "q = 2 powi (- 1074)"
  have q: "0 < q" by (simp add: q_def)
  have "toDouble x = of_int (roundHalfEven (x / q)) * q"
    using None small by (simp add: toDouble_def Let_def q_def)
  then have "toDouble x - x = (of_int (roundHalfEven (x / q)) - x / q) * q"
    using q by (simp add: field_simps)
  then have "\<bar>toDouble x - x\<bar> = \<bar>of_int (roundHalfEven (x / q)) - x / q\<bar> * q"
    using q by (simp add: abs_mult)
  also have "\<dots> \<le> 1 / 2 * q"
    using roundHalfEven_close[of "x / q"] q by (intro mult_right_mono) auto
  also have "1 / 2 * q = 2 powi (- 1075)"
    unfolding q_def by (simp add: power_int_diff)
  also have "\<dots> \<le> 2 powi (m - 53)" using assms(2) by (intro power_int_increasing) auto
  finally show ?thesis .
qed

lemma numeric_5_2_range:
  assumes "0 \<le> x" "x \<le> 100"
  shows "0 \<le> numeric_5_2 x \<and> numeric_5_2 x \<le> 100"
proof -
  have "0 \<le> \<lfloor>x * 100 + 1 / 2\<rfloor>" using assms(1) by simp
  moreover have "\<lfloor>x * 100 + 1 / 2\<rfloor> \<le> 10000" using assms(2) by (simp add: floor_le_iff)
  ultimately show ?thesis unfolding numeric_5_2_def
    by (simp add: divide_le_eq)
qed

lemma numeric_5_2_of_double_near:
  assumes "0 \<le> d" "d \<le> 100" "\<bar>d * 100 - of_int k\<bar> \<le> 1 / 4"
  shows "numeric_5_2_of_double d = of_int k / 100"
proof (cases "of_int k \<le> d * 100")
  case True
  then have j: "\<lfloor>d * 100\<rfloor> = k" using assms(3) by (simp add: floor_eq_iff)
  define t :: real where "t = (2 * of_int k + 1) / 200"
  have "d * 100 \<le> of_int k + 1 / 4" using assms(3) by linarith
  then have d: "d \<le> t - 1 / 400" unfolding t_def by (simp add: field_simps)
  have "0 \<le> t" using assms(1) d by linarith
  moreover have "t \<le> 2 powi 7" using True assms(2) by (simp add: t_def)
  ultimately have "\<bar>t\<bar> \<le> 2 powi 7" by simp
  from toDouble_error_le[OF this] have "\<bar>toDouble t - t\<bar> \<le> 2 powi (- 46)" by simp
  moreover have "(2::real) powi (- 46) < 1 / 400" by (simp add: power_int_minus)
  ultimately have "toDouble t \<noteq> d \<and> \<not> t < d" using d by linarith
  then show ?thesis by (simp add: numeric_5_2_of_double_def Let_def j t_def)
next
  case False
  then have j: "\<lfloor>d * 100\<rfloor> = k - 1" using assms(3) by (simp add: floor_eq_iff abs_le_iff) 
  have "of_int k - 1 / 4 \<le> d * 100" using assms(3) by linarith
  then have "(2 * of_int (k - 1) + 1) / 200 < d" by simp
  then show ?thesis by (simp add: numeric_5_2_of_double_def Let_def j)
qed

lemma numeric_5_2_of_double_range:
  assumes "0 \<le> d" "d \<le> 100"
  shows "0 \<le> numeric_5_2_of_double d \<and> numeric_5_2_of_double d \<le> 100"
proof (cases "d = 100")
  case True
  have "numeric_5_2_of_double d = of_int 10000 / 100"
    by (rule numeric_5_2_of_double_near) (simp_all add: True)
  then show ?thesis by simp
next
  case False
  then have "d * 100 < 10000" using assms(2) by simp
  then have "\<lfloor>d * 100\<rfloor> < 10000" by (simp add: floor_less_iff)
  moreover have "0 \<le> \<lfloor>d * 100\<rfloor>" using assms(1) by simp
  ultimately show ?thesis
    by (simp add: numeric_5_2_of_double_def Let_def divide_le_eq)
qed

lemma numeric_5_2_of_double_int:
  "0 \<le> n \<Longrightarrow> n \<le> 100 \<Longrightarrow> numeric_5_2_of_double (of_int n) = of_int n"
  using numeric_5_2_of_double_near[of "of_int n" "n * 100"] by simp

lemma numeric_5_2_of_double_numeral [simp]:
  "numeral k \<le> (100::int) \<Longrightarrow> numeric_5_2_of_double (numeral k) = numeral k"
  using numeric_5_2_of_double_int[of "numeral k"] by simp

lemma numeric_5_2_of_double_0 [simp]: "numeric_5_2_of_double 0 = 0"
  using numeric_5_2_of_double_int[of 0] by simp

lemma toDouble_hundredth: "toDouble (1 / 100) = 5764607523034235 / 576460752303423488"
  by (subst toDouble_eval[of "- 7"]) (simp_all add: roundHalfEven_def)

section \<open>Updates of a goal\<close>

lemmas goal_service_defs =
  updateProgressWithParentCalculation_def updateProgress_def updateGoal_def updateRows_def
  sampleGoal_def noChange_def goalData_def goalDataEmpty_def single_def acceptRow_def
  validate_goal_hierarchy_def goals_check_def goals_parent_fkey_def List.map_filter_simps Let_def
  getGoal_def orNull_def truthy_def calculateParentProgress_def getGoalChildren_def mathRound_def

lemmas storage_defs =
  update_parent_goal_progress.simps calculate_parent_goal_progress_def setParentProgress_def
  numeric_5_2_def toDouble_hundredth eval_nat_numeral

lemma map_filter_Nil_iff: "List.map_filter f xs = [] \<longleftrightarrow> (\<forall>x\<in>set xs. f x = None)"
  by (induction xs) (auto simp: List.map_filter_simps split: option.splits)

lemma updateRows_Inr:
  assumes "updateRows goals i patch = Inr (goals', new)"
  shows "new = map patch (filter (\<lambda>g. gid g = i) goals)"
    and "goals' = map (\<lambda>g. if gid g = i then patch g else g) goals"
    and "\<forall>r\<in>set new. acceptRow goals r = None"
  using assms
  by (auto simp: updateRows_def Let_def map_filter_Nil_iff split: list.splits)

lemma single_Inr: "single rows = Inr r \<longleftrightarrow> rows = [r]"
  by (auto simp: single_def split: list.splits)

lemma goalData_gid [simp]: "gid (goalData inp now row) = gid row"
  by (simp add: goalData_def Let_def split: option.splits)

lemma goalData_parentId [simp]: "parentId (goalData inp now row) = parentId row"
  by (simp add: goalData_def Let_def split: option.splits)

lemma goalData_level [simp]: "level (goalData inp now row) = level row"
  by (simp add: goalData_def Let_def split: option.splits)

lemma updateGoal_Inr:
  assumes "updateGoal depth now goals inp = Inr (goals', row)"
  shows "\<exists>old. \<not> goalDataEmpty inp \<and>
               filter (\<lambda>g. gid g = u_id inp) goals = [old] \<and>
               row = (goalData inp now old)\<lparr>updatedAt := now\<rparr> \<and>
               acceptRow goals row = None \<and>
               update_parent_goal_progress depth now
                 (map (\<lambda>g. if gid g = u_id inp
                            then (goalData inp now g)\<lparr>updatedAt := now\<rparr> else g) goals)
                 (Some old) row = Inr goals'"
proof -
  let ?patch = "\<lambda>row. (goalData inp now row)\<lparr>updatedAt := now\<rparr>"
  from assms have ne: "\<not> goalDataEmpty inp"
    by (auto simp: updateGoal_def split: if_splits)
  from assms ne obtain goals1 rows where
    u: "updateRows goals (u_id inp) ?patch = Inr (goals1, rows)"
    by (auto simp: updateGoal_def split: sum.splits prod.splits)
  from assms ne u obtain goals2 where
    t: "(case zip (filter (\<lambda>g. gid g = u_id inp) goals) rows of
           [] \<Rightarrow> Inr goals1
         | (old, new) # _ \<Rightarrow> update_parent_goal_progress depth now goals1 (Some old) new) = Inr goals2"
    and s: "single rows = Inr row" and g: "goals' = goals2"
    by (auto simp: updateGoal_def split: sum.splits)
  from s have rows: "rows = [row]" by (simp add: single_Inr)
  note facts = updateRows_Inr[OF u]
  from facts(1) rows obtain old where
    f: "filter (\<lambda>g. gid g = u_id inp) goals = [old]"
    and r: "row = ?patch old"
    by (auto simp: map_eq_Cons_conv)
  from facts(3) rows have a: "acceptRow goals row = None" by simp
  from t f rows g have "update_parent_goal_progress depth now goals1 (Some old) row = Inr goals'"
    by simp
  with ne f r a facts(2) show ?thesis by blast
qed

section \<open>Parent progress\<close>

lemma sum_list_sort_key:
  "sum_list (map f (sort_key k xs)) = sum_list (map (f :: 'a \<Rightarrow> real) xs)"
proof -
  have "sum_mset (image_mset f (mset (sort_key k xs))) = sum_mset (image_mset f (mset xs))"
    by simp
  then show ?thesis
    by (metis mset_map sum_mset_sum_list)
qed

lemma relevant_children_eq:
  "filter (\<lambda>child. status child = Active \<or> status child = Completed) (getGoalChildren goals p)
     = sort_key (\<lambda>g. (level g, createdAt g)) (eligibleChildren goals p)"
  by (simp add: getGoalChildren_def eligibleChildren_def filter_sort)

lemma sum_list_range:
  assumes "\<forall>x\<in>set xs. 0 \<le> x \<and> x \<le> (100 :: real)"
  shows "0 \<le> sum_list xs \<and> sum_list xs \<le> 100 * of_nat (length xs)"
  using assms by (induction xs) (auto simp: algebra_simps)

lemma foldl_double_sum:
  assumes "\<forall>x\<in>set xs. 0 \<le> x \<and> x \<le> 100" "length xs \<le> 2 ^ 20"
  shows "\<bar>foldl (\<lambda>s x. toDouble (s + toDouble x)) 0 xs - sum_list xs\<bar> \<le> of_nat (length xs) / 2 ^ 25"
  using assms
proof (induction xs rule: rev_induct)
  case Nil
  then show ?case by simp
next
  case (snoc x xs)
  define n where "n = length xs"
  define s where "s = foldl (\<lambda>s x. toDouble (s + toDouble x)) 0 xs"
  define S where "S = sum_list xs"
  have n: "real n + 1 \<le> 2 ^ 20"
  proof -
    have "n + 1 \<le> 2 ^ 20" using snoc.prems(2) by (simp add: n_def)
    then have "real (n + 1) \<le> real (2 ^ 20)" by (simp only: of_nat_le_iff)
    then show ?thesis by simp
  qed
  have x: "0 \<le> x" "x \<le> 100" using snoc.prems(1) by simp_all
  have xs: "\<forall>x\<in>set xs. 0 \<le> x \<and> x \<le> 100" using snoc.prems(1) by simp
  have ih: "\<bar>s - S\<bar> \<le> real n / 2 ^ 25"
    using snoc.IH[OF xs] snoc.prems(2) by (simp add: s_def S_def n_def)
  have S: "0 \<le> S" "S \<le> 100 * real n"
    using sum_list_range[OF xs] by (simp_all add: S_def n_def)
  have "\<bar>x\<bar> \<le> 2 powi 7" using x by simp
  from toDouble_error_le[OF this] have tx: "\<bar>toDouble x - x\<bar> \<le> 1 / 2 ^ 46"
    by (simp add: power_int_minus divide_simps)
  have small: "real n / 2 ^ 25 \<le> 1 / 2" using n by simp
  have n': "real n \<le> 1048575" using n by simp
  have tx': "\<bar>toDouble x - x\<bar> \<le> 1" using tx by simp
  have "\<bar>s + toDouble x\<bar> \<le> 134217728" using ih S x tx' small n' by linarith
  then have "\<bar>s + toDouble x\<bar> \<le> 2 powi 27" by simp
  from toDouble_error_le[OF this] have ty: "\<bar>toDouble (s + toDouble x) - (s + toDouble x)\<bar> \<le> 1 / 2 ^ 26"
    by (simp add: power_int_minus divide_simps)
  have "\<bar>toDouble (s + toDouble x) - (S + x)\<bar> \<le> real n / 2 ^ 25 + (1 / 2 ^ 46 + 1 / 2 ^ 26)"
    using ih tx ty by linarith
  also have "\<dots> \<le> real n / 2 ^ 25 + 1 / 2 ^ 25" by (intro add_left_mono) simp
  also have "\<dots> = (real n + 1) / 2 ^ 25" by (simp add: add_divide_distrib)
  finally show ?case by (simp add: s_def S_def n_def add.commute)
qed

lemma rounded_mean_bound:
  assumes ne: "xs \<noteq> []" and range: "\<forall>x\<in>set xs. 0 \<le> x \<and> x \<le> 100" and len: "length xs \<le> 2 ^ 20"
  shows "\<bar>of_int (mathRound (toDouble (toDouble (foldl (\<lambda>s x. toDouble (s + toDouble x)) 0 xs
             / of_nat (length xs)) * 100))) - 100 * (sum_list xs / of_nat (length xs))\<bar>
         \<le> 1 / 2 + 1 / 2 ^ 17"
proof -
  define n where "n = real (length xs)"
  define s where "s = foldl (\<lambda>s x. toDouble (s + toDouble x)) 0 xs"
  define S where "S = sum_list xs"
  define a where "a = toDouble (s / n)"
  define b where "b = toDouble (a * 100)"
  have n: "1 \<le> n" using ne unfolding n_def by (cases xs) simp_all
  have sS: "\<bar>s - S\<bar> \<le> n / 2 ^ 25"
    using foldl_double_sum[OF range len] by (simp add: s_def S_def n_def)
  have S: "0 \<le> S" "S \<le> 100 * n" using sum_list_range[OF range] by (simp_all add: S_def n_def)
  have "s / n - S / n = (s - S) / n" by (simp add: diff_divide_distrib)
  then have "\<bar>s / n - S / n\<bar> = \<bar>s - S\<bar> / n" using n by simp
  also have "\<dots> \<le> (n / 2 ^ 25) / n" using sS n by (intro divide_right_mono) auto
  also have "\<dots> = 1 / 2 ^ 25" using n by simp
  finally have q: "\<bar>s / n - S / n\<bar> \<le> 1 / 2 ^ 25" .
  have m: "0 \<le> S / n" "S / n \<le> 100" using S n by (simp_all add: divide_le_eq)
  have q': "\<bar>s / n - S / n\<bar> \<le> 1" using q by simp
  have "\<bar>s / n\<bar> \<le> 128" using q' m by linarith
  then have "\<bar>s / n\<bar> \<le> 2 powi 7" by simp
  from toDouble_error_le[OF this] have ea: "\<bar>a - s / n\<bar> \<le> 1 / 2 ^ 46"
    by (simp add: a_def power_int_minus divide_simps)
  have "(1::real) / 2 ^ 46 + 1 / 2 ^ 25 \<le> 1 / 2 ^ 24" by simp
  then have am: "\<bar>a - S / n\<bar> \<le> 1 / 2 ^ 24" using ea q by linarith
  have am': "\<bar>a - S / n\<bar> \<le> 1" using am by simp
  have "\<bar>a * 100\<bar> \<le> 16384" using am' m by linarith
  then have "\<bar>a * 100\<bar> \<le> 2 powi 14" by simp
  from toDouble_error_le[OF this] have eb: "\<bar>b - a * 100\<bar> \<le> 1 / 2 ^ 39"
    by (simp add: b_def power_int_minus divide_simps)
  have "(1::real) / 2 ^ 39 + 100 * (1 / 2 ^ 24) \<le> 1 / 2 ^ 17" by simp
  then have bm: "\<bar>b - 100 * (S / n)\<bar> \<le> 1 / 2 ^ 17" using eb am by linarith
  have "\<bar>of_int (mathRound b) - b\<bar> \<le> 1 / 2"
    unfolding mathRound_def by linarith
  with bm have "\<bar>of_int (mathRound b) - 100 * (S / n)\<bar> \<le> 1 / 2 + 1 / 2 ^ 17" by linarith
  then show ?thesis by (simp add: b_def a_def s_def S_def n_def)
qed

lemma calculateParentProgress_eq:
  "calculateParentProgress goals p =
     (if eligibleChildren goals p = [] then 0
      else toDouble (of_int (mathRound (toDouble (toDouble
             (foldl (\<lambda>s x. toDouble (s + toDouble x)) 0
                (map progress (sort_key (\<lambda>g. (level g, createdAt g)) (eligibleChildren goals p)))
              / of_nat (length (eligibleChildren goals p))) * 100))) / 100))"
proof -
  let ?rel = "filter (\<lambda>child. status child = Active \<or> status child = Completed) (getGoalChildren goals p)"
  have rel: "?rel = sort_key (\<lambda>g. (level g, createdAt g)) (eligibleChildren goals p)"
    by (rule relevant_children_eq)
  have len: "length ?rel = length (eligibleChildren goals p)"
    by (simp add: rel)
  have empty: "getGoalChildren goals p = [] \<Longrightarrow> eligibleChildren goals p = []"
    using len by (metis filter.simps(1) length_0_conv)
  have iff: "?rel = [] \<longleftrightarrow> eligibleChildren goals p = []"
    using len by (metis length_0_conv)
  have fold: "foldl (\<lambda>sum child. toDouble (sum + toDouble (progress child))) 0 ?rel
      = foldl (\<lambda>s x. toDouble (s + toDouble x)) 0 (map progress ?rel)"
    by (simp add: foldl_map)
  show ?thesis
  proof (cases "getGoalChildren goals p = []")
    case True
    then show ?thesis using empty by (simp add: calculateParentProgress_def)
  next
    case False
    show ?thesis
    proof (cases "eligibleChildren goals p = []")
      case True
      then show ?thesis using iff False by (simp add: calculateParentProgress_def Let_def)
    next
      case nonempty: False
      then have "?rel \<noteq> []" using iff by simp
      then show ?thesis
        using False nonempty len
        unfolding calculateParentProgress_def Let_def fold
        by (simp add: rel)
    qed
  qed
qed

lemma toDouble_100_3: "toDouble (100 / 3) = 4691249611844267 / 140737488355328"
  by (subst toDouble_eval[of 5]) (simp_all add: roundHalfEven_def)

lemma toDouble_100_3_times_100:
  "toDouble (4691249611844267 / 140737488355328 * 100) = 7330077518506667 / 2199023255552"
  by (subst toDouble_eval[of 11]) (simp_all add: roundHalfEven_def)

lemma toDouble_3333: "toDouble (3333 / 100) = 2345390243441541 / 70368744177664"
  by (subst toDouble_eval[of 5]) (simp_all add: roundHalfEven_def)

lemma thirds_children:
  "eligibleChildren thirds ''A'' =
     [sampleGoal ''B1'' (Some ''A'') 2 0 Active, sampleGoal ''B2'' (Some ''A'') 2 0 Active,
      sampleGoal ''B3'' (Some ''A'') 2 100 Completed]"
  by (simp add: eligibleChildren_def thirds_def sampleGoal_def)

lemma thirds_calc: "calculateParentProgress thirds ''A'' = 2345390243441541 / 70368744177664"
proof -
  have "calculateParentProgress thirds ''A'' =
          toDouble (of_int (mathRound (toDouble (toDouble (100 / 3) * 100))) / 100)"
    unfolding calculateParentProgress_eq thirds_children
    by (simp add: sampleGoal_def)
  also have "\<dots> = toDouble (of_int (mathRound (7330077518506667 / 2199023255552)) / 100)"
    by (simp only: toDouble_100_3 toDouble_100_3_times_100)
  also have "mathRound (7330077518506667 / 2199023255552) = 3333"
    by (simp add: mathRound_def)
  also have "toDouble (of_int 3333 / 100) = 2345390243441541 / 70368744177664"
    by (simp add: toDouble_3333)
  finally show ?thesis .
qed

lemma thirds_mean: "arithmeticMean (map progress (eligibleChildren thirds ''A'')) = 100 / 3"
  by (simp add: arithmeticMean_def eligibleChildren_def thirds_def sampleGoal_def)

text \<open>
  C1, as the claim words it, fails: with three counted children at 0, 0 and 100 the
  client computes the double 33.33, which is not the arithmetic mean 100/3.
\<close>

theorem parent_progress_not_exact_mean:
  "calculateParentProgress thirds ''A'' \<noteq>
     arithmeticMean (map progress (eligibleChildren thirds ''A''))"
  by (simp add: thirds_calc thirds_mean)

text \<open>
  C1, amended: the progress that \<open>calculateParentProgress\<close> recomputes for a goal is 0
  when the goal has no child in status active or completed (no children at all, or only
  paused and cancelled ones). Otherwise, for stored progress values (between 0 and 100)
  of at most \<open>2^20\<close> such children, it is the arithmetic mean of the progress of exactly
  those children, rounded to two decimals in double arithmetic: the double nearest to a
  number \<open>k / 100\<close> that differs from the mean by at most 0.005 and a ten-millionth; and
  when the mean itself has at most two decimals, it is the double nearest to the mean.
  No error is raised.
\<close>

theorem parent_progress_rounded_mean:
  "(eligibleChildren goals p = [] \<longrightarrow> calculateParentProgress goals p = 0) \<and>
   (eligibleChildren goals p \<noteq> [] \<and>
    (\<forall>c\<in>set (eligibleChildren goals p). 0 \<le> progress c \<and> progress c \<le> 100) \<and>
    length (eligibleChildren goals p) \<le> 2 ^ 20 \<longrightarrow>
      (\<exists>k. calculateParentProgress goals p = toDouble (of_int k / 100) \<and>
           \<bar>of_int k / 100 - arithmeticMean (map progress (eligibleChildren goals p))\<bar>
             \<le> 1 / 200 + 1 / 10 ^ 7) \<and>
      (arithmeticMean (map progress (eligibleChildren goals p)) * 100 \<in> \<int> \<longrightarrow>
         calculateParentProgress goals p =
           toDouble (arithmeticMean (map progress (eligibleChildren goals p)))))"
proof (cases "eligibleChildren goals p = []")
  case True
  then show ?thesis by (simp add: calculateParentProgress_eq)
next
  case False
  show ?thesis
  proof (intro conjI impI)
    assume "eligibleChildren goals p = []"
    with False show "calculateParentProgress goals p = 0" by simp
  next
    assume h: "eligibleChildren goals p \<noteq> [] \<and>
      (\<forall>c\<in>set (eligibleChildren goals p). 0 \<le> progress c \<and> progress c \<le> 100) \<and>
      length (eligibleChildren goals p) \<le> 2 ^ 20"
    define cs where "cs = sort_key (\<lambda>g. (level g, createdAt g)) (eligibleChildren goals p)"
    define xs where "xs = map progress cs"
    define m where "m = arithmeticMean (map progress (eligibleChildren goals p))"
    define k where "k = mathRound (toDouble (toDouble (foldl (\<lambda>s x. toDouble (s + toDouble x)) 0 xs
             / of_nat (length xs)) * 100))"
    have len: "length xs = length (eligibleChildren goals p)" by (simp add: xs_def cs_def)
    have ne: "xs \<noteq> []" using False len by (metis length_0_conv)
    have range: "\<forall>x\<in>set xs. 0 \<le> x \<and> x \<le> 100" using h by (auto simp: xs_def cs_def)
    have l: "length xs \<le> 2 ^ 20" using h len by simp
    have sum: "sum_list xs = sum_list (map progress (eligibleChildren goals p))"
      by (simp add: xs_def cs_def sum_list_sort_key)
    have mean: "sum_list xs / of_nat (length xs) = m"
      by (simp add: m_def arithmeticMean_def sum len)
    have calc: "calculateParentProgress goals p = toDouble (of_int k / 100)"
      using False by (simp add: calculateParentProgress_eq k_def xs_def cs_def)
    have b: "\<bar>of_int k - 100 * m\<bar> \<le> 1 / 2 + 1 / 2 ^ 17"
      using rounded_mean_bound[OF ne range l] unfolding k_def[symmetric] mean .
    have "of_int k / 100 - m = (of_int k - 100 * m) / 100" by (simp add: diff_divide_distrib)
    then have "\<bar>of_int k / 100 - m\<bar> = \<bar>of_int k - 100 * m\<bar> / 100"
      by (simp only: abs_divide abs_numeral)
    also have "\<dots> \<le> (1 / 2 + 1 / 2 ^ 17) / 100" using b by (intro divide_right_mono) auto
    also have "\<dots> \<le> 1 / 200 + 1 / 10 ^ 7" by simp
    finally have close: "\<bar>of_int k / 100 - m\<bar> \<le> 1 / 200 + 1 / 10 ^ 7" .
    from calc close show "\<exists>k. calculateParentProgress goals p = toDouble (of_int k / 100) \<and>
           \<bar>of_int k / 100 - arithmeticMean (map progress (eligibleChildren goals p))\<bar>
             \<le> 1 / 200 + 1 / 10 ^ 7"
      unfolding m_def by blast
    show "calculateParentProgress goals p =
           toDouble (arithmeticMean (map progress (eligibleChildren goals p)))"
      if "arithmeticMean (map progress (eligibleChildren goals p)) * 100 \<in> \<int>"
    proof -
      from that obtain j :: int where j: "m * 100 = of_int j"
        unfolding m_def by (auto elim: Ints_cases)
      have "\<bar>real_of_int (k - j)\<bar> \<le> 1 / 2 + 1 / 2 ^ 17" using b j by (simp add: mult.commute)
      then have "\<bar>real_of_int (k - j)\<bar> < 1" by simp
      then have "k = j" by linarith
      then have "of_int k / 100 = m" using j by simp
      with calc show ?thesis by (simp add: m_def)
    qed
  qed
qed

theorem parent_progress_rounded_mean_witness:
  "eligibleChildren familyABC ''B'' = [] \<and> calculateParentProgress familyABC ''B'' = 0 \<and>
   eligibleChildren familyABC ''A'' \<noteq> [] \<and>
   map progress (eligibleChildren familyABC ''A'') = [100, 50] \<and>
   length (eligibleChildren familyABC ''A'') \<le> 2 ^ 20 \<and>
   arithmeticMean (map progress (eligibleChildren familyABC ''A'')) * 100 \<in> \<int> \<and>
   calculateParentProgress familyABC ''A'' = 75"
proof -
  have m: "arithmeticMean (map progress (eligibleChildren familyABC ''A'')) = 75"
    by (simp add: arithmeticMean_def eligibleChildren_def familyABC_def sampleGoal_def)
  have a: "eligibleChildren familyABC ''A'' \<noteq> []"
    by (simp add: eligibleChildren_def familyABC_def sampleGoal_def)
  have r: "\<forall>c\<in>set (eligibleChildren familyABC ''A''). 0 \<le> progress c \<and> progress c \<le> 100"
    by (simp add: eligibleChildren_def familyABC_def sampleGoal_def)
  have l: "length (eligibleChildren familyABC ''A'') \<le> 2 ^ 20"
    by (simp add: eligibleChildren_def familyABC_def sampleGoal_def)
  have b: "eligibleChildren familyABC ''B'' = []"
    by (simp add: eligibleChildren_def familyABC_def sampleGoal_def)
  have i: "arithmeticMean (map progress (eligibleChildren familyABC ''A'')) * 100 \<in> \<int>"
    unfolding m by simp
  have "calculateParentProgress familyABC ''A'' = toDouble 75"
    using parent_progress_rounded_mean [of familyABC "''A''"] a r l i unfolding m by blast
  then have c: "calculateParentProgress familyABC ''A'' = 75" by simp
  have z: "calculateParentProgress familyABC ''B'' = 0"
    using parent_progress_rounded_mean [of familyABC "''B''"] b by blast
  have v: "map progress (eligibleChildren familyABC ''A'') = [100, 50]"
    by (simp add: eligibleChildren_def familyABC_def sampleGoal_def)
  from a v l i b c z show ?thesis by blast
qed

lemma toDouble_101: "toDouble (101 / 100) = 4548635623644201 / 4503599627370496"
  by (subst toDouble_eval[of 0]) (simp_all add: roundHalfEven_def)

lemma toDouble_201: "toDouble (9052235251014697 / 4503599627370496) = 1131529406376837 / 562949953421312"
  by (subst toDouble_eval[of 1]) (simp_all add: roundHalfEven_def)

lemma toDouble_1005: "toDouble (1131529406376837 / 1125899906842624) = 1131529406376837 / 1125899906842624"
  by (subst toDouble_eval[of 0]) (simp_all add: roundHalfEven_def)

lemma toDouble_1005_times_100:
  "toDouble (28288235159420925 / 281474976710656) = 7072058789855231 / 70368744177664"
  by (subst toDouble_eval[of 6]) (simp_all add: roundHalfEven_def)

text \<open>
  The rounding is that of the doubles: with the children at 1 and 1.01 the mean is 1.005,
  the client computes 100.49999999999999 for a hundred times the mean, and the result is
  1, not 1.01.
\<close>

lemma tiePair_calc:
  "calculateParentProgress tiePair ''A'' = 1 \<and>
   arithmeticMean (map progress (eligibleChildren tiePair ''A'')) = 201 / 200"
  by (simp add: goal_service_defs tiePair_def arithmeticMean_def eligibleChildren_def
      toDouble_101 toDouble_201 toDouble_1005 toDouble_1005_times_100)

section \<open>Creating goals\<close>

lemma insertGoal_not_ClientError: "insertGoal goals r \<noteq> Inl (ClientError m)"
  by (auto simp: insertGoal_def acceptRow_def validate_goal_hierarchy_def goals_check_def
      goals_parent_fkey_def split: option.splits list.splits if_splits)

text \<open>
  C5, amended: for an authenticated user, \<open>createGoal\<close> fails with an error of its own
  level check, before anything is sent to the storage, exactly when the hierarchy rule is
  violated: with a parent that is found, when the parent's level is 4 or more or the
  requested level is not the parent's level plus 1; without a parent, when the requested
  level is not 1. When the rule holds, the outcome is that of the insert: the goal is
  created unless the storage rejects the row. A parent that is not found is an error too.
\<close>

theorem createGoal_hierarchy_rule:
  "(orNull (c_parentId inp) = None \<longrightarrow>
      ((\<exists>m. createGoal (Some uid) now newId goals inp = Inl (ClientError m)) \<longleftrightarrow> c_level inp \<noteq> 1) \<and>
      (c_level inp = 1 \<longrightarrow>
         createGoal (Some uid) now newId goals inp = insertGoal goals (newGoalRow uid now newId inp))) \<and>
   (orNull (c_parentId inp) = Some p \<and> getGoal goals p = Inr parent \<longrightarrow>
      ((\<exists>m. createGoal (Some uid) now newId goals inp = Inl (ClientError m)) \<longleftrightarrow>
         (level parent \<ge> 4 \<or> c_level inp \<noteq> level parent + 1)) \<and>
      (\<not> (level parent \<ge> 4 \<or> c_level inp \<noteq> level parent + 1) \<longrightarrow>
         createGoal (Some uid) now newId goals inp = insertGoal goals (newGoalRow uid now newId inp))) \<and>
   (orNull (c_parentId inp) = Some p \<and> getGoal goals p = Inl e \<longrightarrow>
      createGoal (Some uid) now newId goals inp = Inl e)"
  using insertGoal_not_ClientError
  by (auto simp: createGoal_def validateLevel_def split: option.splits sum.splits)

lemma childOfA_parent: "orNull (c_parentId childOfA) = Some ''A'' \<and> getGoal familyABC ''A'' = Inr (sampleGoal ''A'' None 1 0 Active)"
  by (simp add: childOfA_def orNull_def truthy_def getGoal_def familyABC_def single_def sampleGoal_def)

lemma childOfA_insert: "insertGoal familyABC (newGoalRow ''u1'' 5000 ''N'' childOfA) = Inr (familyABC @ [newGoalRow ''u1'' 5000 ''N'' childOfA], newGoalRow ''u1'' 5000 ''N'' childOfA)"
  by (simp add: insertGoal_def newGoalRow_def childOfA_def acceptRow_def validate_goal_hierarchy_def goals_check_def goals_parent_fkey_def familyABC_def sampleGoal_def)

lemma rootOnLevel2: "orNull (c_parentId (childOfA\<lparr>c_parentId := None\<rparr>)) = None \<and> c_level (childOfA\<lparr>c_parentId := None\<rparr>) \<noteq> 1"
  by (simp add: childOfA_def orNull_def truthy_def)

theorem createGoal_hierarchy_rule_witness:
  "orNull (c_parentId childOfA) = Some ''A'' \<and>
   getGoal familyABC ''A'' = Inr (sampleGoal ''A'' None 1 0 Active) \<and>
   \<not> (level (sampleGoal ''A'' None 1 0 Active) \<ge> 4 \<or>
       c_level childOfA \<noteq> level (sampleGoal ''A'' None 1 0 Active) + 1) \<and>
   createGoal (Some ''u1'') 5000 ''N'' familyABC childOfA =
     Inr (familyABC @ [newGoalRow ''u1'' 5000 ''N'' childOfA], newGoalRow ''u1'' 5000 ''N'' childOfA) \<and>
   orNull (c_parentId (childOfA\<lparr>c_parentId := None\<rparr>)) = None \<and>
   c_level (childOfA\<lparr>c_parentId := None\<rparr>) \<noteq> 1 \<and>
   (\<exists>m. createGoal (Some ''u1'') 5000 ''N'' familyABC (childOfA\<lparr>c_parentId := None\<rparr>) = Inl (ClientError m))"
proof -
  have lv: "\<not> (level (sampleGoal ''A'' None 1 0 Active) \<ge> 4 \<or>
       c_level childOfA \<noteq> level (sampleGoal ''A'' None 1 0 Active) + 1)"
    by (simp add: sampleGoal_def childOfA_def)
  from createGoal_hierarchy_rule [of childOfA "''u1''" 5000 "''N''" familyABC "''A''" "sampleGoal ''A'' None 1 0 Active"]
    childOfA_parent lv
  have c: "createGoal (Some ''u1'') 5000 ''N'' familyABC childOfA =
     insertGoal familyABC (newGoalRow ''u1'' 5000 ''N'' childOfA)" by blast
  from createGoal_hierarchy_rule [of "childOfA\<lparr>c_parentId := None\<rparr>" "''u1''" 5000 "''N''" familyABC]
    rootOnLevel2
  have r: "\<exists>m. createGoal (Some ''u1'') 5000 ''N'' familyABC (childOfA\<lparr>c_parentId := None\<rparr>) = Inl (ClientError m)"
    by blast
  from childOfA_parent lv c childOfA_insert rootOnLevel2 r show ?thesis by simp
qed


text \<open>
  C5, as the claim words it, fails: a root goal on level 1 keeps the hierarchy rule, and
  \<open>createGoal\<close> still fails when its due date precedes its start date.
\<close>

theorem createGoal_storage_rejects:
  "c_parentId datesReversed = None \<and> c_level datesReversed = 1 \<and>
   createGoal (Some ''u1'') 5000 ''N'' familyABC datesReversed = Inl (StorageError ''valid_date_range'')"
  by (simp add: createGoal_def validateLevel_def orNull_def truthy_def datesReversed_def insertGoal_def
      newGoalRow_def acceptRow_def validate_goal_hierarchy_def goals_check_def)

section \<open>Profile statistics\<close>

text \<open>
  C9, amended: the trigger function, fired for a goal or event row that is inserted,
  updated or deleted, writes into every profile row of the owner (the user of \<open>OLD\<close> on
  delete, of \<open>NEW\<close> otherwise) the recomputed totals of goals, of completed goals and of
  events; the count of completed events and the current and longest streak are carried
  over from the stored snapshot as they are. The other profiles are left alone.
\<close>

theorem update_user_stats_snapshot:
  assumes "owner = (if op = DELETE then old_user_id else new_user_id)"
    and "profiles' = update_user_stats now op old_user_id new_user_id goals events profiles"
  shows "length profiles' = length profiles \<and>
    (\<forall>i < length profiles.
       (p_userId (profiles ! i) \<noteq> owner \<longrightarrow> profiles' ! i = profiles ! i) \<and>
       (p_userId (profiles ! i) = owner \<longrightarrow>
          p_userId (profiles' ! i) = owner \<and>
          totalGoals (p_stats (profiles' ! i)) = Some (int (length (filter (\<lambda>g. userId g = owner) goals))) \<and>
          completedGoals (p_stats (profiles' ! i)) =
            Some (int (length (filter (\<lambda>g. userId g = owner \<and> status g = Completed) goals))) \<and>
          totalEvents (p_stats (profiles' ! i)) = Some (int (length (filter (\<lambda>e. e_userId e = owner) events))) \<and>
          completedEvents (p_stats (profiles' ! i)) = completedEvents (p_stats (profiles ! i)) \<and>
          currentStreak (p_stats (profiles' ! i)) = currentStreak (p_stats (profiles ! i)) \<and>
          longestStreak (p_stats (profiles' ! i)) = longestStreak (p_stats (profiles ! i))))"
  using assms by (simp add: update_user_stats_def Let_def)

theorem update_user_stats_snapshot_witness:
  "length (update_user_stats 1000 INSERT ''u1'' ''u1'' familyABC [] [profileB]) = 1 \<and>
   p_userId ([profileB] ! 0) = ''u1'' \<and>
   totalGoals (p_stats (update_user_stats 1000 INSERT ''u1'' ''u1'' familyABC [] [profileB] ! 0)) = Some 3 \<and>
   completedGoals (p_stats (update_user_stats 1000 INSERT ''u1'' ''u1'' familyABC [] [profileB] ! 0)) = Some 1 \<and>
   currentStreak (p_stats (update_user_stats 1000 INSERT ''u1'' ''u1'' familyABC [] [profileB] ! 0)) = Some 3"
proof -
  have o: "''u1'' = (if INSERT = DELETE then ''u1'' else ''u1'')" by simp
  note t = update_user_stats_snapshot [OF o refl, of 1000 familyABC "[]" "[profileB]"]
  have u: "p_userId ([profileB] ! 0) = ''u1''" by (simp add: profileB_def)
  have g: "int (length (filter (\<lambda>g. userId g = ''u1'') familyABC)) = 3"
    by (simp add: familyABC_def sampleGoal_def)
  have c: "int (length (filter (\<lambda>g. userId g = ''u1'' \<and> status g = Completed) familyABC)) = 1"
    by (simp add: familyABC_def sampleGoal_def)
  have s: "currentStreak (p_stats ([profileB] ! 0)) = Some 3" by (simp add: profileB_def emptyStats_def)
  from t u g c s show ?thesis by simp
qed

text \<open>
  C9, as the claim words it, fails: with the same goals and events (no event at all), the
  count of completed events and the two streaks that the trigger writes are whatever the
  profile held before, 0 in one case and 7, 3 and 9 in the other.
\<close>

theorem update_user_stats_carries_over:
  "map (completedEvents \<circ> p_stats) (update_user_stats 1000 INSERT ''u1'' ''u1'' familyABC [] [profileA]) = [Some 0] \<and>
   map (completedEvents \<circ> p_stats) (update_user_stats 1000 INSERT ''u1'' ''u1'' familyABC [] [profileB]) = [Some 7] \<and>
   map (totalEvents \<circ> p_stats) (update_user_stats 1000 INSERT ''u1'' ''u1'' familyABC [] [profileB]) = [Some 0] \<and>
   map (currentStreak \<circ> p_stats) (update_user_stats 1000 INSERT ''u1'' ''u1'' familyABC [] [profileA]) = [Some 0] \<and>
   map (currentStreak \<circ> p_stats) (update_user_stats 1000 INSERT ''u1'' ''u1'' familyABC [] [profileB]) = [Some 3] \<and>
   map (longestStreak \<circ> p_stats) (update_user_stats 1000 INSERT ''u1'' ''u1'' familyABC [] [profileA]) = [Some 0] \<and>
   map (longestStreak \<circ> p_stats) (update_user_stats 1000 INSERT ''u1'' ''u1'' familyABC [] [profileB]) = [Some 9]"
  by (simp add: update_user_stats_def profileA_def profileB_def emptyStats_def Let_def)

section \<open>Events\<close>

lemma keep_fields:
  "(case x1 of None \<Rightarrow> True | Some t \<Rightarrow> t = e_title r) \<Longrightarrow>
     (case x1 of None \<Rightarrow> r | Some t \<Rightarrow> r\<lparr>e_title := t\<rparr>) = r"
  "(case x2 of None \<Rightarrow> True | Some d \<Rightarrow> Some d = e_description r) \<Longrightarrow>
     (case x2 of None \<Rightarrow> r | Some d \<Rightarrow> r\<lparr>e_description := Some d\<rparr>) = r"
  "(case x3 of None \<Rightarrow> True | Some d \<Rightarrow> d = e_startDate r) \<Longrightarrow>
     (case x3 of None \<Rightarrow> r | Some d \<Rightarrow> r\<lparr>e_startDate := d\<rparr>) = r"
  "(case x4 of None \<Rightarrow> True | Some d \<Rightarrow> d = e_endDate r) \<Longrightarrow>
     (case x4 of None \<Rightarrow> r | Some d \<Rightarrow> r\<lparr>e_endDate := d\<rparr>) = r"
  "(case x5 of None \<Rightarrow> True | Some b \<Rightarrow> b = allDay r) \<Longrightarrow>
     (case x5 of None \<Rightarrow> r | Some b \<Rightarrow> r\<lparr>allDay := b\<rparr>) = r"
  "(case x6 of None \<Rightarrow> True | Some c \<Rightarrow> Some c = e_categoryId r) \<Longrightarrow>
     (case x6 of None \<Rightarrow> r | Some c \<Rightarrow> r\<lparr>e_categoryId := Some c\<rparr>) = r"
  "(case x7 of None \<Rightarrow> True | Some ts \<Rightarrow> ts = tags r) \<Longrightarrow>
     (case x7 of None \<Rightarrow> r | Some ts \<Rightarrow> r\<lparr>tags := ts\<rparr>) = r"
  "(case x8 of None \<Rightarrow> True | Some c \<Rightarrow> Some c = color r) \<Longrightarrow>
     (case x8 of None \<Rightarrow> r | Some c \<Rightarrow> r\<lparr>color := Some c\<rparr>) = r"
  by (simp_all split: option.splits)

lemma eventData_restates:
  assumes "restates inp e"
  shows "eventData inp e = e"
proof -
  have 1: "(case ue_title inp of None \<Rightarrow> e | Some t \<Rightarrow> e\<lparr>e_title := t\<rparr>) = e"
    using assms by (simp add: restates_def keep_fields(1))
  have 2: "(case ue_description inp of None \<Rightarrow> e | Some d \<Rightarrow> e\<lparr>e_description := Some d\<rparr>) = e"
    using assms by (simp add: restates_def keep_fields(2))
  have 3: "(case ue_startDate inp of None \<Rightarrow> e | Some d \<Rightarrow> e\<lparr>e_startDate := d\<rparr>) = e"
    using assms by (simp add: restates_def keep_fields(3))
  have 4: "(case ue_endDate inp of None \<Rightarrow> e | Some d \<Rightarrow> e\<lparr>e_endDate := d\<rparr>) = e"
    using assms by (simp add: restates_def keep_fields(4))
  have 5: "(case ue_allDay inp of None \<Rightarrow> e | Some b \<Rightarrow> e\<lparr>allDay := b\<rparr>) = e"
    using assms by (simp add: restates_def keep_fields(5))
  have 6: "(case ue_categoryId inp of None \<Rightarrow> e | Some c \<Rightarrow> e\<lparr>e_categoryId := Some c\<rparr>) = e"
    using assms by (simp add: restates_def keep_fields(6))
  have 7: "(case ue_tags inp of None \<Rightarrow> e | Some ts \<Rightarrow> e\<lparr>tags := ts\<rparr>) = e"
    using assms by (simp add: restates_def keep_fields(7))
  have 8: "(case ue_color inp of None \<Rightarrow> e | Some c \<Rightarrow> e\<lparr>color := Some c\<rparr>) = e"
    using assms by (simp add: restates_def keep_fields(8))
  show ?thesis
    unfolding eventData_def Let_def by (simp only: 1 2 3 4 5 6 7 8)
qed

lemma events_check_updatedAt [simp]: "events_check (r\<lparr>e_updatedAt := t\<rparr>) = events_check r"
  by (simp add: events_check_def)

lemma filter_eid_map_stamp:
  "filter (\<lambda>r. eid r = x) (map (\<lambda>r. if eid r = i then (f r)\<lparr>e_updatedAt := t\<rparr> else r) events)
   = map (\<lambda>r. if eid r = i then (f r)\<lparr>e_updatedAt := t\<rparr> else r) (filter (\<lambda>r. eid r = x) events)"
  if "\<And>r. eid (f r) = eid r"
  using that by (induction events) auto

lemma eventData_eid [simp]: "eid (eventData inp r) = eid r"
  by (simp add: eventData_def Let_def split: option.splits)

lemma create_meeting:
  "createEvent (Some ''u1'') 500 ''E1'' [] newYearMeeting = Inr ([newYearMeetingRow], newYearMeetingRow)"
  by (simp add: createEvent_def insertEvent_def events_check_def newYearMeeting_def newYearMeetingRow_def)

text \<open>
  C8, as the claim words it, fails for the update that names no field at all. For the
  event created with start 2024-01-01T09:00Z, end 2024-01-01T10:00Z and \<open>allDay = false\<close>,
  the input \<open>{ id }\<close> changes no field, but \<open>updateEvent\<close> sends an empty patch, gets no
  row back and fails: no event is returned.
\<close>

theorem updateEvent_empty_patch_fails:
  "createEvent (Some ''u1'') 500 ''E1'' [] newYearMeeting = Inr ([newYearMeetingRow], newYearMeetingRow) \<and>
   restates (noEventChange ''E1'') newYearMeetingRow \<and>
   updateEvent 900 [newYearMeetingRow] (noEventChange ''E1'') = Inl (StorageError ''PGRST116'')"
  by (simp add: create_meeting restates_def noEventChange_def updateEvent_def eventDataEmpty_def)

text \<open>
  C8, amended: for every stored event, \<open>updateEvent\<close> with an input that names at least one
  field and changes none (every field left out, or given with its present value) succeeds
  and returns the event with the same start date, end date, all-day flag, title,
  description, category, tags and colour; the table then holds the returned event.
\<close>

theorem updateEvent_no_changes:
  assumes found: "getEvent events i = Inr e"
    and valid: "events_check e = None"
    and same: "ue_id inp = i" "restates inp e"
    and sent: "\<not> eventDataEmpty inp"
  shows "\<exists>events' e'. updateEvent now events inp = Inr (events', e') \<and>
           getEvent events' i = Inr e' \<and>
           eid e' = eid e \<and> e_title e' = e_title e \<and> e_description e' = e_description e \<and>
           e_startDate e' = e_startDate e \<and> e_endDate e' = e_endDate e \<and>
           allDay e' = allDay e \<and> e_categoryId e' = e_categoryId e \<and>
           tags e' = tags e \<and> color e' = color e"
proof -
  let ?patch = "\<lambda>row. (eventData inp row)\<lparr>e_updatedAt := now\<rparr>"
  let ?events' = "map (\<lambda>r. if eid r = i then ?patch r else r) events"
  let ?e' = "e\<lparr>e_updatedAt := now\<rparr>"
  from found have f: "filter (\<lambda>r. eid r = i) events = [e]"
    by (auto simp: getEvent_def single_def split: list.splits)
  then have ei: "eid e = i" by (metis (mono_tags, lifting) filter_eq_ConsD)
  have p: "?patch e = ?e'" using same(2) by (simp add: eventData_restates)
  have rows: "updateEventRows events i ?patch = Inr (?events', [?e'])"
    using f p valid by (simp add: updateEventRows_def List.map_filter_simps)
  have u: "updateEvent now events inp = Inr (?events', ?e')"
    using rows same(1) sent by (simp add: updateEvent_def single_def)
  have "filter (\<lambda>r. eid r = i) ?events' = [?e']"
    by (subst filter_eid_map_stamp) (simp_all add: f ei p)
  then have g: "getEvent ?events' i = Inr ?e'" by (simp add: getEvent_def single_def)
  from u g show ?thesis by auto
qed

theorem updateEvent_no_changes_witness:
  "getEvent [newYearMeetingRow] ''E1'' = Inr newYearMeetingRow \<and>
   events_check newYearMeetingRow = None \<and>
   ue_id sameMeeting = ''E1'' \<and> restates sameMeeting newYearMeetingRow \<and>
   \<not> eventDataEmpty sameMeeting \<and>
   (\<exists>events' e'. updateEvent 900 [newYearMeetingRow] sameMeeting = Inr (events', e') \<and>
      e_startDate e' = 1704099600000 \<and> e_endDate e' = 1704103200000 \<and> allDay e' = False \<and>
      e_title e' = ''Meeting'' \<and> e_description e' = None \<and> e_categoryId e' = None \<and>
      tags e' = [] \<and> color e' = None)"
proof -
  have g: "getEvent [newYearMeetingRow] ''E1'' = Inr newYearMeetingRow"
    by (simp add: getEvent_def single_def newYearMeetingRow_def)
  have v: "events_check newYearMeetingRow = None"
    by (simp add: events_check_def newYearMeetingRow_def)
  have i: "ue_id sameMeeting = ''E1''" by (simp add: sameMeeting_def)
  have r: "restates sameMeeting newYearMeetingRow"
    by (simp add: restates_def sameMeeting_def newYearMeetingRow_def)
  have s: "\<not> eventDataEmpty sameMeeting" by (simp add: eventDataEmpty_def sameMeeting_def)
  from updateEvent_no_changes [OF g v i r s, of 900]
  obtain events' e' where
    "updateEvent 900 [newYearMeetingRow] sameMeeting = Inr (events', e')"
    "e_title e' = e_title newYearMeetingRow" "e_description e' = e_description newYearMeetingRow"
    "e_startDate e' = e_startDate newYearMeetingRow" "e_endDate e' = e_endDate newYearMeetingRow"
    "allDay e' = allDay newYearMeetingRow" "e_categoryId e' = e_categoryId newYearMeetingRow"
    "tags e' = tags newYearMeetingRow" "color e' = color newYearMeetingRow"
    by blast
  then have "\<exists>events' e'. updateEvent 900 [newYearMeetingRow] sameMeeting = Inr (events', e') \<and>
      e_startDate e' = 1704099600000 \<and> e_endDate e' = 1704103200000 \<and> allDay e' = False \<and>
      e_title e' = ''Meeting'' \<and> e_description e' = None \<and> e_categoryId e' = None \<and>
      tags e' = [] \<and> color e' = None"
    by (simp add: newYearMeetingRow_def)
  with g v i r s show ?thesis by blast
qed

section \<open>The level rule under a move\<close>

text \<open>
  C4 on \<open>moveGoal\<close>. The table \<open>deepTree\<close> keeps the level rule. Moving G, with its chain
  of descendants down to level 4, under the root R puts G on level 2, H on 3 and I on 4;
  J would need level 5, is skipped by \<open>updateDescendantLevels\<close> and stays on level 4 below
  its parent I on level 4: the table after the move breaks the rule.
\<close>

theorem moveGoal_breaks_level_rule:
  "levelInvariant deepTree \<and>
   moveGoal 1000 deepTree ''G'' (Some ''R'') =
     Inr ([sampleGoal ''R'' None 1 0 Active,
           (sampleGoal ''G'' (Some ''R'') 2 0 Active)\<lparr>updatedAt := 1000\<rparr>,
           (sampleGoal ''H'' (Some ''G'') 3 0 Active)\<lparr>updatedAt := 1000\<rparr>,
           (sampleGoal ''I'' (Some ''H'') 4 0 Active)\<lparr>updatedAt := 1000\<rparr>,
           sampleGoal ''J'' (Some ''I'') 4 0 Active],
          (sampleGoal ''G'' (Some ''R'') 2 0 Active)\<lparr>updatedAt := 1000\<rparr>) \<and>
   \<not> levelInvariant
         [sampleGoal ''R'' None 1 0 Active,
          (sampleGoal ''G'' (Some ''R'') 2 0 Active)\<lparr>updatedAt := 1000\<rparr>,
          (sampleGoal ''H'' (Some ''G'') 3 0 Active)\<lparr>updatedAt := 1000\<rparr>,
          (sampleGoal ''I'' (Some ''H'') 4 0 Active)\<lparr>updatedAt := 1000\<rparr>,
          sampleGoal ''J'' (Some ''I'') 4 0 Active]"
  by (simp add: moveGoal_def goal_service_defs deepTree_def setLevel_def levelInvariant_def)

section \<open>Sorting with a comparator\<close>

lemma mset_insertSorted: "mset (insertSorted cmp x ys) = add_mset x (mset ys)"
  by (induction ys) simp_all

lemma mset_sortWith: "mset (sortWith cmp xs) = mset xs"
  by (induction xs) (simp_all add: sortWith_def mset_insertSorted)

lemma set_insertSorted: "set (insertSorted cmp x ys) = insert x (set ys)"
  by (induction ys) auto

lemma set_sortWith: "set (sortWith cmp xs) = set xs"
  by (metis mset_sortWith set_mset_mset)

lemma sorted_insertSorted:
  fixes key :: "'a \<Rightarrow> 'k::linorder"
  assumes le: "\<And>x y. cmp x y \<le> 0 \<Longrightarrow> key y \<le> key x"
    and gt: "\<And>x y. \<not> cmp x y \<le> 0 \<Longrightarrow> key x \<le> key y"
  shows "sorted_wrt (\<lambda>a b. key b \<le> key a) ys \<Longrightarrow>
         sorted_wrt (\<lambda>a b. key b \<le> key a) (insertSorted cmp x ys)"
proof (induction ys)
  case Nil
  then show ?case by simp
next
  case (Cons y ys)
  show ?case
  proof (cases "cmp x y \<le> 0")
    case True
    then have "key y \<le> key x" by (rule le)
    moreover have "\<forall>z\<in>set ys. key z \<le> key y" using Cons.prems by simp
    ultimately show ?thesis using True Cons.prems by (auto intro: order_trans)
  next
    case False
    then have "key x \<le> key y" by (rule gt)
    then show ?thesis using False Cons by (auto simp: set_insertSorted)
  qed
qed

lemma sorted_sortWith:
  fixes key :: "'a \<Rightarrow> 'k::linorder"
  assumes le: "\<And>x y. cmp x y \<le> 0 \<Longrightarrow> key y \<le> key x"
    and gt: "\<And>x y. \<not> cmp x y \<le> 0 \<Longrightarrow> key x \<le> key y"
  shows "sorted_wrt (\<lambda>a b. key b \<le> key a) (sortWith cmp xs)"
proof (induction xs)
  case Nil
  then show ?case by (simp add: sortWith_def)
next
  case (Cons x xs)
  have "sortWith cmp (x # xs) = insertSorted cmp x (sortWith cmp xs)"
    by (simp add: sortWith_def)
  then show ?case using sorted_insertSorted[of cmp key, OF le gt] Cons by simp
qed

lemma compareTasks_le: "compareTasks a b \<le> 0 \<Longrightarrow> priority b \<le> priority a"
  by (auto simp: compareTasks_def split: if_splits)

lemma compareTasks_gt: "\<not> compareTasks a b \<le> 0 \<Longrightarrow> priority a \<le> priority b"
  by (auto simp: compareTasks_def split: if_splits)

lemma urgencyOrder_calculateUrgency_mono:
  "d1 \<le> d2 \<Longrightarrow> urgencyOrder (calculateUrgency d1) \<le> urgencyOrder (calculateUrgency d2)"
  by (auto simp: urgencyOrder_def calculateUrgency_def)

lemma compareOverdue_le:
  "compareOverdue a b \<le> 0 \<Longrightarrow>
   (urgencyOrder (urgency b), daysOverdue b) \<le> (urgencyOrder (urgency a), daysOverdue a)"
  by (auto simp: compareOverdue_def Let_def less_eq_prod_def split: if_splits)

lemma compareOverdue_gt:
  "\<not> compareOverdue a b \<le> 0 \<Longrightarrow>
   (urgencyOrder (urgency a), daysOverdue a) \<le> (urgencyOrder (urgency b), daysOverdue b)"
  by (auto simp: compareOverdue_def Let_def less_eq_prod_def split: if_splits)

lemma sorted_getTodayTasks:
  "sorted_wrt (\<lambda>a b. priority b \<le> priority a) (getTodayTasks now goals events)"
  unfolding getTodayTasks_def Let_def
  by (rule sorted_sortWith[of compareTasks priority]) (auto dest: compareTasks_le compareTasks_gt)

lemma sorted_getOverdueItems:
  "sorted_wrt (\<lambda>a b. urgencyOrder (urgency b) < urgencyOrder (urgency a) \<or>
                      (urgencyOrder (urgency b) = urgencyOrder (urgency a) \<and>
                       daysOverdue b \<le> daysOverdue a))
     (getOverdueItems now goals events)"
proof -
  have "sorted_wrt (\<lambda>a b. (urgencyOrder (urgency b), daysOverdue b) \<le> (urgencyOrder (urgency a), daysOverdue a))
          (getOverdueItems now goals events)"
    unfolding getOverdueItems_def Let_def
    by (rule sorted_sortWith[of compareOverdue "\<lambda>i. (urgencyOrder (urgency i), daysOverdue i)"])
       (auto dest: compareOverdue_le compareOverdue_gt)
  then show ?thesis
    by (rule sorted_wrt_mono_rel[rotated]) (auto simp: less_eq_prod_def)
qed

section \<open>The today list\<close>

lemma hours_le:
  "real_of_int x / (1000 * 60 * 60) \<le> 1 \<longleftrightarrow> x \<le> 3600000"
  "real_of_int x / (1000 * 60 * 60) \<le> 3 \<longleftrightarrow> x \<le> 10800000"
  "real_of_int x / (1000 * 60 * 60) \<le> 6 \<longleftrightarrow> x \<le> 21600000"
  by (simp_all add: divide_le_eq)

lemma goalTask_priority:
  "priority (goalTask now g) =
     min 10 (max 1 (5 + level g + (if isDueToday now g then 2 else 0) +
                    (if progress g > 80 then 2 else if progress g > 60 then 1 else 0)))"
  by (simp add: goalTask_def calculateGoalPriority_def isDueToday_def Let_def)

lemma eventTask_priority:
  "priority (eventTask now e) =
     min 10 (max 1 (5 + (if e_startDate e - now \<le> 3600000 then 3
                         else if e_startDate e - now \<le> 10800000 then 2
                         else if e_startDate e - now \<le> 21600000 then 1 else 0) -
                    (if allDay e then 1 else 0)))"
  by (simp add: eventTask_def calculateEventPriority_def Let_def hours_le)

lemma goalTask_original [simp]: "t_originalItem (goalTask now g) = Inl g"
  by (simp add: goalTask_def)

lemma eventTask_original [simp]: "t_originalItem (eventTask now e) = Inr e"
  by (simp add: eventTask_def)

text \<open>
  C7, amended: the today list holds exactly the active goals of level 4 that are due
  today or have no due date, and the events that start today; a goal is scored
  5 + level + 2 if due today + 2 for a progress above 80 or 1 above 60, an event
  5 + 3, 2 or 1 for a start at most 1, 3 or 6 hours ahead - 1 if it lasts all day, both
  clamped to 1..10; the list is ordered by that score, descending.
\<close>

theorem getTodayTasks_ranked:
  "mset (map t_originalItem (getTodayTasks now goals events)) =
     mset (map Inl (filter (\<lambda>g. level g = 4 \<and> status g = Active \<and>
                                 (isDueToday now g \<or> dueDate g = None)) goals)) +
     mset (map Inr (filter (\<lambda>e. isToday now (e_startDate e)) events)) \<and>
   (\<forall>t \<in> set (getTodayTasks now goals events).
      case t_originalItem t of
        Inl g \<Rightarrow>
          priority t =
            min 10 (max 1 (5 + level g + (if isDueToday now g then 2 else 0) +
                           (if progress g > 80 then 2 else if progress g > 60 then 1 else 0)))
      | Inr e \<Rightarrow>
          priority t =
            min 10 (max 1 (5 + (if e_startDate e - now \<le> 3600000 then 3
                                else if e_startDate e - now \<le> 10800000 then 2
                                else if e_startDate e - now \<le> 21600000 then 1 else 0) -
                           (if allDay e then 1 else 0)))) \<and>
   sorted_wrt (\<lambda>a b. priority b \<le> priority a) (getTodayTasks now goals events)"
proof -
  let ?gs = "filter (\<lambda>g. level g = 4 \<and> status g = Active \<and>
                          (isDueToday now g \<or> dueDate g = None)) goals"
  let ?es = "filter (\<lambda>e. isToday now (e_startDate e)) events"
  have tasks: "getTodayTasks now goals events =
                 sortWith compareTasks (map (goalTask now) ?gs @ map (eventTask now) ?es)"
    by (simp add: getTodayTasks_def Let_def)
  have m: "mset (getTodayTasks now goals events) =
             mset (map (goalTask now) ?gs) + mset (map (eventTask now) ?es)"
    by (simp add: tasks mset_sortWith)
  have "mset (map t_originalItem (getTodayTasks now goals events)) =
          image_mset t_originalItem (mset (getTodayTasks now goals events))"
    by simp
  also have "\<dots> = mset (map Inl ?gs) + mset (map Inr ?es)"
    unfolding m by (simp add: image_mset.compositionality comp_def)
  finally have items: "mset (map t_originalItem (getTodayTasks now goals events)) =
                         mset (map Inl ?gs) + mset (map Inr ?es)" .
  have s: "set (getTodayTasks now goals events) = goalTask now ` set ?gs \<union> eventTask now ` set ?es"
    by (simp add: tasks set_sortWith)
  have scored: "\<forall>t \<in> set (getTodayTasks now goals events).
      case t_originalItem t of
        Inl g \<Rightarrow>
          priority t =
            min 10 (max 1 (5 + level g + (if isDueToday now g then 2 else 0) +
                           (if progress g > 80 then 2 else if progress g > 60 then 1 else 0)))
      | Inr e \<Rightarrow>
          priority t =
            min 10 (max 1 (5 + (if e_startDate e - now \<le> 3600000 then 3
                                else if e_startDate e - now \<le> 10800000 then 2
                                else if e_startDate e - now \<le> 21600000 then 1 else 0) -
                           (if allDay e then 1 else 0)))"
    unfolding s using goalTask_priority eventTask_priority by auto
  from items scored sorted_getTodayTasks show ?thesis by blast
qed

lemmas dashboard_defs =
  getTodayTasks_def sortWith_def compareTasks_def goalTask_def eventTask_def
  calculateGoalPriority_def calculateEventPriority_def isDueToday_def isToday_def isPast_def
  getOverdueItems_def compareOverdue_def overdueGoalItem_def overdueEventItem_def
  isOverdue_def differenceInDays_def calculateUrgency_def urgencyOrder_def
  undated_def dueTodayDone_def dueToday_def lateGoal_def veryLateGoal_def sampleGoal_def
  newYearMeetingRow_def Let_def formatHHmm_def twoDigits_def orNull_def truthy_def

lemma today_example:
  "map t_id (getTodayTasks 1704100000000 [undated, dueTodayDone, dueToday] [newYearMeetingRow]) =
     [''D'', ''U'', ''E1''] \<and>
   map priority (getTodayTasks 1704100000000 [undated, dueTodayDone, dueToday] [newYearMeetingRow]) =
     [10, 9, 8] \<and>
   map dueTime (getTodayTasks 1704100000000 [undated, dueTodayDone, dueToday] [newYearMeetingRow]) =
     [None, None, Some ''09:00'']"
  by (simp add: dashboard_defs)

theorem getTodayTasks_ranked_witness:
  "map t_id (getTodayTasks 1704100000000 [undated, dueTodayDone, dueToday] [newYearMeetingRow]) =
     [''D'', ''U'', ''E1''] \<and>
   map priority (getTodayTasks 1704100000000 [undated, dueTodayDone, dueToday] [newYearMeetingRow]) =
     [10, 9, 8] \<and>
   mset (map t_originalItem
           (getTodayTasks 1704100000000 [undated, dueTodayDone, dueToday] [newYearMeetingRow])) =
     mset [Inl undated, Inl dueToday] + mset [Inr newYearMeetingRow] \<and>
   sorted_wrt (\<lambda>a b. priority b \<le> priority a)
     (getTodayTasks 1704100000000 [undated, dueTodayDone, dueToday] [newYearMeetingRow])"
proof -
  note t = getTodayTasks_ranked
             [of 1704100000000 "[undated, dueTodayDone, dueToday]" "[newYearMeetingRow]"]
  have g: "filter (\<lambda>g. level g = 4 \<and> status g = Active \<and>
                         (isDueToday 1704100000000 g \<or> dueDate g = None))
             [undated, dueTodayDone, dueToday] = [undated, dueToday]"
    by (simp add: isDueToday_def isToday_def undated_def dueTodayDone_def dueToday_def sampleGoal_def)
  have e: "filter (\<lambda>e. isToday 1704100000000 (e_startDate e)) [newYearMeetingRow] =
             [newYearMeetingRow]"
    by (simp add: isToday_def newYearMeetingRow_def)
  from t have m: "mset (map t_originalItem
           (getTodayTasks 1704100000000 [undated, dueTodayDone, dueToday] [newYearMeetingRow])) =
     mset [Inl undated, Inl dueToday] + mset [Inr newYearMeetingRow]"
    unfolding g e by simp
  from t have s: "sorted_wrt (\<lambda>a b. priority b \<le> priority a)
     (getTodayTasks 1704100000000 [undated, dueTodayDone, dueToday] [newYearMeetingRow])"
    by blast
  from today_example m s show ?thesis by blast
qed

text \<open>
  C7, as the claim words it, fails: an active goal of level 4 without a due date is not
  due today and is listed, and a completed goal of level 4 that is due today is not.
\<close>

theorem getTodayTasks_undated_listed:
  "level undated = 4 \<and> \<not> isDueToday 1704100000000 undated \<and>
   level dueTodayDone = 4 \<and> isDueToday 1704100000000 dueTodayDone \<and>
   map t_id (getTodayTasks 1704100000000 [undated, dueTodayDone] []) = [''U'']"
  by (simp add: dashboard_defs)

section \<open>The overdue list\<close>

lemma overdueGoalItem_original [simp]: "o_originalItem (overdueGoalItem now g) = Inl g"
  by (simp add: overdueGoalItem_def Let_def)

lemma overdueEventItem_original [simp]: "o_originalItem (overdueEventItem now e) = Inr e"
  by (simp add: overdueEventItem_def Let_def)

lemma isOverdue_goal:
  "isOverdue now (Inl g) \<longleftrightarrow> (case dueDate g of None \<Rightarrow> False | Some d \<Rightarrow> d < now) \<and> status g \<noteq> Completed"
  by (simp add: isOverdue_def isPast_def split: option.splits)

lemma isOverdue_event: "isOverdue now (Inr e) \<longleftrightarrow> e_endDate e < now"
  by (simp add: isOverdue_def isPast_def)

lemma differenceInDays_past: "d < now \<Longrightarrow> differenceInDays now d = (now - d) div 86400000"
  by (simp add: differenceInDays_def)

lemma overdueGoalItem_days:
  "isOverdue now (Inl g) \<Longrightarrow>
   \<exists>d. dueDate g = Some d \<and> d < now \<and> daysOverdue (overdueGoalItem now g) = (now - d) div 86400000"
  by (auto simp: isOverdue_goal overdueGoalItem_def Let_def differenceInDays_past split: option.splits)

lemma overdueEventItem_days:
  "isOverdue now (Inr e) \<Longrightarrow> daysOverdue (overdueEventItem now e) = (now - e_endDate e) div 86400000"
  by (simp add: isOverdue_event overdueEventItem_def Let_def differenceInDays_past)

lemma urgency_item:
  "urgency (overdueGoalItem now g) = calculateUrgency (daysOverdue (overdueGoalItem now g))"
  "urgency (overdueEventItem now e) = calculateUrgency (daysOverdue (overdueEventItem now e))"
  by (simp_all add: overdueGoalItem_def overdueEventItem_def Let_def)

lemma calculateUrgency_buckets:
  "(d \<le> 0 \<longrightarrow> calculateUrgency d = Low) \<and>
   (1 \<le> d \<and> d \<le> 2 \<longrightarrow> calculateUrgency d = Medium) \<and>
   (3 \<le> d \<and> d \<le> 6 \<longrightarrow> calculateUrgency d = High) \<and>
   (7 \<le> d \<longrightarrow> calculateUrgency d = Critical)"
  by (simp add: calculateUrgency_def)

text \<open>
  C6, amended: the overdue list holds exactly the goals whose due date is past and whose
  status is not completed, and the events whose end is past; an item whose deadline is not
  yet past is not listed. The days overdue of a listed item are the full days since its
  deadline, and its bucket is low for 0 days (past, but by less than a day), medium
  for 1 to 2, high for 3 to 6 and critical for 7 or more. The list is ordered by bucket
  and then by days overdue, both descending.
\<close>

theorem getOverdueItems_ranked:
  "mset (map o_originalItem (getOverdueItems now goals events)) =
     mset (map Inl (filter (\<lambda>g. (case dueDate g of None \<Rightarrow> False | Some d \<Rightarrow> d < now) \<and>
                                 status g \<noteq> Completed) goals)) +
     mset (map Inr (filter (\<lambda>e. e_endDate e < now) events)) \<and>
   (\<forall>it \<in> set (getOverdueItems now goals events).
      (case o_originalItem it of
         Inl g \<Rightarrow> g \<in> set goals \<and> status g \<noteq> Completed \<and>
                  (\<exists>d. dueDate g = Some d \<and> d < now \<and> daysOverdue it = (now - d) div 86400000)
       | Inr e \<Rightarrow> e \<in> set events \<and> e_endDate e < now \<and>
                  daysOverdue it = (now - e_endDate e) div 86400000) \<and>
      0 \<le> daysOverdue it \<and>
      (daysOverdue it = 0 \<longrightarrow> urgency it = Low) \<and>
      (1 \<le> daysOverdue it \<and> daysOverdue it \<le> 2 \<longrightarrow> urgency it = Medium) \<and>
      (3 \<le> daysOverdue it \<and> daysOverdue it \<le> 6 \<longrightarrow> urgency it = High) \<and>
      (7 \<le> daysOverdue it \<longrightarrow> urgency it = Critical)) \<and>
   sorted_wrt (\<lambda>a b. urgencyOrder (urgency b) < urgencyOrder (urgency a) \<or>
                      (urgencyOrder (urgency b) = urgencyOrder (urgency a) \<and>
                       daysOverdue b \<le> daysOverdue a))
     (getOverdueItems now goals events)"
proof -
  let ?gs = "filter (\<lambda>g. isOverdue now (Inl g)) goals"
  let ?es = "filter (\<lambda>e. isOverdue now (Inr e)) events"
  have items: "getOverdueItems now goals events =
                 sortWith compareOverdue (map (overdueGoalItem now) ?gs @ map (overdueEventItem now) ?es)"
    by (simp add: getOverdueItems_def Let_def)
  have m: "mset (getOverdueItems now goals events) =
             mset (map (overdueGoalItem now) ?gs) + mset (map (overdueEventItem now) ?es)"
    by (simp add: items mset_sortWith)
  have "mset (map o_originalItem (getOverdueItems now goals events)) =
          image_mset o_originalItem (mset (getOverdueItems now goals events))"
    by simp
  also have "\<dots> = mset (map Inl ?gs) + mset (map Inr ?es)"
    unfolding m by (simp add: image_mset.compositionality comp_def)
  finally have orig: "mset (map o_originalItem (getOverdueItems now goals events)) =
     mset (map Inl (filter (\<lambda>g. (case dueDate g of None \<Rightarrow> False | Some d \<Rightarrow> d < now) \<and>
                                 status g \<noteq> Completed) goals)) +
     mset (map Inr (filter (\<lambda>e. e_endDate e < now) events))"
    by (simp add: isOverdue_goal isOverdue_event)
  have s: "set (getOverdueItems now goals events) =
             overdueGoalItem now ` set ?gs \<union> overdueEventItem now ` set ?es"
    by (simp add: items set_sortWith)
  have each: "(case o_originalItem it of
         Inl g \<Rightarrow> g \<in> set goals \<and> status g \<noteq> Completed \<and>
                  (\<exists>d. dueDate g = Some d \<and> d < now \<and> daysOverdue it = (now - d) div 86400000)
       | Inr e \<Rightarrow> e \<in> set events \<and> e_endDate e < now \<and>
                  daysOverdue it = (now - e_endDate e) div 86400000) \<and>
      0 \<le> daysOverdue it \<and>
      (daysOverdue it = 0 \<longrightarrow> urgency it = Low) \<and>
      (1 \<le> daysOverdue it \<and> daysOverdue it \<le> 2 \<longrightarrow> urgency it = Medium) \<and>
      (3 \<le> daysOverdue it \<and> daysOverdue it \<le> 6 \<longrightarrow> urgency it = High) \<and>
      (7 \<le> daysOverdue it \<longrightarrow> urgency it = Critical)"
    if "it \<in> set (getOverdueItems now goals events)" for it
  proof -
    from that s consider
      g where "g \<in> set goals" "isOverdue now (Inl g)" "it = overdueGoalItem now g"
      | e where "e \<in> set events" "isOverdue now (Inr e)" "it = overdueEventItem now e"
      by auto
    then show ?thesis
    proof cases
      case 1
      from overdueGoalItem_days[OF 1(2)] obtain d where
        d: "dueDate g = Some d" "d < now" "daysOverdue it = (now - d) div 86400000"
        unfolding 1(3) by blast
      have nn: "0 \<le> daysOverdue it" using d by (simp add: pos_imp_zdiv_nonneg_iff)
      have st: "status g \<noteq> Completed" using 1(2) by (simp add: isOverdue_goal)
      have u: "urgency it = calculateUrgency (daysOverdue it)" unfolding 1(3) by (rule urgency_item)
      have o: "o_originalItem it = Inl g" unfolding 1(3) by simp
      show ?thesis
        using calculateUrgency_buckets[of "daysOverdue it"] nn st d 1(1)
        unfolding u o by simp
    next
      case 2
      have e: "e_endDate e < now" using 2(2) by (simp add: isOverdue_event)
      have dd: "daysOverdue it = (now - e_endDate e) div 86400000"
        unfolding 2(3) by (rule overdueEventItem_days[OF 2(2)])
      have nn: "0 \<le> daysOverdue it" using e dd by (simp add: pos_imp_zdiv_nonneg_iff)
      have u: "urgency it = calculateUrgency (daysOverdue it)" unfolding 2(3) by (rule urgency_item)
      have o: "o_originalItem it = Inr e" unfolding 2(3) by simp
      show ?thesis
        using calculateUrgency_buckets[of "daysOverdue it"] nn e dd 2(1)
        unfolding u o by simp
    qed
  qed
  from orig each sorted_getOverdueItems show ?thesis by blast
qed

lemma overdue_example:
  "map o_id (getOverdueItems 1704100000000 [lateGoal, dueTodayDone, veryLateGoal, dueToday]
               [newYearMeetingRow]) = [''V'', ''L''] \<and>
   map daysOverdue (getOverdueItems 1704100000000 [lateGoal, dueTodayDone, veryLateGoal, dueToday]
                      [newYearMeetingRow]) = [8, 3] \<and>
   map urgency (getOverdueItems 1704100000000 [lateGoal, dueTodayDone, veryLateGoal, dueToday]
                  [newYearMeetingRow]) = [Critical, High]"
  by (simp add: dashboard_defs)

theorem getOverdueItems_ranked_witness:
  "map o_id (getOverdueItems 1704100000000 [lateGoal, dueTodayDone, veryLateGoal, dueToday]
               [newYearMeetingRow]) = [''V'', ''L''] \<and>
   map daysOverdue (getOverdueItems 1704100000000 [lateGoal, dueTodayDone, veryLateGoal, dueToday]
                      [newYearMeetingRow]) = [8, 3] \<and>
   map urgency (getOverdueItems 1704100000000 [lateGoal, dueTodayDone, veryLateGoal, dueToday]
                  [newYearMeetingRow]) = [Critical, High] \<and>
   mset (map o_originalItem
           (getOverdueItems 1704100000000 [lateGoal, dueTodayDone, veryLateGoal, dueToday]
              [newYearMeetingRow])) = mset [Inl lateGoal, Inl veryLateGoal] \<and>
   sorted_wrt (\<lambda>a b. urgencyOrder (urgency b) < urgencyOrder (urgency a) \<or>
                      (urgencyOrder (urgency b) = urgencyOrder (urgency a) \<and>
                       daysOverdue b \<le> daysOverdue a))
     (getOverdueItems 1704100000000 [lateGoal, dueTodayDone, veryLateGoal, dueToday]
        [newYearMeetingRow])"
proof -
  note t = getOverdueItems_ranked
             [of 1704100000000 "[lateGoal, dueTodayDone, veryLateGoal, dueToday]" "[newYearMeetingRow]"]
  have g: "filter (\<lambda>g. (case dueDate g of None \<Rightarrow> False | Some d \<Rightarrow> d < 1704100000000) \<and>
                         status g \<noteq> Completed)
             [lateGoal, dueTodayDone, veryLateGoal, dueToday] = [lateGoal, veryLateGoal]"
    by (simp add: lateGoal_def veryLateGoal_def dueTodayDone_def dueToday_def sampleGoal_def)
  have e: "filter (\<lambda>e. e_endDate e < 1704100000000) [newYearMeetingRow] = []"
    by (simp add: newYearMeetingRow_def)
  from t have m: "mset (map o_originalItem
           (getOverdueItems 1704100000000 [lateGoal, dueTodayDone, veryLateGoal, dueToday]
              [newYearMeetingRow])) = mset [Inl lateGoal, Inl veryLateGoal]"
    unfolding g e by simp
  from t have s: "sorted_wrt (\<lambda>a b. urgencyOrder (urgency b) < urgencyOrder (urgency a) \<or>
                      (urgencyOrder (urgency b) = urgencyOrder (urgency a) \<and>
                       daysOverdue b \<le> daysOverdue a))
     (getOverdueItems 1704100000000 [lateGoal, dueTodayDone, veryLateGoal, dueToday]
        [newYearMeetingRow])"
    by blast
  from overdue_example m s show ?thesis by blast
qed

text \<open>
  C6, as the claim words it, fails: half an hour after its end the meeting is 0 days
  overdue, and it is listed, in the bucket low.
\<close>

theorem getOverdueItems_lists_zero_days:
  "e_endDate newYearMeetingRow < 1704105000000 \<and>
   map o_id (getOverdueItems 1704105000000 [] [newYearMeetingRow]) = [''E1''] \<and>
   map daysOverdue (getOverdueItems 1704105000000 [] [newYearMeetingRow]) = [0] \<and>
   map urgency (getOverdueItems 1704105000000 [] [newYearMeetingRow]) = [Low]"
  by (simp add: dashboard_defs)

section \<open>Well-formed tables\<close>

lemma getGoal_Inr: "getGoal goals i = Inr g \<Longrightarrow> g \<in> set goals \<and> gid g = i"
proof -
  assume "getGoal goals i = Inr g"
  then have "filter (\<lambda>r. gid r = i) goals = [g]"
    by (simp add: getGoal_def single_Inr)
  then have "g \<in> set (filter (\<lambda>r. gid r = i) goals)" by simp
  then show ?thesis by simp
qed

lemma orNull_Some: "orNull v = Some p \<Longrightarrow> v = Some p"
  by (simp add: orNull_def split: if_splits)

lemma filter_gid_distinct:
  assumes "distinct (map gid goals)" "g \<in> set goals"
  shows "filter (\<lambda>x. gid x = gid g) goals = [g]"
  using assms
proof (induction goals)
  case Nil
  then show ?case by simp
next
  case (Cons a goals)
  show ?case
  proof (cases "a = g")
    case True
    have "gid g \<notin> gid ` set goals" using Cons.prems(1) True by simp
    then have "\<forall>x\<in>set goals. gid x \<noteq> gid g" by (metis image_eqI)
    then have "filter (\<lambda>x. gid x = gid g) goals = []" by (simp add: filter_empty_conv)
    then show ?thesis using True by simp
  next
    case False
    then have g: "g \<in> set goals" using Cons.prems(2) by simp
    have "gid a \<notin> gid ` set goals" using Cons.prems(1) by simp
    then have "gid a \<noteq> gid g" using g by (metis image_eqI)
    then show ?thesis using Cons.IH g Cons.prems(1) by simp
  qed
qed

lemma filter_gid_map:
  assumes "\<forall>x\<in>set goals. gid (F x) = gid x"
  shows "filter (\<lambda>x. gid x = i) (map F goals) = map F (filter (\<lambda>x. gid x = i) goals)"
  using assms by (induction goals) auto

lemma wellFormed_row:
  assumes "wellFormed goals" "g \<in> set goals"
  shows "acceptRow goals g = None" "filter (\<lambda>x. gid x = gid g) goals = [g]"
    "getGoal goals (gid g) = Inr g"
proof -
  show "acceptRow goals g = None" using assms by (simp add: wellFormed_def list_all_iff)
  show f: "filter (\<lambda>x. gid x = gid g) goals = [g]"
    using assms by (simp add: wellFormed_def filter_gid_distinct)
  show "getGoal goals (gid g) = Inr g" by (simp add: getGoal_def f single_def)
qed

lemma acceptRow_None:
  assumes "acceptRow goals g = None"
  shows "validate_goal_hierarchy goals g = None" "goals_check g = None"
    "goals_parent_fkey goals g = None"
  using assms by (auto simp: acceptRow_def split: option.splits)

lemma goals_check_None:
  assumes "goals_check g = None"
  shows "1 \<le> level g" "level g \<le> 4" "0 \<le> progress g" "progress g \<le> 100"
  using assms by (auto simp: goals_check_def split: if_splits)

lemma goals_check_rewritten:
  assumes "goals_check g = None" "rewritten g g'"
  shows "goals_check g' = None"
  using assms by (auto simp: goals_check_def rewritten_def split: if_splits)

lemma wellFormed_parent:
  assumes "wellFormed goals" "g \<in> set goals" "parentId g = Some p"
  shows "\<exists>parent. parent \<in> set goals \<and> gid parent = p \<and> level g = level parent + 1"
proof -
  note a = acceptRow_None[OF wellFormed_row(1)[OF assms(1,2)]]
  from a(3) assms(3) have "list_ex (\<lambda>x. gid x = p) goals"
    by (auto simp: goals_parent_fkey_def split: if_splits)
  then obtain parent where parent: "parent \<in> set goals" "gid parent = p"
    by (auto simp: list_ex_iff)
  from wellFormed_row(2)[OF assms(1) parent(1)] parent(2)
  have f: "filter (\<lambda>x. gid x = p) goals = [parent]" by simp
  from a(1) assms(3) f have "level g = level parent + 1"
    by (auto simp: validate_goal_hierarchy_def split: if_splits)
  with parent show ?thesis by blast
qed

lemma acceptRow_rewritten:
  assumes "acceptRow goals g = None" "rewritten g g'"
    and "\<forall>x\<in>set goals. gid (F x) = gid x \<and> level (F x) = level x"
  shows "acceptRow (map F goals) g' = None"
proof -
  note a = acceptRow_None[OF assms(1)]
  have r: "gid g' = gid g" "parentId g' = parentId g" "level g' = level g"
    using assms(2) by (simp_all add: rewritten_def)
  have f: "filter (\<lambda>x. gid x = p) (map F goals) = map F (filter (\<lambda>x. gid x = p) goals)" for p
    using assms(3) by (intro filter_gid_map) simp
  have lv: "\<forall>x\<in>set (filter (\<lambda>x. gid x = p) goals). level (F x) = level x" for p
    using assms(3) by simp
  have v: "validate_goal_hierarchy (map F goals) g' = None"
  proof (cases "parentId g")
    case None
    then show ?thesis using a(1) r by (simp add: validate_goal_hierarchy_def)
  next
    case (Some p)
    show ?thesis
    proof (cases "filter (\<lambda>x. gid x = p) goals")
      case Nil
      then show ?thesis using Some r by (simp add: validate_goal_hierarchy_def f)
    next
      case (Cons parent rest)
      then have "level (F parent) = level parent" using lv[of p] by simp
      then show ?thesis using a(1) Some r Cons
        by (simp add: validate_goal_hierarchy_def f split: if_splits)
    qed
  qed
  have c: "goals_check g' = None" by (rule goals_check_rewritten[OF a(2) assms(2)])
  have ex: "list_ex (\<lambda>x. gid x = p) (map F goals) = list_ex (\<lambda>x. gid x = p) goals" for p
    using assms(3) by (induction goals) simp_all
  have k: "goals_parent_fkey (map F goals) g' = None"
  proof (cases "parentId g")
    case None
    then show ?thesis using r by (simp add: goals_parent_fkey_def)
  next
    case (Some p)
    then have "list_ex (\<lambda>x. gid x = p) goals"
      using a(3) by (simp add: goals_parent_fkey_def split: if_splits)
    then show ?thesis using Some r by (simp add: goals_parent_fkey_def ex)
  qed
  from v c k show ?thesis by (simp add: acceptRow_def)
qed

lemma acceptRow_rewritten_same:
  assumes "acceptRow goals g = None" "rewritten g g'"
  shows "acceptRow goals g' = None"
  using acceptRow_rewritten[OF assms, of id] by simp

lemma rewritten_refl:
  assumes "goals_check g = None"
  shows "rewritten g g"
  using goals_check_None[OF assms] by (simp add: rewritten_def)

lemma wellFormed_map:
  assumes "wellFormed goals" and "\<forall>g\<in>set goals. F g = g \<or> rewritten g (F g)"
  shows "wellFormed (map F goals)"
proof -
  have rw: "rewritten g (F g)" if "g \<in> set goals" for g
  proof -
    have "goals_check g = None"
      using acceptRow_None(2)[OF wellFormed_row(1)[OF assms(1) that]] .
    then show ?thesis using assms(2) that rewritten_refl by fastforce
  qed
  then have same: "\<forall>x\<in>set goals. gid (F x) = gid x \<and> level (F x) = level x"
    by (simp add: rewritten_def)
  have meq: "map gid (map F goals) = map gid goals" using same by simp
  have d: "distinct (map gid (map F goals))"
    unfolding meq using assms(1) by (simp add: wellFormed_def)
  have "acceptRow (map F goals) (F g) = None" if "g \<in> set goals" for g
    using acceptRow_rewritten[OF wellFormed_row(1)[OF assms(1) that] rw[OF that] same] .
  then show ?thesis using d by (simp add: wellFormed_def list_all_iff)
qed

lemma calculate_parent_goal_progress_range:
  assumes "\<forall>g\<in>set goals. 0 \<le> progress g \<and> progress g \<le> 100"
  shows "0 \<le> calculate_parent_goal_progress goals p \<and> calculate_parent_goal_progress goals p \<le> 100"
proof -
  define rows where "rows = filter (\<lambda>g. parentId g = Some p \<and> status g = Active) goals"
  have r: "\<forall>x\<in>set (map progress rows). 0 \<le> x \<and> x \<le> (100::real)"
    using assms by (auto simp: rows_def)
  have s: "0 \<le> sum_list (map progress rows)"
    "sum_list (map progress rows) \<le> 100 * of_nat (length (map progress rows))"
    using r by (induction rows) (auto simp: algebra_simps)
  show ?thesis
  proof (cases "rows = []")
    case True
    then show ?thesis by (simp add: calculate_parent_goal_progress_def rows_def[symmetric])
  next
    case False
    then have "0 < real (length rows)" by simp
    then show ?thesis using s False
      by (simp add: calculate_parent_goal_progress_def rows_def[symmetric] divide_le_eq)
  qed
qed

lemma wellFormed_progress:
  assumes "wellFormed goals"
  shows "\<forall>g\<in>set goals. 0 \<le> progress g \<and> progress g \<le> 100"
  using goals_check_None(3,4)[OF acceptRow_None(2)[OF wellFormed_row(1)[OF assms]]] by blast

lemma acyclicBy_edges:
  assumes "acyclicBy rank goals"
    and "map (\<lambda>g. (gid g, parentId g)) goals1 = map (\<lambda>g. (gid g, parentId g)) goals"
  shows "acyclicBy rank goals1"
proof -
  let ?Q = "\<lambda>(i, v). case v of None \<Rightarrow> True | Some p \<Rightarrow> rank p < rank i"
  have eq: "acyclicBy rank gs = list_all ?Q (map (\<lambda>g. (gid g, parentId g)) gs)" for gs
    by (simp add: acyclicBy_def list_all_iff)
  show ?thesis using assms unfolding eq by simp
qed

lemma acyclicBy_parent:
  "acyclicBy rank goals \<Longrightarrow> g \<in> set goals \<Longrightarrow> parentId g = Some p \<Longrightarrow> rank p < rank (gid g)"
  by (auto simp: acyclicBy_def list_all_iff)

lemma isAncestor_rank:
  assumes "acyclicBy rank goals" and "isAncestor goals a c"
  shows "rank a < rank c"
  using assms(2)
proof (induction rule: isAncestor.induct)
  case (parent g a)
  then show ?case using acyclicBy_parent[OF assms(1)] by blast
next
  case (above a b g)
  then show ?case using acyclicBy_parent[OF assms(1), of g b] by simp
qed

lemma wellFormed_acyclic:
  assumes "wellFormed goals"
  shows "acyclicBy (\<lambda>i. case getGoal goals i of Inl e \<Rightarrow> 0 | Inr g \<Rightarrow> nat (level g)) goals"
proof -
  let ?rank = "\<lambda>i. case getGoal goals i of Inl e \<Rightarrow> 0 | Inr g \<Rightarrow> nat (level g)"
  have "?rank p < ?rank (gid r)" if r: "r \<in> set goals" and p: "parentId r = Some p" for r p
  proof -
    obtain parent where parent: "parent \<in> set goals" "gid parent = p" "level r = level parent + 1"
      using wellFormed_parent[OF assms r p] by blast
    have "1 \<le> level parent"
      using goals_check_None(1)[OF acceptRow_None(2)[OF wellFormed_row(1)[OF assms parent(1)]]] .
    moreover have "?rank p = nat (level parent)"
      using wellFormed_row(3)[OF assms parent(1)] parent(2) by simp
    moreover have "?rank (gid r) = nat (level r)"
      using wellFormed_row(3)[OF assms r] by simp
    ultimately show ?thesis using parent(3) by simp
  qed
  then show ?thesis by (auto simp: acyclicBy_def list_all_iff split: option.splits)
qed

lemma wellFormed_not_own_ancestor:
  assumes "wellFormed goals"
  shows "\<not> isAncestor goals a a"
proof
  assume "isAncestor goals a a"
  from isAncestor_rank[OF wellFormed_acyclic[OF assms] this] show False by simp
qed


lemma isAncestor_shape:
  assumes "isAncestor goals1 a c"
    and e: "map (\<lambda>g. (gid g, parentId g, level g)) goals1 = map (\<lambda>g. (gid g, parentId g, level g)) goals"
  shows "isAncestor goals a c"
  using assms(1)
proof (induction rule: isAncestor.induct)
  case (parent g a)
  then have "(gid g, Some a, level g) \<in> set (map (\<lambda>g. (gid g, parentId g, level g)) goals1)" by force
  then obtain g' where "g' \<in> set goals" "gid g' = gid g" "parentId g' = Some a"
    unfolding e by auto
  then show ?case using isAncestor.parent[of g' goals a] by simp
next
  case (above a b g)
  then have "(gid g, Some b, level g) \<in> set (map (\<lambda>g. (gid g, parentId g, level g)) goals1)" by force
  then obtain g' where "g' \<in> set goals" "gid g' = gid g" "parentId g' = Some b"
    unfolding e by auto
  then show ?case using isAncestor.above[of goals a b g'] above.IH by simp
qed

lemma shape_map:
  assumes "\<forall>g\<in>set goals. F g = g \<or> rewritten g (F g)"
  shows "map (\<lambda>g. (gid g, parentId g, level g)) (map F goals) = map (\<lambda>g. (gid g, parentId g, level g)) goals"
proof -
  have "(gid (F g), parentId (F g), level (F g)) = (gid g, parentId g, level g)" if "g \<in> set goals" for g
    using assms that by (auto simp: rewritten_def)
  then show ?thesis by simp
qed

lemma rewritten_setParentProgress:
  assumes "0 \<le> pp" "pp \<le> 100"
  shows "rewritten g ((setParentProgress pp now g)\<lparr>updatedAt := now\<rparr>)"
  using numeric_5_2_range[OF assms] by (simp add: rewritten_def setParentProgress_def)

lemma trigger_ok:
  assumes "wellFormed goals" "NEW \<in> set goals" "nat (level NEW) \<le> depth"
  shows "\<exists>goals'. update_parent_goal_progress depth now goals OLD NEW = Inr goals' \<and>
           wellFormed goals' \<and>
           map (\<lambda>g. (gid g, parentId g, level g)) goals' = map (\<lambda>g. (gid g, parentId g, level g)) goals \<and>
           (\<forall>h\<in>set goals. \<not> isAncestor goals (gid h) (gid NEW) \<longrightarrow> h \<in> set goals')"
  using assms
proof (induction depth arbitrary: goals OLD NEW)
  case 0
  have "1 \<le> level NEW"
    using goals_check_None(1)[OF acceptRow_None(2)[OF wellFormed_row(1)[OF 0(1,2)]]] .
  with 0(3) show ?case by simp
next
  case (Suc depth)
  show ?case
  proof (cases "parentId NEW")
    case None
    then show ?thesis using Suc.prems(1) by simp
  next
    case (Some p)
    show ?thesis
    proof (cases "(case OLD of None \<Rightarrow> True
                   | Some old \<Rightarrow> progress NEW \<noteq> progress old \<or> status NEW \<noteq> status old)")
      case False
      then show ?thesis using Some Suc.prems(1) by simp
    next
      case True
      obtain parent where parent: "parent \<in> set goals" "gid parent = p" "level NEW = level parent + 1"
        using wellFormed_parent[OF Suc.prems(1,2) Some] by blast
      define pp where "pp = calculate_parent_goal_progress goals p"
      define patch where "patch = (\<lambda>g. (setParentProgress pp now g)\<lparr>updatedAt := now\<rparr>)"
      define F where "F = (\<lambda>g. if gid g = p then patch g else g)"
      have ppr: "0 \<le> pp" "pp \<le> 100"
        using calculate_parent_goal_progress_range[OF wellFormed_progress[OF Suc.prems(1)], of p]
        by (simp_all add: pp_def)
      have rw: "rewritten g (patch g)" for g
        unfolding patch_def by (rule rewritten_setParentProgress[OF ppr])
      have f: "filter (\<lambda>g. gid g = p) goals = [parent]"
        using wellFormed_row(2)[OF Suc.prems(1) parent(1)] parent(2) by simp
      have acc: "acceptRow goals (patch parent) = None"
        by (rule acceptRow_rewritten_same[OF wellFormed_row(1)[OF Suc.prems(1) parent(1)] rw])
      have u: "updateRows goals p patch = Inr (map F goals, [patch parent])"
        by (simp add: updateRows_def f acc List.map_filter_simps F_def)
      have Frw: "\<forall>g\<in>set goals. F g = g \<or> rewritten g (F g)"
        using rw by (simp add: F_def)
      have wf1: "wellFormed (map F goals)" by (rule wellFormed_map[OF Suc.prems(1) Frw])
      have "F parent = patch parent" using parent(2) by (simp add: F_def)
      then have new_in: "patch parent \<in> set (map F goals)" using parent(1) by force
      have "level (patch parent) = level parent" using rw[of parent] by (simp add: rewritten_def)
      moreover have "1 \<le> level parent"
        using goals_check_None(1)[OF acceptRow_None(2)[OF wellFormed_row(1)[OF Suc.prems(1) parent(1)]]] .
      ultimately have lvl: "nat (level (patch parent)) \<le> depth"
        using Suc.prems(3) parent(3) by simp
      from Suc.IH[OF wf1 new_in lvl, of "Some parent"] obtain goals' where
        r: "update_parent_goal_progress depth now (map F goals) (Some parent) (patch parent) = Inr goals'"
        and wf': "wellFormed goals'"
        and sh': "map (\<lambda>g. (gid g, parentId g, level g)) goals' = map (\<lambda>g. (gid g, parentId g, level g)) (map F goals)"
        and fr': "\<forall>h\<in>set (map F goals). \<not> isAncestor (map F goals) (gid h) (gid (patch parent)) \<longrightarrow> h \<in> set goals'"
        by blast
      have sh1: "map (\<lambda>g. (gid g, parentId g, level g)) (map F goals) = map (\<lambda>g. (gid g, parentId g, level g)) goals"
        by (rule shape_map[OF Frw])
      have step: "update_parent_goal_progress (Suc depth) now goals OLD NEW = Inr goals'"
        using Some True u[unfolded patch_def pp_def] f r[unfolded patch_def pp_def]
        by (simp add: Let_def)
      have gp: "gid (patch parent) = p" using rw[of parent] parent(2) by (simp add: rewritten_def)
      have anc: "isAncestor goals p (gid NEW)"
        by (rule isAncestor.parent[OF Suc.prems(2) Some])
      have frame: "h \<in> set goals'" if h: "h \<in> set goals" and n: "\<not> isAncestor goals (gid h) (gid NEW)" for h
      proof -
        have "gid h \<noteq> p" using anc n by auto
        then have "F h = h" by (simp add: F_def)
        then have 1: "h \<in> set (map F goals)" using h by force
        have 2: "\<not> isAncestor (map F goals) (gid h) (gid (patch parent))"
          unfolding gp
        proof
          assume "isAncestor (map F goals) (gid h) p"
          then have "isAncestor goals (gid h) p" by (rule isAncestor_shape[OF _ sh1])
          then have "isAncestor goals (gid h) (gid NEW)"
            by (rule isAncestor.above[OF _ Suc.prems(2) Some])
          with n show False by simp
        qed
        from fr' 1 2 show ?thesis by blast
      qed
      from step wf' sh' sh1 frame show ?thesis by simp
    qed
  qed
qed

lemma rewritten_goalData:
  "rewritten g ((goalData ((noChange i)\<lparr>u_progress := Some x, u_status := Some st\<rparr>) now g)\<lparr>updatedAt := now\<rparr>)"
proof -
  have "0 \<le> min 100 (max 0 (toDouble x))" "min 100 (max 0 (toDouble x)) \<le> 100" by simp_all
  from numeric_5_2_of_double_range[OF this] show ?thesis
    by (auto simp: rewritten_def goalData_def noChange_def Let_def)
qed

lemma updateGoal_ok:
  assumes wf: "wellFormed goals" and old: "old \<in> set goals" and lvl: "nat (level old) \<le> depth"
    and inp: "inp = (noChange (gid old))\<lparr>u_progress := Some x, u_status := Some st\<rparr>"
  shows "\<exists>goals' row. updateGoal depth now goals inp = Inr (goals', row) \<and>
           wellFormed goals' \<and>
           map (\<lambda>g. (gid g, parentId g, level g)) goals' = map (\<lambda>g. (gid g, parentId g, level g)) goals \<and>
           (\<forall>h\<in>set goals. gid h \<noteq> gid old \<longrightarrow> \<not> isAncestor goals (gid h) (gid old) \<longrightarrow> h \<in> set goals') \<and>
           getGoal goals' (gid old) = Inr row"
proof -
  define patch where "patch = (\<lambda>row. (goalData inp now row)\<lparr>updatedAt := now\<rparr>)"
  define F where "F = (\<lambda>g. if gid g = gid old then patch g else g)"
  have id: "u_id inp = gid old" by (simp add: inp noChange_def)
  have ne: "\<not> goalDataEmpty inp" by (simp add: inp goalDataEmpty_def)
  have rw: "rewritten g (patch g)" for g
    unfolding patch_def inp by (rule rewritten_goalData)
  have f: "filter (\<lambda>g. gid g = gid old) goals = [old]" by (rule wellFormed_row(2)[OF wf old])
  have acc: "acceptRow goals (patch old) = None"
    by (rule acceptRow_rewritten_same[OF wellFormed_row(1)[OF wf old] rw])
  have u: "updateRows goals (gid old) patch = Inr (map F goals, [patch old])"
    by (simp add: updateRows_def f acc List.map_filter_simps F_def)
  have Frw: "\<forall>g\<in>set goals. F g = g \<or> rewritten g (F g)"
    using rw by (simp add: F_def)
  have wf1: "wellFormed (map F goals)" by (rule wellFormed_map[OF wf Frw])
  have "F old = patch old" by (simp add: F_def)
  then have new_in: "patch old \<in> set (map F goals)" using old by force
  have gp: "gid (patch old) = gid old" "level (patch old) = level old"
    using rw[of old] by (simp_all add: rewritten_def)
  have lvl': "nat (level (patch old)) \<le> depth" using lvl gp by simp
  from trigger_ok[OF wf1 new_in lvl', of now "Some old"] obtain goals' where
    r: "update_parent_goal_progress depth now (map F goals) (Some old) (patch old) = Inr goals'"
    and wf': "wellFormed goals'"
    and sh': "map (\<lambda>g. (gid g, parentId g, level g)) goals' = map (\<lambda>g. (gid g, parentId g, level g)) (map F goals)"
    and fr': "\<forall>h\<in>set (map F goals). \<not> isAncestor (map F goals) (gid h) (gid (patch old)) \<longrightarrow> h \<in> set goals'"
    by blast
  have sh1: "map (\<lambda>g. (gid g, parentId g, level g)) (map F goals) = map (\<lambda>g. (gid g, parentId g, level g)) goals"
    by (rule shape_map[OF Frw])
  have res: "updateGoal depth now goals inp = Inr (goals', patch old)"
    using ne id u[unfolded patch_def] f r[unfolded patch_def]
    by (simp add: updateGoal_def single_def patch_def)
  have frame: "h \<in> set goals'"
    if h: "h \<in> set goals" and d: "gid h \<noteq> gid old" and n: "\<not> isAncestor goals (gid h) (gid old)" for h
  proof -
    have "F h = h" using d by (simp add: F_def)
    then have 1: "h \<in> set (map F goals)" using h by force
    have 2: "\<not> isAncestor (map F goals) (gid h) (gid (patch old))"
      unfolding gp using n isAncestor_shape[OF _ sh1] by blast
    from fr' 1 2 show ?thesis by blast
  qed
  have "\<not> isAncestor (map F goals) (gid (patch old)) (gid (patch old))"
    by (rule wellFormed_not_own_ancestor[OF wf1])
  with fr' new_in have "patch old \<in> set goals'" by blast
  from wellFormed_row(3)[OF wf' this] have stored: "getGoal goals' (gid old) = Inr (patch old)"
    by (simp add: gp)
  from res wf' sh' sh1 frame stored show ?thesis by simp
qed

lemma shape_member:
  assumes "map (\<lambda>g. (gid g, parentId g, level g)) goals1 = map (\<lambda>g. (gid g, parentId g, level g)) goals"
    and "g \<in> set goals"
  shows "\<exists>g1\<in>set goals1. gid g1 = gid g \<and> parentId g1 = parentId g \<and> level g1 = level g"
proof -
  have "(gid g, parentId g, level g) \<in> set (map (\<lambda>g. (gid g, parentId g, level g)) goals)"
    using assms(2) by force
  then have "(gid g, parentId g, level g) \<in> set (map (\<lambda>g. (gid g, parentId g, level g)) goals1)"
    by (simp only: assms(1))
  then show ?thesis by auto
qed

lemma chain_ok:
  assumes "wellFormed goals" "c \<in> set goals" "nat (level c) \<le> fuel" "4 \<le> depth"
  shows "\<exists>goals' ups stop.
           updateParentProgressChain fuel depth now goals (gid c) = Some (Inr goals') \<and>
           propagation depth now goals (gid c) goals' ups stop \<and>
           wellFormed goals' \<and>
           map (\<lambda>g. (gid g, parentId g, level g)) goals' = map (\<lambda>g. (gid g, parentId g, level g)) goals \<and>
           (\<forall>a\<in>set ups. isAncestor goals a (gid c)) \<and>
           (\<forall>h\<in>set goals. \<not> isAncestor goals (gid h) (gid c) \<longrightarrow> h \<in> set goals')"
  using assms
proof (induction fuel arbitrary: goals c)
  case 0
  have "1 \<le> level c"
    using goals_check_None(1)[OF acceptRow_None(2)[OF wellFormed_row(1)[OF 0(1,2)]]] .
  with 0(3) show ?case by simp
next
  case (Suc fuel)
  note wf = Suc.prems(1) and c = Suc.prems(2)
  have gc: "getGoal goals (gid c) = Inr c" by (rule wellFormed_row(3)[OF wf c])
  show ?case
  proof (cases "orNull (parentId c)")
    case None
    have "updateParentProgressChain (Suc fuel) depth now goals (gid c) = Some (Inr goals)"
      using gc None by simp
    moreover have "propagation depth now goals (gid c) goals [] None"
      by (rule propagation.at_root[OF gc None])
    ultimately show ?thesis using wf
      by (intro exI[of _ goals] exI[of _ "[]"] exI[of _ None]) simp
  next
    case (Some p)
    then have pc: "parentId c = Some p" by (rule orNull_Some)
    obtain parent where parent: "parent \<in> set goals" "gid parent = p" "level c = level parent + 1"
      using wellFormed_parent[OF wf c pc] by blast
    have gp: "getGoal goals p = Inr parent"
      using wellFormed_row(3)[OF wf parent(1)] parent(2) by simp
    have anc: "isAncestor goals p (gid c)" by (rule isAncestor.parent[OF c pc])
    define np where "np = calculateParentProgress goals p"
    show ?thesis
    proof (cases "\<bar>toDouble (toDouble (progress parent) - np)\<bar> > toDouble (1 / 100)")
      case False
      have "updateParentProgressChain (Suc fuel) depth now goals (gid c) = Some (Inr goals)"
        using gc Some gp False by (simp add: np_def Let_def)
      moreover have "propagation depth now goals (gid c) goals [] (Some p)"
        using False by (intro propagation.within_epsilon[OF gc Some gp]) (simp add: np_def)
      ultimately show ?thesis using wf
        by (intro exI[of _ goals] exI[of _ "[]"] exI[of _ "Some p"]) simp
    next
      case True
      define st where "st = (if np = 100 then Completed
                             else if status parent = Completed \<and> np < 100 then Active
                             else status parent)"
      define inp where "inp = (noChange p)\<lparr>u_progress := Some np, u_status := Some st\<rparr>"
      have lp: "1 \<le> level parent" "level parent \<le> 4"
        using goals_check_None(1,2)[OF acceptRow_None(2)[OF wellFormed_row(1)[OF wf parent(1)]]] .
      have lvl: "nat (level parent) \<le> depth" using lp Suc.prems(4) by simp
      have inp': "inp = (noChange (gid parent))\<lparr>u_progress := Some np, u_status := Some st\<rparr>"
        by (simp add: inp_def parent(2))
      from updateGoal_ok[OF wf parent(1) lvl inp', of now] obtain goals1 row where
        u: "updateGoal depth now goals inp = Inr (goals1, row)"
        and wf1: "wellFormed goals1"
        and sh1: "map (\<lambda>g. (gid g, parentId g, level g)) goals1 = map (\<lambda>g. (gid g, parentId g, level g)) goals"
        and fr1: "\<forall>h\<in>set goals. gid h \<noteq> gid parent \<longrightarrow> \<not> isAncestor goals (gid h) (gid parent) \<longrightarrow> h \<in> set goals1"
        by blast
      from shape_member[OF sh1 parent(1)] obtain c1 where
        c1: "c1 \<in> set goals1" "gid c1 = p" "level c1 = level parent"
        using parent(2) by auto
      have l1: "nat (level c1) \<le> fuel" using c1(3) parent(3) lp Suc.prems(3) by simp
      from Suc.IH[OF wf1 c1(1) l1 Suc.prems(4)] obtain goals' ups stop where
        r: "updateParentProgressChain fuel depth now goals1 p = Some (Inr goals')"
        and pr: "propagation depth now goals1 p goals' ups stop"
        and wf': "wellFormed goals'"
        and sh': "map (\<lambda>g. (gid g, parentId g, level g)) goals' = map (\<lambda>g. (gid g, parentId g, level g)) goals1"
        and an': "\<forall>a\<in>set ups. isAncestor goals1 a p"
        and fr': "\<forall>h\<in>set goals1. \<not> isAncestor goals1 (gid h) p \<longrightarrow> h \<in> set goals'"
        unfolding c1(2) by blast
      have run: "updateParentProgressChain (Suc fuel) depth now goals (gid c) = Some (Inr goals')"
        using gc Some gp True u[unfolded inp_def st_def np_def] r
        by (simp add: np_def Let_def)
      have walk: "propagation depth now goals (gid c) goals' (p # ups) stop"
      proof (rule propagation.climb[OF gc Some gp _ _ _ u pr])
        show "toDouble (1 / 100) < \<bar>toDouble (toDouble (progress parent) - calculateParentProgress goals p)\<bar>"
          using True by (simp add: np_def)
        show "u_id inp = p" by (simp add: inp_def noChange_def)
        show "u_progress inp = Some (calculateParentProgress goals p)" by (simp add: inp_def np_def)
      qed
      have up: "isAncestor goals a (gid c)" if "isAncestor goals a p" for a
        using that by (rule isAncestor.above[OF _ c pc])
      have ancs: "\<forall>a\<in>set (p # ups). isAncestor goals a (gid c)"
        using anc an' isAncestor_shape[OF _ sh1] up by auto
      have frame: "h \<in> set goals'" if h: "h \<in> set goals" and n: "\<not> isAncestor goals (gid h) (gid c)" for h
      proof -
        have 1: "gid h \<noteq> gid parent" using anc n parent(2) by auto
        have 2: "\<not> isAncestor goals (gid h) p" using n up by blast
        from fr1 h 1 2 parent(2) have 3: "h \<in> set goals1" by simp
        have "\<not> isAncestor goals1 (gid h) p" using 2 isAncestor_shape[OF _ sh1] by blast
        with fr' 3 show ?thesis by blast
      qed
      have sh: "map (\<lambda>g. (gid g, parentId g, level g)) goals' = map (\<lambda>g. (gid g, parentId g, level g)) goals"
        using sh' sh1 by simp
      from run walk wf' sh ancs frame show ?thesis by blast
    qed
  qed
qed

lemma edges_map:
  assumes "\<And>g. gid (patch g) = gid g" "\<And>g. parentId (patch g) = parentId g"
  shows "map (\<lambda>g. (gid g, parentId g)) (map (\<lambda>g. if gid g = i then patch g else g) goals)
         = map (\<lambda>g. (gid g, parentId g)) goals"
  using assms by (induction goals) simp_all

lemma trigger_edges:
  assumes "update_parent_goal_progress depth now goals OLD NEW = Inr goals'"
  shows "map (\<lambda>g. (gid g, parentId g)) goals' = map (\<lambda>g. (gid g, parentId g)) goals"
  using assms
proof (induction depth arbitrary: goals OLD NEW)
  case 0
  then show ?case by simp
next
  case (Suc depth)
  show ?case
  proof (cases "parentId NEW")
    case None
    then show ?thesis using Suc.prems by simp
  next
    case (Some p)
    show ?thesis
    proof (cases "(case OLD of None \<Rightarrow> True
                   | Some old \<Rightarrow> progress NEW \<noteq> progress old \<or> status NEW \<noteq> status old)")
      case False
      then show ?thesis using Some Suc.prems by simp
    next
      case True
      define patch where "patch = (\<lambda>g. (setParentProgress (calculate_parent_goal_progress goals p) now g)\<lparr>updatedAt := now\<rparr>)"
      from Suc.prems Some True obtain goals1 rows where
        u: "updateRows goals p patch = Inr (goals1, rows)"
        by (auto simp: Let_def patch_def split: sum.splits)
      have e1: "map (\<lambda>g. (gid g, parentId g)) goals1 = map (\<lambda>g. (gid g, parentId g)) goals"
        unfolding updateRows_Inr(2)[OF u]
        by (rule edges_map) (simp_all add: patch_def setParentProgress_def)
      have step: "update_parent_goal_progress (Suc depth) now goals OLD NEW =
          (case zip (filter (\<lambda>g. gid g = p) goals) rows of
             [] \<Rightarrow> Inr goals1
           | (old, new) # _ \<Rightarrow> update_parent_goal_progress depth now goals1 (Some old) new)"
        using Some True u[unfolded patch_def] by (simp add: Let_def)
      show ?thesis
      proof (cases "zip (filter (\<lambda>g. gid g = p) goals) rows")
        case Nil
        have "goals' = goals1" using Suc.prems unfolding step Nil by simp
        then show ?thesis using e1 by simp
      next
        case (Cons pr rest)
        obtain old new where pr: "pr = (old, new)" by (cases pr)
        have "update_parent_goal_progress depth now goals1 (Some old) new = Inr goals'"
          using Suc.prems unfolding step Cons pr by simp
        from Suc.IH[OF this] e1 show ?thesis by simp
      qed
    qed
  qed
qed

lemma updateGoal_edges:
  assumes "updateGoal depth now goals inp = Inr (goals1, row)"
  shows "map (\<lambda>g. (gid g, parentId g)) goals1 = map (\<lambda>g. (gid g, parentId g)) goals"
proof -
  from updateGoal_Inr[OF assms] obtain old where
    t: "update_parent_goal_progress depth now
          (map (\<lambda>g. if gid g = u_id inp then (goalData inp now g)\<lparr>updatedAt := now\<rparr> else g) goals)
          (Some old) row = Inr goals1"
    by blast
  have "map (\<lambda>g. (gid g, parentId g))
          (map (\<lambda>g. if gid g = u_id inp then (goalData inp now g)\<lparr>updatedAt := now\<rparr> else g) goals)
        = map (\<lambda>g. (gid g, parentId g)) goals"
    by (rule edges_map) simp_all
  with trigger_edges[OF t] show ?thesis by simp
qed

lemma chain_returns:
  assumes "acyclicBy rank goals" "rank goalId < fuel"
  shows "\<exists>res. updateParentProgressChain fuel depth now goals goalId = Some res"
  using assms
proof (induction fuel arbitrary: goals goalId)
  case 0
  then show ?case by simp
next
  case (Suc fuel)
  show ?case
  proof (cases "getGoal goals goalId")
    case (Inl e)
    then show ?thesis by simp
  next
    case (Inr goal)
    note g = getGoal_Inr[OF Inr]
    show ?thesis
    proof (cases "orNull (parentId goal)")
      case None
      then show ?thesis using Inr by simp
    next
      case (Some p)
      have "rank p < rank goalId"
        using acyclicBy_parent[OF Suc.prems(1) _ orNull_Some[OF Some]] g by blast
      then have rp: "rank p < fuel" using Suc.prems(2) by simp
      show ?thesis
      proof (cases "getGoal goals p")
        case (Inl e)
        then show ?thesis using Inr Some by (simp add: Let_def)
      next
        case parent: (Inr parent)
        define np where "np = calculateParentProgress goals p"
        define inp where "inp = (noChange p)\<lparr>u_progress := Some np,
          u_status := Some (if np = 100 then Completed
                            else if status parent = Completed \<and> np < 100 then Active
                            else status parent)\<rparr>"
        show ?thesis
        proof (cases "\<bar>toDouble (toDouble (progress parent) - np)\<bar> > toDouble (1 / 100)")
          case False
          then show ?thesis using Inr Some parent by (simp add: Let_def np_def)
        next
          case True
          have step: "updateParentProgressChain (Suc fuel) depth now goals goalId =
              (case updateGoal depth now goals inp of
                 Inl e \<Rightarrow> Some (Inl e)
               | Inr (goals', _) \<Rightarrow> updateParentProgressChain fuel depth now goals' p)"
            using Inr Some parent True by (simp add: Let_def np_def inp_def)
          show ?thesis
          proof (cases "updateGoal depth now goals inp")
            case (Inl e)
            then show ?thesis unfolding step by simp
          next
            case res: (Inr pair)
            obtain goals1 row where pair: "pair = (goals1, row)" by (cases pair)
            have "acyclicBy rank goals1"
              using acyclicBy_edges[OF Suc.prems(1) updateGoal_edges] res pair by blast
            from Suc.IH[OF this rp] obtain r where
              "updateParentProgressChain fuel depth now goals1 p = Some r" by blast
            then show ?thesis unfolding step res pair by simp
          qed
        qed
      qed
    qed
  qed
qed

section \<open>Progress updates\<close>







lemma toDouble_99995: "toDouble (19999 / 200) = 879565321755689 / 8796093022208"
  by (subst toDouble_eval[of 6]) (simp_all add: roundHalfEven_def)

lemma numeric_5_2_of_double_99995:
  "numeric_5_2_of_double (879565321755689 / 8796093022208) = 100"
  unfolding numeric_5_2_of_double_def Let_def by (simp add: toDouble_99995)

text \<open>
  The stored progress is the progress sent, rounded to two decimals: at 99.995 the goal is
  stored with progress 100 and stays active.
\<close>

lemma updateProgress_99995:
  "map_sum id ((\<lambda>row. (progress row, status row)) \<circ> snd)
     (updateProgress 4 1000 pausedPair ''A'' (19999 / 200)) = Inr (100, Active)"
  by (simp add: goal_service_defs pausedPair_def eval_nat_numeral toDouble_99995
      numeric_5_2_of_double_99995)

section \<open>Status and completion time of a recomputed parent\<close>

text \<open>
  C2 fails on the stamping of the completion time. In \<open>familyABC75\<close> (A at 75 with the
  children B, completed at 100, and C, active at 50) the progress of C is set to 100. The
  update of C fires the storage trigger, which recomputes A over its active children, of
  which none is left, to 0; the chain then recomputes A to 100 and calls \<open>updateGoal\<close> with
  the status completed, and \<open>updateGoal\<close> stamps the completion time only for a status
  other than completed. When the call is over A is completed at 100 and its completion
  time is empty.
\<close>

theorem chain_leaves_completion_time:
  "updateProgressWithParentCalculation 2 4 1000 familyABC75 ''C'' 100 =
     Some (Inr ([(sampleGoal ''A'' None 1 100 Completed)\<lparr>updatedAt := 1000\<rparr>,
                 sampleGoal ''B'' (Some ''A'') 2 100 Completed,
                 (sampleGoal ''C'' (Some ''A'') 2 100 Completed)\<lparr>updatedAt := 1000\<rparr>],
                (sampleGoal ''C'' (Some ''A'') 2 100 Completed)\<lparr>updatedAt := 1000\<rparr>)) \<and>
   status ((sampleGoal ''A'' None 1 100 Completed)\<lparr>updatedAt := 1000\<rparr>) = Completed \<and>
   completedAt ((sampleGoal ''A'' None 1 100 Completed)\<lparr>updatedAt := 1000\<rparr>) = None"
  by (simp add: goal_service_defs storage_defs familyABC75_def)

text \<open>
  The other half of the claim holds, by the storage trigger: in the completed family
  (A completed with a completion time, B and C completed) the progress of C is set to 50;
  the trigger reactivates A and clears its completion time, and the chain sets the
  progress of A to 75.
\<close>

lemma trigger_clears_completion_time:
  "completedAt (hd familyDone) = Some 700 \<and>
   updateProgressWithParentCalculation 2 4 1000 familyDone ''C'' 50 =
     Some (Inr ([(sampleGoal ''A'' None 1 75 Active)\<lparr>updatedAt := 1000\<rparr>,
                 sampleGoal ''B'' (Some ''A'') 2 100 Completed,
                 (sampleGoal ''C'' (Some ''A'') 2 50 Active)\<lparr>updatedAt := 1000\<rparr>],
                (sampleGoal ''C'' (Some ''A'') 2 50 Active)\<lparr>updatedAt := 1000\<rparr>)) \<and>
   completedAt ((sampleGoal ''A'' None 1 75 Active)\<lparr>updatedAt := 1000\<rparr>) = None"
  by (simp add: goal_service_defs storage_defs familyDone_def)

section \<open>Upward propagation\<close>

lemma toDouble_7501: "toDouble (7501 / 100) = 5278359500766577 / 70368744177664"
  by (subst toDouble_eval[of 6]) (simp_all add: roundHalfEven_def)

lemma toDouble_7501_minus_75:
  "toDouble (703687441777 / 70368744177664) = 703687441777 / 70368744177664"
  by (subst toDouble_eval[of "- 7"]) (simp_all add: roundHalfEven_def)

text \<open>
  The test of the walk is one on doubles. A stored progress of 75.01 and a recomputed
  progress of 75 differ by 0.01, which is not more than the epsilon; the client computes
  a difference slightly above the double 0.01 and updates the parent.
\<close>

lemma epsilon_in_doubles:
  "\<bar>toDouble (toDouble (7501 / 100) - 75)\<bar> > toDouble (1 / 100) \<and>
   \<bar>(7501 / 100 :: real) - 75\<bar> \<le> 1 / 100"
  by (simp add: toDouble_7501 toDouble_7501_minus_75 toDouble_hundredth)

lemma staleTable_update:
  "updateGoal 4 1000 staleTable ((noChange ''P'')\<lparr>u_progress := Some 40, u_status := Some Active\<rparr>) =
     Inr ([(sampleGoal ''R'' None 1 50 Active)\<lparr>updatedAt := 1000\<rparr>,
           (sampleGoal ''P'' (Some ''R'') 2 40 Active)\<lparr>updatedAt := 1000\<rparr>,
           sampleGoal ''S'' (Some ''R'') 2 60 Active,
           sampleGoal ''G'' (Some ''P'') 3 40 Active],
          (sampleGoal ''P'' (Some ''R'') 2 40 Active)\<lparr>updatedAt := 1000\<rparr>)"
  by (simp add: goal_service_defs storage_defs staleTable_def)

lemma staleTable_run:
  "updateParentProgressChain 4 4 1000 staleTable ''G'' =
     Some (Inr [(sampleGoal ''R'' None 1 50 Active)\<lparr>updatedAt := 1000\<rparr>,
                (sampleGoal ''P'' (Some ''R'') 2 40 Active)\<lparr>updatedAt := 1000\<rparr>,
                sampleGoal ''S'' (Some ''R'') 2 60 Active,
                sampleGoal ''G'' (Some ''P'') 3 40 Active])"
  by (simp add: goal_service_defs storage_defs staleTable_def)

lemma staleTable_walk:
  "propagation 4 1000 staleTable ''G''
     [(sampleGoal ''R'' None 1 50 Active)\<lparr>updatedAt := 1000\<rparr>,
      (sampleGoal ''P'' (Some ''R'') 2 40 Active)\<lparr>updatedAt := 1000\<rparr>,
      sampleGoal ''S'' (Some ''R'') 2 60 Active,
      sampleGoal ''G'' (Some ''P'') 3 40 Active]
     [''P''] (Some ''R'')"
proof -
  let ?after = "[(sampleGoal ''R'' None 1 50 Active)\<lparr>updatedAt := 1000\<rparr>,
      (sampleGoal ''P'' (Some ''R'') 2 40 Active)\<lparr>updatedAt := 1000\<rparr>,
      sampleGoal ''S'' (Some ''R'') 2 60 Active,
      sampleGoal ''G'' (Some ''P'') 3 40 Active]"
  have stop: "propagation 4 1000 ?after ''P'' ?after [] (Some ''R'')"
  proof (rule propagation.within_epsilon)
    show "getGoal ?after ''P'' = Inr ((sampleGoal ''P'' (Some ''R'') 2 40 Active)\<lparr>updatedAt := 1000\<rparr>)"
      by (simp add: getGoal_def single_def sampleGoal_def)
    show "orNull (parentId ((sampleGoal ''P'' (Some ''R'') 2 40 Active)\<lparr>updatedAt := 1000\<rparr>)) = Some ''R''"
      by (simp add: orNull_def truthy_def sampleGoal_def)
    show "getGoal ?after ''R'' = Inr ((sampleGoal ''R'' None 1 50 Active)\<lparr>updatedAt := 1000\<rparr>)"
      by (simp add: getGoal_def single_def sampleGoal_def)
    show "\<bar>toDouble (toDouble (progress ((sampleGoal ''R'' None 1 50 Active)\<lparr>updatedAt := 1000\<rparr>))
            - calculateParentProgress ?after ''R'')\<bar> \<le> toDouble (1 / 100)"
      by (simp add: goal_service_defs toDouble_hundredth)
  qed
  show ?thesis
  proof (rule propagation.climb[OF _ _ _ _ _ _ _ stop])
    show "getGoal staleTable ''G'' = Inr (sampleGoal ''G'' (Some ''P'') 3 40 Active)"
      by (simp add: getGoal_def single_def sampleGoal_def staleTable_def)
    show "orNull (parentId (sampleGoal ''G'' (Some ''P'') 3 40 Active)) = Some ''P''"
      by (simp add: orNull_def truthy_def sampleGoal_def)
    show "getGoal staleTable ''P'' = Inr (sampleGoal ''P'' (Some ''R'') 2 10 Active)"
      by (simp add: getGoal_def single_def sampleGoal_def staleTable_def)
    show "toDouble (1 / 100) < \<bar>toDouble (toDouble (progress (sampleGoal ''P'' (Some ''R'') 2 10 Active))
            - calculateParentProgress staleTable ''P'')\<bar>"
      by (simp add: goal_service_defs toDouble_hundredth staleTable_def)
    show "u_id ((noChange ''P'')\<lparr>u_progress := Some 40, u_status := Some Active\<rparr>) = ''P''"
      by (simp add: noChange_def)
    show "u_progress ((noChange ''P'')\<lparr>u_progress := Some 40, u_status := Some Active\<rparr>)
            = Some (calculateParentProgress staleTable ''P'')"
      by (simp add: goal_service_defs staleTable_def)
    show "updateGoal 4 1000 staleTable ((noChange ''P'')\<lparr>u_progress := Some 40, u_status := Some Active\<rparr>)
            = Inr (?after, (sampleGoal ''P'' (Some ''R'') 2 40 Active)\<lparr>updatedAt := 1000\<rparr>)"
      by (rule staleTable_update)
  qed
qed

text \<open>
  C3, as the claim words it, fails in its last part. In \<open>staleTable\<close> the walk from G
  updates P (stored 10, recomputed 40) and stops at the root R, whose stored progress is
  then within the epsilon of the recomputed 50. But R has not been left unchanged: it
  held 70 before the walk, and the storage trigger that the update of P fired has
  rewritten it to 50.
\<close>

theorem propagation_rewrites_stop_ancestor:
  "updateParentProgressChain 4 4 1000 staleTable ''G'' =
     Some (Inr [(sampleGoal ''R'' None 1 50 Active)\<lparr>updatedAt := 1000\<rparr>,
                (sampleGoal ''P'' (Some ''R'') 2 40 Active)\<lparr>updatedAt := 1000\<rparr>,
                sampleGoal ''S'' (Some ''R'') 2 60 Active,
                sampleGoal ''G'' (Some ''P'') 3 40 Active]) \<and>
   propagation 4 1000 staleTable ''G''
     [(sampleGoal ''R'' None 1 50 Active)\<lparr>updatedAt := 1000\<rparr>,
      (sampleGoal ''P'' (Some ''R'') 2 40 Active)\<lparr>updatedAt := 1000\<rparr>,
      sampleGoal ''S'' (Some ''R'') 2 60 Active,
      sampleGoal ''G'' (Some ''P'') 3 40 Active]
     [''P''] (Some ''R'') \<and>
   getGoal staleTable ''R'' = Inr (sampleGoal ''R'' None 1 70 Active) \<and>
   (sampleGoal ''R'' None 1 70 Active) \<noteq> (sampleGoal ''R'' None 1 50 Active)\<lparr>updatedAt := 1000\<rparr>"
proof -
  have "getGoal staleTable ''R'' = Inr (sampleGoal ''R'' None 1 70 Active)"
    by (simp add: getGoal_def single_def sampleGoal_def staleTable_def)
  moreover have "(sampleGoal ''R'' None 1 70 Active) \<noteq> (sampleGoal ''R'' None 1 50 Active)\<lparr>updatedAt := 1000\<rparr>"
    by (simp add: sampleGoal_def)
  ultimately show ?thesis using staleTable_run staleTable_walk by simp
qed

text \<open>
  C3, amended. The walk returns for every acyclic table, given a bound on the calls above
  the rank of the starting goal; its result can then still be the error of a storage
  call. For a goal of a table as the storage keeps it (\<open>wellFormed\<close>), and room for four
  calls and four nested trigger calls, the walk returns a table: it is the walk of the
  specification, visiting the ancestors in order, nearest first, and updating each of them
  until it reaches a root or the first ancestor whose stored progress is within the
  epsilon of the recomputed one. Every goal that is not a proper ancestor of the starting
  goal is left unchanged, and the table is again well formed. The ancestors above an
  updated goal are not left unchanged: the storage trigger rewrites them.
\<close>

theorem propagation_terminates:
  "(acyclicBy rank goals \<and> rank goalId < fuel \<longrightarrow>
      (\<exists>res. updateParentProgressChain fuel depth now goals goalId = Some res)) \<and>
   (wellFormed goals \<and> g \<in> set goals \<and> gid g = goalId \<and> 4 \<le> fuel \<and> 4 \<le> depth \<longrightarrow>
      (\<exists>goals' ups stop.
          updateParentProgressChain fuel depth now goals goalId = Some (Inr goals') \<and>
          propagation depth now goals goalId goals' ups stop \<and>
          (\<forall>a\<in>set ups. isAncestor goals a goalId) \<and>
          (\<forall>h\<in>set goals. \<not> isAncestor goals (gid h) goalId \<longrightarrow> h \<in> set goals') \<and>
          wellFormed goals'))"
proof (intro conjI impI)
  assume "acyclicBy rank goals \<and> rank goalId < fuel"
  then show "\<exists>res. updateParentProgressChain fuel depth now goals goalId = Some res"
    using chain_returns by blast
next
  assume h: "wellFormed goals \<and> g \<in> set goals \<and> gid g = goalId \<and> 4 \<le> fuel \<and> 4 \<le> depth"
  then have wf: "wellFormed goals" and g: "g \<in> set goals" and d: "4 \<le> depth"
    and f: "4 \<le> fuel" by simp_all
  have "level g \<le> 4"
    using goals_check_None(2)[OF acceptRow_None(2)[OF wellFormed_row(1)[OF wf g]]] .
  then have l: "nat (level g) \<le> fuel" using f by linarith
  from chain_ok[OF wf g l d, of now] h
  show "\<exists>goals' ups stop.
          updateParentProgressChain fuel depth now goals goalId = Some (Inr goals') \<and>
          propagation depth now goals goalId goals' ups stop \<and>
          (\<forall>a\<in>set ups. isAncestor goals a goalId) \<and>
          (\<forall>h\<in>set goals. \<not> isAncestor goals (gid h) goalId \<longrightarrow> h \<in> set goals') \<and>
          wellFormed goals'"
    by blast
qed

lemma wellFormed_chainTable: "wellFormed chainTable"
  by (simp add: wellFormed_def chainTable_def sampleGoal_def acceptRow_def
      validate_goal_hierarchy_def goals_check_def goals_parent_fkey_def)

lemma chainTable_run:
  "updateParentProgressChain 4 4 1000 chainTable ''ABC'' =
     Some (Inr [(sampleGoal ''A'' None 1 50 Active)\<lparr>updatedAt := 1000\<rparr>,
                (sampleGoal ''AB'' (Some ''A'') 2 100 Completed)\<lparr>updatedAt := 1000\<rparr>,
                sampleGoal ''AC'' (Some ''A'') 2 0 Active,
                sampleGoal ''ABC'' (Some ''AB'') 3 100 Completed])"
  by (simp add: goal_service_defs storage_defs chainTable_def)

theorem propagation_terminates_witness:
  "acyclicBy length chainTable \<and> length ''ABC'' < 4 \<and>
   wellFormed chainTable \<and> sampleGoal ''ABC'' (Some ''AB'') 3 100 Completed \<in> set chainTable \<and>
   gid (sampleGoal ''ABC'' (Some ''AB'') 3 100 Completed) = ''ABC'' \<and> (4 :: nat) \<le> 4 \<and>
   (\<exists>res. updateParentProgressChain 4 4 1000 chainTable ''ABC'' = Some res) \<and>
   updateParentProgressChain 4 4 1000 chainTable ''ABC'' =
     Some (Inr [(sampleGoal ''A'' None 1 50 Active)\<lparr>updatedAt := 1000\<rparr>,
                (sampleGoal ''AB'' (Some ''A'') 2 100 Completed)\<lparr>updatedAt := 1000\<rparr>,
                sampleGoal ''AC'' (Some ''A'') 2 0 Active,
                sampleGoal ''ABC'' (Some ''AB'') 3 100 Completed]) \<and>
   (\<exists>ups stop.
      propagation 4 1000 chainTable ''ABC''
        [(sampleGoal ''A'' None 1 50 Active)\<lparr>updatedAt := 1000\<rparr>,
         (sampleGoal ''AB'' (Some ''A'') 2 100 Completed)\<lparr>updatedAt := 1000\<rparr>,
         sampleGoal ''AC'' (Some ''A'') 2 0 Active,
         sampleGoal ''ABC'' (Some ''AB'') 3 100 Completed] ups stop) \<and>
   wellFormed [(sampleGoal ''A'' None 1 50 Active)\<lparr>updatedAt := 1000\<rparr>,
               (sampleGoal ''AB'' (Some ''A'') 2 100 Completed)\<lparr>updatedAt := 1000\<rparr>,
               sampleGoal ''AC'' (Some ''A'') 2 0 Active,
               sampleGoal ''ABC'' (Some ''AB'') 3 100 Completed]"
proof -
  let ?g = "sampleGoal ''ABC'' (Some ''AB'') 3 100 Completed"
  let ?after = "[(sampleGoal ''A'' None 1 50 Active)\<lparr>updatedAt := 1000\<rparr>,
               (sampleGoal ''AB'' (Some ''A'') 2 100 Completed)\<lparr>updatedAt := 1000\<rparr>,
               sampleGoal ''AC'' (Some ''A'') 2 0 Active,
               sampleGoal ''ABC'' (Some ''AB'') 3 100 Completed]"
  have a: "acyclicBy length chainTable"
    by (simp add: acyclicBy_def chainTable_def sampleGoal_def)
  have l: "length ''ABC'' < 4" by simp
  have m: "?g \<in> set chainTable" by (simp add: chainTable_def)
  have i: "gid ?g = ''ABC''" by (simp add: sampleGoal_def)
  note t = propagation_terminates [of length chainTable "''ABC''" 4 4 1000 ?g]
  from t a l have 1: "\<exists>res. updateParentProgressChain 4 4 1000 chainTable ''ABC'' = Some res"
    by blast
  from t wellFormed_chainTable m i obtain goals' ups stop where
    r: "updateParentProgressChain 4 4 1000 chainTable ''ABC'' = Some (Inr goals')"
    and p: "propagation 4 1000 chainTable ''ABC'' goals' ups stop"
    and wf: "wellFormed goals'"
    by auto
  from r have g': "goals' = ?after" unfolding chainTable_run by simp
  from p have 2: "\<exists>ups stop. propagation 4 1000 chainTable ''ABC'' ?after ups stop"
    unfolding g' by blast
  from wf have 3: "wellFormed ?after" unfolding g' .
  from a l wellFormed_chainTable m i 1 2 3 chainTable_run show ?thesis by simp
qed

section \<open>The storage function for the parent progress\<close>

text \<open>
  On the example of the specification (B completed at 100, C active at 50) the client
  computes 75 for A, while \<open>calculate_parent_goal_progress\<close>, which averages the active
  children only, computes 50.
\<close>

lemma calculate_parent_goal_progress_active_only:
  "calculateParentProgress familyABC ''A'' = 75 \<and>
   calculate_parent_goal_progress familyABC ''A'' = 50"
  by (simp add: calculate_parent_goal_progress_def familyABC_def goal_service_defs)

end
